(* ===== verification/Prelude.thy ===== *)
theory Prelude
  imports Main "HOL-Library.Sublist" "HOL-Library.Word"
begin

text \<open>
  Shared vocabulary of the development: Go's strings, integers and maps as the
  components use them, and the lemmas about them the component theories share.

  A Go \<open>string\<close>, \<open>[]byte\<close> or \<open>json.RawMessage\<close> is a \<open>string\<close> (a list of 8-bit
  characters), so \<open>length\<close> is Go's \<open>len\<close>, a count of bytes. A Go \<open>int\<close>, \<open>int64\<close> or
  \<open>time.Duration\<close> (nanoseconds) is an \<open>int\<close> kept in range by \<open>wrap64\<close> wherever the
  code does arithmetic that can overflow. A \<open>float64\<close> that is only carried or
  compared is its 64-bit pattern. A Go map is an association list whose order
  stands for the iteration order the runtime happens to choose; it has distinct keys.
\<close>

named_theorems go_string \<open>evaluation of the trimming functions on concrete strings\<close>

type_synonym bytes = string

subsection \<open>Integers of 64 bits\<close>

definition wrap64 :: "int \<Rightarrow> int" where
  "wrap64 x = (x + 2 ^ 63) mod 2 ^ 64 - 2 ^ 63"

definition int64 :: "int \<Rightarrow> bool" where
  "int64 x \<longleftrightarrow> - (2 ^ 63) \<le> x \<and> x < 2 ^ 63"

lemma wrap64_in_range [simp]: "int64 (wrap64 x)"
proof -
  have "0 \<le> (x + 2 ^ 63) mod 2 ^ 64" and "(x + 2 ^ 63) mod 2 ^ 64 < (2 ^ 64 :: int)"
    by simp_all
  then show ?thesis by (simp add: int64_def wrap64_def)
qed

lemma wrap64_id: "int64 x \<Longrightarrow> wrap64 x = x"
proof -
  assume "int64 x"
  then have "0 \<le> x + 2 ^ 63" and "x + 2 ^ 63 < 2 ^ 64" by (auto simp: int64_def)
  then have "(x + 2 ^ 63) mod 2 ^ 64 = x + 2 ^ 63" by simp
  then show ?thesis by (simp add: wrap64_def)
qed

lemma wrap64_add_left: "wrap64 (wrap64 a + b) = wrap64 (a + b)"
proof -
  have "(wrap64 a + b + 2 ^ 63) mod 2 ^ 64 = ((a + 2 ^ 63) mod 2 ^ 64 + b) mod (2 ^ 64 :: int)"
    by (simp add: wrap64_def algebra_simps)
  also have "\<dots> = (a + 2 ^ 63 + b) mod 2 ^ 64" by (rule mod_add_left_eq)
  finally show ?thesis unfolding wrap64_def [of "wrap64 a + b"] wrap64_def [of "a + b"]
    by (simp add: algebra_simps)
qed

lemma wrap64_add_right: "wrap64 (a + wrap64 b) = wrap64 (a + b)"
  using wrap64_add_left [of b a] by (simp add: add.commute)

subsection \<open>Strings: \<open>strings.HasPrefix\<close>, \<open>HasSuffix\<close>, \<open>Contains\<close>\<close>

fun has_prefix :: "string \<Rightarrow> string \<Rightarrow> bool" where
  "has_prefix s [] = True"
| "has_prefix [] (p # ps) = False"
| "has_prefix (c # cs) (p # ps) = (c = p \<and> has_prefix cs ps)"

definition has_suffix :: "string \<Rightarrow> string \<Rightarrow> bool" where
  "has_suffix s p = has_prefix (rev s) (rev p)"

fun contains :: "string \<Rightarrow> string \<Rightarrow> bool" where
  "contains [] p = (p = [])"
| "contains (c # cs) p = (has_prefix (c # cs) p \<or> contains cs p)"

lemma has_prefix_iff: "has_prefix s p \<longleftrightarrow> prefix p s"
  by (induction s p rule: has_prefix.induct) auto

lemma has_suffix_iff: "has_suffix s p \<longleftrightarrow> suffix p s"
  by (simp add: has_suffix_def has_prefix_iff suffix_to_prefix)

lemma contains_iff: "contains s p \<longleftrightarrow> sublist p s"
  by (induction s p rule: contains.induct) (auto simp: has_prefix_iff sublist_Cons_right)

lemma contains_append: "contains (a @ p @ b) p"
  by (auto simp: contains_iff)

lemma has_prefix_take: "has_prefix s p \<longleftrightarrow> take (length p) s = p"
  by (induction s p rule: has_prefix.induct) auto

lemma has_prefixE:
  assumes "has_prefix s p"
  obtains r where "s = p @ r"
  using assms by (auto simp: has_prefix_iff prefix_def)

text \<open>\<open>strings.TrimPrefix\<close> and \<open>strings.TrimSuffix\<close>.\<close>

definition trim_prefix :: "string \<Rightarrow> string \<Rightarrow> string" where
  "trim_prefix s p = (if has_prefix s p then drop (length p) s else s)"

definition trim_suffix :: "string \<Rightarrow> string \<Rightarrow> string" where
  "trim_suffix s p = (if has_suffix s p then take (length s - length p) s else s)"

subsection \<open>Case folding, white space, decimal numbers\<close>

text \<open>
  \<open>strings.ToLower\<close> and \<open>strings.TrimSpace\<close> on ASCII; a byte of a multi-byte
  character is left as it is.
\<close>

definition is_space :: "char \<Rightarrow> bool" where
  "is_space c = (c \<in> {CHR 0x20, CHR 0x09, CHR 0x0A, CHR 0x0B, CHR 0x0C, CHR 0x0D})"

definition lower_char :: "char \<Rightarrow> char" where
  "lower_char c = (if 65 \<le> (of_char c :: nat) \<and> (of_char c :: nat) \<le> 90
                   then char_of (of_char c + 32 :: nat) else c)"

definition to_lower :: "string \<Rightarrow> string" where
  "to_lower s = map lower_char s"

definition trim_space :: "string \<Rightarrow> string" where
  "trim_space s = rev (dropWhile is_space (rev (dropWhile is_space s)))"

text \<open>\<open>strings.Trim(s, "/")\<close> and its like: a cut set of one character.\<close>

definition trim_char :: "char \<Rightarrow> string \<Rightarrow> string" where
  "trim_char c s = rev (dropWhile (\<lambda>d. d = c) (rev (dropWhile (\<lambda>d. d = c) s)))"

declare trim_prefix_def [go_string] trim_suffix_def [go_string] is_space_def [go_string]
  trim_space_def [go_string] trim_char_def [go_string]

definition digit_char :: "nat \<Rightarrow> char" where
  "digit_char d = char_of (48 + d)"

fun nat_str :: "nat \<Rightarrow> string" where
  "nat_str n = (if n < 10 then [digit_char n] else nat_str (n div 10) @ [digit_char (n mod 10)])"

declare nat_str.simps [simp del]

text \<open>\<open>strconv.Itoa\<close>, and \<open>\%d\<close> of \<open>fmt\<close>.\<close>

definition itoa :: "int \<Rightarrow> string" where
  "itoa i = (if i < 0 then CHR ''-'' # nat_str (nat (- i)) else nat_str (nat i))"

definition is_digit :: "char \<Rightarrow> bool" where
  "is_digit c = (48 \<le> (of_char c :: nat) \<and> (of_char c :: nat) \<le> 57)"

definition digits_value :: "string \<Rightarrow> nat" where
  "digits_value s = foldl (\<lambda>acc c. 10 * acc + (of_char c - 48)) 0 s"

text \<open>
  \<open>strconv.Atoi\<close>: an optional sign and one or more decimal digits, in the range of
  \<open>int\<close>; anything else is an error (\<open>None\<close>).
\<close>

definition atoi :: "string \<Rightarrow> int option" where
  "atoi s =
     (let neg = has_prefix s ''-'';
          ds = (if neg \<or> has_prefix s ''+'' then drop 1 s else s)
      in if ds = [] \<or> \<not> list_all is_digit ds then None
         else let v = (if neg then - int (digits_value ds) else int (digits_value ds))
              in if int64 v then Some v else None)"

lemma nat_str_nonempty [simp]: "nat_str n \<noteq> []"
  by (subst nat_str.simps) simp

lemma of_char_digit_char [simp]: "d < 10 \<Longrightarrow> (of_char (digit_char d) :: nat) = 48 + d"
  by (simp add: digit_char_def)

lemma nat_str_digits: "list_all is_digit (nat_str n)"
proof (induction n rule: nat_str.induct)
  case (1 n)
  show ?case
  proof (cases "n < 10")
    case True
    then show ?thesis by (subst nat_str.simps) (simp add: is_digit_def)
  next
    case False
    with 1 show ?thesis by (subst nat_str.simps) (simp add: is_digit_def [of "digit_char d" for d])
  qed
qed

lemma digits_value_append [simp]:
  "digits_value (s @ [c]) = 10 * digits_value s + (of_char c - 48)"
  by (simp add: digits_value_def)

lemma digits_value_nat_str [simp]: "digits_value (nat_str n) = n"
proof (induction n rule: nat_str.induct)
  case (1 n)
  show ?case
  proof (cases "n < 10")
    case True
    then show ?thesis by (subst nat_str.simps) (simp add: digits_value_def)
  next
    case False
    with 1 show ?thesis by (subst nat_str.simps) simp
  qed
qed

lemma digit_not_sign: "is_digit c \<Longrightarrow> c \<noteq> CHR ''-'' \<and> c \<noteq> CHR ''+''"
  by (auto simp: is_digit_def)

lemma nat_str_no_sign: "\<not> has_prefix (nat_str n) ''-'' \<and> \<not> has_prefix (nat_str n) ''+''"
proof -
  have "nat_str n \<noteq> []" and "list_all is_digit (nat_str n)" by (simp_all add: nat_str_digits)
  then show ?thesis by (cases "nat_str n") (auto dest: digit_not_sign)
qed

lemma atoi_itoa: "int64 i \<Longrightarrow> atoi (itoa i) = Some i"
  using nat_str_no_sign [of "nat i"] nat_str_digits
  by (auto simp: atoi_def itoa_def Let_def)

subsection \<open>\<open>\%q\<close>\<close>

text \<open>
  \<open>strconv.Quote\<close>. ASCII is rendered exactly; a byte of a multi-byte character is
  left as it is, which is what Quote does for printable characters.
\<close>

definition hex_digit :: "nat \<Rightarrow> char" where
  "hex_digit d = (if d < 10 then char_of (48 + d) else char_of (87 + d))"

definition quote_char :: "char \<Rightarrow> string" where
  "quote_char c =
     (if c = CHR 0x22 then [CHR 0x5C, CHR 0x22]
      else if c = CHR 0x5C then [CHR 0x5C, CHR 0x5C]
      else if c = CHR 0x07 then [CHR 0x5C, CHR ''a'']
      else if c = CHR 0x08 then [CHR 0x5C, CHR ''b'']
      else if c = CHR 0x0C then [CHR 0x5C, CHR ''f'']
      else if c = CHR 0x0A then [CHR 0x5C, CHR ''n'']
      else if c = CHR 0x0D then [CHR 0x5C, CHR ''r'']
      else if c = CHR 0x09 then [CHR 0x5C, CHR ''t'']
      else if c = CHR 0x0B then [CHR 0x5C, CHR ''v'']
      else if (of_char c :: nat) < 32 \<or> (of_char c :: nat) = 127
        then [CHR 0x5C, CHR ''x'', hex_digit (of_char c div 16), hex_digit (of_char c mod 16)]
      else [c])"

definition go_quote :: "string \<Rightarrow> string" where
  "go_quote s = [CHR 0x22] @ concat (map quote_char s) @ [CHR 0x22]"

subsection \<open>Maps as association lists\<close>

definition go_map :: "('k \<times> 'v) list \<Rightarrow> bool" where
  "go_map m \<longleftrightarrow> distinct (map fst m)"

fun map_put :: "'k \<Rightarrow> 'v \<Rightarrow> ('k \<times> 'v) list \<Rightarrow> ('k \<times> 'v) list" where
  "map_put k v [] = [(k, v)]"
| "map_put k v ((k', v') # m) = (if k = k' then (k, v) # m else (k', v') # map_put k v m)"

lemma map_of_map_put [simp]: "map_of (map_put k v m) = (map_of m)(k \<mapsto> v)"
  by (induction m) auto

lemma keys_map_put [simp]: "fst ` set (map_put k v m) = insert k (fst ` set m)"
  by (simp flip: dom_map_of_conv_image_fst)

lemma go_map_put [simp]: "go_map m \<Longrightarrow> go_map (map_put k v m)"
proof (induction m)
  case (Cons p m)
  obtain k' v' where p: "p = (k', v')" by (cases p)
  have "fst ` set (map_put k v m) = insert k (fst ` set m)" by simp
  with Cons p show ?case by (auto simp: go_map_def)
qed (simp add: go_map_def)

lemma go_map_Nil [simp]: "go_map []"
  by (simp add: go_map_def)

subsection \<open>Lists\<close>

lemma find_Some_in: "find P xs = Some x \<Longrightarrow> x \<in> set xs \<and> P x"
  by (induction xs) (auto split: if_splits)

lemma find_None_iff_all: "find P xs = None \<longleftrightarrow> (\<forall>x \<in> set xs. \<not> P x)"
  by (induction xs) auto

subsection \<open>First error wins\<close>

text \<open>\<open>if err != nil { return err }\<close>, with \<open>None\<close> for a nil error.\<close>

lemma first_error_None [simp]:
  "(case x of None \<Rightarrow> k | Some e \<Rightarrow> Some e) = None \<longleftrightarrow> x = None \<and> k = None"
  by (cases x) simp_all

lemma first_error_Some [simp]:
  "(case x of None \<Rightarrow> k | Some e \<Rightarrow> Some e) = Some e' \<longleftrightarrow> x = Some e' \<or> (x = None \<and> k = Some e')"
  by (cases x) simp_all

end
