(* ===== verification/Urls.thy ===== *)
theory Urls
  imports Prelude
begin

text \<open>
  Base URLs (\<open>ValidateBaseURL\<close> and \<open>IsLocalBaseURL\<close> of
  \<open>llm/internal/httpclient/httpclient.go\<close>), over the parts of Go's \<open>net/url\<close> and
  \<open>net\<close> packages they use: \<open>url.Parse\<close> down to the scheme and host, \<open>URL.Hostname\<close>,
  \<open>net.ParseIP\<close> and \<open>IP.IsLoopback\<close>.
\<close>

subsection \<open>Splitting strings\<close>

text \<open>\<open>strings.Cut\<close> at a one-byte separator: the part before, the part after, found.\<close>

fun cut :: "char \<Rightarrow> string \<Rightarrow> string \<times> string \<times> bool" where
  "cut c [] = ([], [], False)"
| "cut c (x # xs) =
     (if x = c then ([], xs, True)
      else case cut c xs of (a, b, f) \<Rightarrow> (x # a, b, f))"

fun split_on :: "char \<Rightarrow> string \<Rightarrow> string list" where
  "split_on c [] = [[]]"
| "split_on c (x # xs) =
     (if x = c then [] # split_on c xs
      else case split_on c xs of [] \<Rightarrow> [[x]] | y # ys \<Rightarrow> (x # y) # ys)"

text \<open>The parts before and after the last occurrence of a byte (\<open>strings.LastIndex\<close>).\<close>

definition cut_last :: "char \<Rightarrow> string \<Rightarrow> (string \<times> string) option" where
  "cut_last c s =
     (case cut c (rev s) of (a, b, f) \<Rightarrow> if f then Some (rev b, rev a) else None)"

subsection \<open>\<open>url.Parse\<close>\<close>

record url =
  url_scheme :: string
  url_host :: string

definition is_letter :: "char \<Rightarrow> bool" where
  "is_letter c = ((65 \<le> (of_char c :: nat) \<and> (of_char c :: nat) \<le> 90) \<or>
                  (97 \<le> (of_char c :: nat) \<and> (of_char c :: nat) \<le> 122))"

text \<open>
  \<open>getScheme\<close>: the text before the first colon when it is a scheme. \<open>None\<close> is the
  "missing protocol scheme" error; an empty scheme with the whole text is "no scheme".
\<close>

fun get_scheme :: "string \<Rightarrow> string \<Rightarrow> string \<Rightarrow> (string \<times> string) option" where
  "get_scheme raw acc [] = Some ([], raw)"
| "get_scheme raw acc (c # cs) =
     (if is_letter c then get_scheme raw (c # acc) cs
      else if is_digit c \<or> c \<in> {CHR ''+'', CHR ''-'', CHR ''.''} then
        (if acc = [] then Some ([], raw) else get_scheme raw (c # acc) cs)
      else if c = CHR '':'' then
        (if acc = [] then None else Some (rev acc, cs))
      else Some ([], raw))"

definition is_hex :: "char \<Rightarrow> bool" where
  "is_hex c = (is_digit c \<or> (97 \<le> (of_char c :: nat) \<and> (of_char c :: nat) \<le> 102)
                \<or> (65 \<le> (of_char c :: nat) \<and> (of_char c :: nat) \<le> 70))"

definition unhex :: "char \<Rightarrow> nat" where
  "unhex c = (let n = (of_char c :: nat) in
     if is_digit c then n - 48 else if 97 \<le> n then n - 87 else n - 55)"

text \<open>Every percent sign of a path, query or user part starts a two-digit escape.\<close>

fun escapes_ok :: "string \<Rightarrow> bool" where
  "escapes_ok [] = True"
| "escapes_ok (c # cs) =
     (if c = CHR ''%'' then
        (case cs of a # b # rest \<Rightarrow> is_hex a \<and> is_hex b \<and> escapes_ok rest | _ \<Rightarrow> False)
      else escapes_ok cs)"

text \<open>
  \<open>unescape(host, encodeHost)\<close>: only escapes of non-ASCII bytes (and of the percent
  sign) are allowed, and an ASCII byte that a host may not carry is an error.
\<close>

definition host_char_ok :: "char \<Rightarrow> bool" where
  "host_char_ok c = (is_letter c \<or> is_digit c \<or> 128 \<le> (of_char c :: nat) \<or>
     c \<in> set ''-_.~!$&()*+,;=:[]<>'' \<or> c = CHR 0x27 \<or> c = CHR 0x22)"

fun unescape_host :: "string \<Rightarrow> string option" where
  "unescape_host [] = Some []"
| "unescape_host (c # cs) =
     (if c = CHR ''%'' then
        (case cs of
           a # b # rest \<Rightarrow>
             (if is_hex a \<and> is_hex b \<and> (8 \<le> unhex a \<or> (a = CHR ''2'' \<and> b = CHR ''5''))
              then map_option (Cons (char_of (16 * unhex a + unhex b))) (unescape_host rest)
              else None)
         | _ \<Rightarrow> None)
      else if host_char_ok c then map_option (Cons c) (unescape_host cs)
      else None)"

text \<open>\<open>validOptionalPort\<close>: empty, or a colon and decimal digits (possibly none).\<close>

definition valid_optional_port :: "string \<Rightarrow> bool" where
  "valid_optional_port p =
     (case p of [] \<Rightarrow> True | c # ds \<Rightarrow> c = CHR '':'' \<and> list_all is_digit ds)"

definition parse_host :: "string \<Rightarrow> string option" where
  "parse_host h =
     (if has_prefix h ''['' then
        (case cut_last (CHR '']'') h of
           None \<Rightarrow> None
         | Some (_, port) \<Rightarrow> if valid_optional_port port then unescape_host h else None)
      else
        (case cut_last (CHR '':'') h of
           Some (_, port) \<Rightarrow>
             if valid_optional_port (CHR '':'' # port) then unescape_host h else None
         | None \<Rightarrow> unescape_host h))"

definition user_char_ok :: "char \<Rightarrow> bool" where
  "user_char_ok c = (is_letter c \<or> is_digit c \<or> c \<in> set ''-._:~!$&()*+,;=%@'' \<or> c = CHR 0x27)"

text \<open>\<open>parseAuthority\<close>: the host after the last at sign.\<close>

definition parse_authority :: "string \<Rightarrow> string option" where
  "parse_authority a =
     (case cut_last (CHR ''@'') a of
        None \<Rightarrow> parse_host a
      | Some (user, h) \<Rightarrow>
          (case parse_host h of
             None \<Rightarrow> None
           | Some host \<Rightarrow>
               if list_all user_char_ok user \<and> escapes_ok user then Some host else None))"

definition is_ctl :: "char \<Rightarrow> bool" where
  "is_ctl c = ((of_char c :: nat) < 32 \<or> (of_char c :: nat) = 127)"

definition parse_rest :: "string \<Rightarrow> string \<Rightarrow> url option" where
  "parse_rest scheme rest =
     (if \<not> has_prefix rest ''/'' then
        (if scheme \<noteq> [] then Some \<lparr>url_scheme = scheme, url_host = []\<rparr>
         else if contains (fst (cut (CHR ''/'') rest)) '':'' then None
         else if escapes_ok rest then Some \<lparr>url_scheme = [], url_host = []\<rparr> else None)
      else if (scheme \<noteq> [] \<or> \<not> has_prefix rest ''///'') \<and> has_prefix rest ''//'' then
        (case cut (CHR ''/'') (drop 2 rest) of
           (authority, path, _) \<Rightarrow>
             (case parse_authority authority of
                None \<Rightarrow> None
              | Some h \<Rightarrow>
                  if escapes_ok path then Some \<lparr>url_scheme = scheme, url_host = h\<rparr> else None))
      else if escapes_ok rest then Some \<lparr>url_scheme = scheme, url_host = []\<rparr> else None)"

definition url_parse :: "string \<Rightarrow> url option" where
  "url_parse raw =
     (case cut (CHR ''#'') raw of
        (u, frag, _) \<Rightarrow>
          if list_ex is_ctl u then None
          else if u = ''*'' then (if escapes_ok frag then Some \<lparr>url_scheme = [], url_host = []\<rparr> else None)
          else
            (case get_scheme u [] u of
               None \<Rightarrow> None
             | Some (scheme, rest) \<Rightarrow>
                 (case parse_rest (to_lower scheme) (fst (cut (CHR ''?'') rest)) of
                    None \<Rightarrow> None
                  | Some p \<Rightarrow> if escapes_ok frag then Some p else None)))"

text \<open>\<open>URL.Hostname\<close>: the host without its port and without square brackets.\<close>

definition hostname :: "url \<Rightarrow> string" where
  "hostname u =
     (let h = url_host u;
          noport = (case cut_last (CHR '':'') h of
                      Some (a, p) \<Rightarrow> if valid_optional_port (CHR '':'' # p) then a else h
                    | None \<Rightarrow> h)
      in if has_prefix noport ''['' \<and> has_suffix noport '']''
         then butlast (drop 1 noport) else noport)"

subsection \<open>\<open>net.ParseIP\<close>\<close>

definition ipv4_field :: "string \<Rightarrow> nat option" where
  "ipv4_field s =
     (if s = [] \<or> \<not> list_all is_digit s \<or> 3 < length s \<or> (1 < length s \<and> hd s = CHR ''0'') then None
      else let v = digits_value s in if v \<le> 255 then Some v else None)"

fun all_some :: "'a option list \<Rightarrow> 'a list option" where
  "all_some [] = Some []"
| "all_some (None # xs) = None"
| "all_some (Some x # xs) = map_option (Cons x) (all_some xs)"

definition parse_ipv4 :: "string \<Rightarrow> nat list option" where
  "parse_ipv4 s =
     (case all_some (map ipv4_field (split_on (CHR ''.'') s)) of
        Some fs \<Rightarrow> if length fs = 4 then Some fs else None
      | None \<Rightarrow> None)"

definition hex_value :: "string \<Rightarrow> nat" where
  "hex_value s = foldl (\<lambda>acc c. 16 * acc + unhex c) 0 s"

definition ipv6_group :: "string \<Rightarrow> nat list option" where
  "ipv6_group s =
     (if s = [] \<or> 4 < length s \<or> \<not> list_all is_hex s then None
      else Some [hex_value s div 256, hex_value s mod 256])"

text \<open>The bytes of colon-separated groups, the last of which may be a dotted IPv4.\<close>

fun ipv6_groups :: "bool \<Rightarrow> string list \<Rightarrow> nat list option" where
  "ipv6_groups v4 [] = Some []"
| "ipv6_groups v4 [g] =
     (case ipv6_group g of Some b \<Rightarrow> Some b | None \<Rightarrow> if v4 then parse_ipv4 g else None)"
| "ipv6_groups v4 (g # gs) =
     (case ipv6_group g of
        None \<Rightarrow> None
      | Some b \<Rightarrow> map_option ((@) b) (ipv6_groups v4 gs))"

text \<open>The text before and after the first double colon.\<close>

fun cut_ellipsis :: "string \<Rightarrow> (string \<times> string) option" where
  "cut_ellipsis (a # b # cs) =
     (if a = CHR '':'' \<and> b = CHR '':'' then Some ([], cs)
      else map_option (\<lambda>(l, r). (a # l, r)) (cut_ellipsis (b # cs)))"
| "cut_ellipsis _ = None"

definition groups_of :: "string \<Rightarrow> string list" where
  "groups_of s = (if s = [] then [] else split_on (CHR '':'') s)"

definition parse_ipv6 :: "string \<Rightarrow> nat list option" where
  "parse_ipv6 s =
     (case cut_ellipsis s of
        None \<Rightarrow>
          (case ipv6_groups True (groups_of s) of
             Some bs \<Rightarrow> if length bs = 16 then Some bs else None
           | None \<Rightarrow> None)
      | Some (l, r) \<Rightarrow>
          (case (ipv6_groups False (groups_of l), ipv6_groups True (groups_of r)) of
             (Some lb, Some rb) \<Rightarrow>
               if length lb + length rb \<le> 14
               then Some (lb @ replicate (16 - length lb - length rb) 0 @ rb) else None
           | _ \<Rightarrow> None))"

text \<open>\<open>IP.IsLoopback\<close>: 127.0.0.0/8, plain or mapped into IPv6, and ::1.\<close>

definition is_loopback :: "string \<Rightarrow> bool" where
  "is_loopback host =
     (case parse_ipv4 host of
        Some fs \<Rightarrow> hd fs = 127
      | None \<Rightarrow>
          (case parse_ipv6 host of
             Some bs \<Rightarrow>
               (take 12 bs = replicate 10 0 @ [255, 255] \<and> bs ! 12 = 127)
               \<or> bs = replicate 15 0 @ [1]
           | None \<Rightarrow> False))"

subsection \<open>The two functions of \<open>httpclient.go\<close>\<close>

definition is_local_base_url :: "string \<Rightarrow> bool" where
  "is_local_base_url raw =
     (case url_parse raw of
        None \<Rightarrow> False
      | Some u \<Rightarrow>
          (let host = to_lower (hostname u)
           in if host = ''localhost'' \<or> has_suffix host ''.local'' then True
              else is_loopback host))"

datatype url_error =
    BadUrl
  | BadScheme string
  | NoHost

definition validate_base_url :: "string \<Rightarrow> url_error + string" where
  "validate_base_url base =
     (let b = trim_suffix (trim_space base) ''/''
      in case url_parse b of
           None \<Rightarrow> Inl BadUrl
         | Some u \<Rightarrow>
             if url_scheme u \<noteq> ''https'' \<and> url_scheme u \<noteq> ''http'' then Inl (BadScheme (url_scheme u))
             else if url_host u = [] then Inl NoHost
             else Inr b)"

end
