(* ===== verification/LlmTypes.thy ===== *)
theory LlmTypes
  imports Urls
begin

text \<open>
  The data model of package \<open>llm\<close> (\<open>llm/types.go\<close>, \<open>llm/errors.go\<close>): errors,
  messages and content blocks, chat requests and responses, token usage, client
  options and their defaults, and the small pure methods on them.

  Go's string enumerations are datatypes whose last constructor carries any value
  outside the listed constants. A pointer field that may be nil is an \<open>option\<close>; a
  \<open>float64\<close> is its bit pattern. \<open>chat_request\<close> and \<open>client_options\<close> are
  polymorphic in the type of provider extensions, which is an open interface in Go.
\<close>

subsection \<open>Errors\<close>

datatype sentinel =
    ErrNotSupported
  | ErrAuthentication
  | ErrRateLimit
  | ErrInvalidRequest
  | ErrProviderError

definition sentinel_text :: "sentinel \<Rightarrow> string" where
  "sentinel_text e =
     (case e of
        ErrNotSupported \<Rightarrow> ''operation not supported by provider''
      | ErrAuthentication \<Rightarrow> ''authentication failed''
      | ErrRateLimit \<Rightarrow> ''rate limit exceeded''
      | ErrInvalidRequest \<Rightarrow> ''invalid request''
      | ErrProviderError \<Rightarrow> ''provider error'')"

record provider_error =
  pe_err :: sentinel
  pe_status :: int
  pe_message :: string
  pe_provider :: string

text \<open>
  A Go \<open>error\<close> value: a \<open>*ProviderError\<close>, the proxy's \<open>*AuthError\<close>, an opaque
  error with its text (\<open>errors.New\<close>, \<open>fmt.Errorf\<close> without \<open>\%w\<close>), one wrapped by
  \<open>fmt.Errorf("prefix: \%w", err)\<close>, or one of the context and \<open>io\<close> sentinels.
\<close>

datatype go_error =
    SentinelErr sentinel
  | ProviderErr provider_error
  | AuthErr go_error int
  | PlainErr string
  | WrapErr string go_error
  | CanceledErr
  | DeadlineErr
  | EofErr

definition provider_error_text :: "provider_error \<Rightarrow> string" where
  "provider_error_text e =
     (if pe_status e = 0 then pe_provider e @ '': '' @ pe_message e
      else pe_provider e @ '' ('' @ itoa (pe_status e) @ ''): '' @ pe_message e)"

fun error_text :: "go_error \<Rightarrow> string" where
  "error_text (SentinelErr e) = sentinel_text e"
| "error_text (ProviderErr e) = provider_error_text e"
| "error_text (AuthErr e st) = error_text e"
| "error_text (PlainErr s) = s"
| "error_text (WrapErr p e) = p @ error_text e"
| "error_text CanceledErr = ''context canceled''"
| "error_text DeadlineErr = ''context deadline exceeded''"
| "error_text EofErr = ''EOF''"

text \<open>\<open>errors.Is(err, target)\<close> for a sentinel target: along the \<open>Unwrap\<close> chain.\<close>

fun is_sentinel :: "sentinel \<Rightarrow> go_error \<Rightarrow> bool" where
  "is_sentinel t (SentinelErr e) = (e = t)"
| "is_sentinel t (ProviderErr e) = (pe_err e = t)"
| "is_sentinel t (AuthErr e st) = is_sentinel t e"
| "is_sentinel t (WrapErr p e) = is_sentinel t e"
| "is_sentinel t _ = False"

fun is_eof :: "go_error \<Rightarrow> bool" where
  "is_eof EofErr = True"
| "is_eof (AuthErr e st) = is_eof e"
| "is_eof (WrapErr p e) = is_eof e"
| "is_eof _ = False"

subsection \<open>Messages and content blocks\<close>

datatype role = RoleUser | RoleAssistant | RoleSystem | RoleTool | RoleOther string

definition role_str :: "role \<Rightarrow> string" where
  "role_str r =
     (case r of
        RoleUser \<Rightarrow> ''user''
      | RoleAssistant \<Rightarrow> ''assistant''
      | RoleSystem \<Rightarrow> ''system''
      | RoleTool \<Rightarrow> ''tool''
      | RoleOther s \<Rightarrow> s)"

datatype block_type =
    BlockText
  | BlockImage
  | BlockDocument
  | BlockToolUse
  | BlockToolResult
  | BlockThinking
  | BlockRedactedThinking
  | BlockOther string

definition block_type_str :: "block_type \<Rightarrow> string" where
  "block_type_str t =
     (case t of
        BlockText \<Rightarrow> ''text''
      | BlockImage \<Rightarrow> ''image''
      | BlockDocument \<Rightarrow> ''document''
      | BlockToolUse \<Rightarrow> ''tool_use''
      | BlockToolResult \<Rightarrow> ''tool_result''
      | BlockThinking \<Rightarrow> ''thinking''
      | BlockRedactedThinking \<Rightarrow> ''redacted_thinking''
      | BlockOther s \<Rightarrow> s)"

record image_content =
  img_url :: string
  img_data :: bytes
  img_media_type :: string

record document_content =
  doc_url :: string
  doc_data :: bytes
  doc_media_type :: string
  doc_filename :: string

record tool_use =
  tu_id :: string
  tu_name :: string
  tu_input :: bytes
  tu_signature :: string

record thinking =
  th_text :: string
  th_signature :: string
  th_data :: string

record cache_control =
  cc_type :: string

record content_block =
  cb_type :: block_type
  cb_text :: string
  cb_image :: "image_content option"
  cb_document :: "document_content option"
  cb_tool_use :: "tool_use option"
  cb_tool_use_id :: string
  cb_is_error :: bool
  cb_thinking :: "thinking option"
  cb_cache_control :: "cache_control option"

definition blank_block :: "block_type \<Rightarrow> content_block" where
  "blank_block t = \<lparr>cb_type = t, cb_text = [], cb_image = None, cb_document = None,
     cb_tool_use = None, cb_tool_use_id = [], cb_is_error = False, cb_thinking = None,
     cb_cache_control = None\<rparr>"

definition zero_block :: content_block where
  "zero_block = blank_block (BlockOther [])"

record message =
  msg_role :: role
  msg_content :: "content_block list"

record tool =
  tool_name :: string
  tool_description :: string
  tool_compact :: string
  tool_schema :: bytes

text \<open>The constructors of \<open>llm/types.go\<close>.\<close>

definition text_block :: "string \<Rightarrow> content_block" where
  "text_block t = (blank_block BlockText)\<lparr>cb_text := t\<rparr>"

definition image_block :: "bytes \<Rightarrow> string \<Rightarrow> content_block" where
  "image_block d mt = (blank_block BlockImage)
     \<lparr>cb_image := Some \<lparr>img_url = [], img_data = d, img_media_type = mt\<rparr>\<rparr>"

definition image_url_block :: "string \<Rightarrow> content_block" where
  "image_url_block u = (blank_block BlockImage)
     \<lparr>cb_image := Some \<lparr>img_url = u, img_data = [], img_media_type = []\<rparr>\<rparr>"

definition document_block :: "bytes \<Rightarrow> string \<Rightarrow> string \<Rightarrow> content_block" where
  "document_block d mt fn = (blank_block BlockDocument)
     \<lparr>cb_document := Some \<lparr>doc_url = [], doc_data = d, doc_media_type = mt, doc_filename = fn\<rparr>\<rparr>"

definition document_url_block :: "string \<Rightarrow> string \<Rightarrow> string \<Rightarrow> content_block" where
  "document_url_block u mt fn = (blank_block BlockDocument)
     \<lparr>cb_document := Some \<lparr>doc_url = u, doc_data = [], doc_media_type = mt, doc_filename = fn\<rparr>\<rparr>"

definition tool_result_block :: "string \<Rightarrow> string \<Rightarrow> bool \<Rightarrow> content_block" where
  "tool_result_block i t e = (blank_block BlockToolResult)
     \<lparr>cb_tool_use_id := i, cb_text := t, cb_is_error := e\<rparr>"

definition user_blocks :: "content_block list \<Rightarrow> message" where
  "user_blocks bs = \<lparr>msg_role = RoleUser, msg_content = bs\<rparr>"

definition assistant_blocks :: "content_block list \<Rightarrow> message" where
  "assistant_blocks bs = \<lparr>msg_role = RoleAssistant, msg_content = bs\<rparr>"

definition user_text :: "string \<Rightarrow> message" where
  "user_text t = \<lparr>msg_role = RoleUser, msg_content = [text_block t]\<rparr>"

definition assistant_text :: "string \<Rightarrow> message" where
  "assistant_text t = \<lparr>msg_role = RoleAssistant, msg_content = [text_block t]\<rparr>"

definition system_text :: "string \<Rightarrow> message" where
  "system_text t = \<lparr>msg_role = RoleSystem, msg_content = [text_block t]\<rparr>"

definition tool_result_message :: "string \<Rightarrow> string \<Rightarrow> bool \<Rightarrow> message" where
  "tool_result_message i t e = \<lparr>msg_role = RoleTool, msg_content = [tool_result_block i t e]\<rparr>"

text \<open>
  The contract of the \<open>ContentBlock\<close> comment: the type selects the payload field, and
  the payload fields of the other types are unset.
\<close>

definition payload_ok :: "content_block \<Rightarrow> bool" where
  "payload_ok b \<longleftrightarrow>
     (cb_image b \<noteq> None \<longrightarrow> cb_type b = BlockImage) \<and>
     (cb_document b \<noteq> None \<longrightarrow> cb_type b = BlockDocument) \<and>
     (cb_tool_use b \<noteq> None \<longrightarrow> cb_type b = BlockToolUse) \<and>
     (cb_thinking b \<noteq> None \<longrightarrow> cb_type b \<in> {BlockThinking, BlockRedactedThinking}) \<and>
     (cb_text b \<noteq> [] \<longrightarrow> cb_type b \<in> {BlockText, BlockToolResult}) \<and>
     (cb_tool_use_id b \<noteq> [] \<longrightarrow> cb_type b = BlockToolResult) \<and>
     (cb_is_error b \<longrightarrow> cb_type b = BlockToolResult)"

lemmas block_defs = blank_block_def zero_block_def text_block_def image_block_def
  image_url_block_def document_block_def document_url_block_def tool_result_block_def

subsection \<open>Output format, tool choice and tool descriptions\<close>

datatype response_format_type =
    ResponseFormatText
  | ResponseFormatJSON
  | ResponseFormatJSONSchema
  | ResponseFormatOther string

record response_format =
  rf_type :: response_format_type
  rf_schema :: bytes

datatype tool_choice_mode =
    ToolChoiceAuto
  | ToolChoiceNone
  | ToolChoiceRequired
  | ToolChoiceSpecific
  | ToolChoiceOther string

record tool_choice =
  tc_mode :: tool_choice_mode
  tc_name :: string

datatype tool_description_mode =
    ToolDescriptionDefault
  | ToolDescriptionFull
  | ToolDescriptionCompact
  | ToolDescriptionAuto
  | ToolDescriptionOther string

definition effective_tool_description :: "tool \<Rightarrow> bool \<Rightarrow> string" where
  "effective_tool_description t use_compact =
     (if use_compact \<and> tool_compact t \<noteq> [] then tool_compact t else tool_description t)"

subsection \<open>Reasoning effort and prompt caching\<close>

datatype effort =
    EffortDefault
  | EffortNone
  | EffortMinimal
  | EffortLow
  | EffortMedium
  | EffortHigh
  | EffortXHigh
  | EffortMax
  | EffortOther string

definition effort_str :: "effort \<Rightarrow> string" where
  "effort_str e =
     (case e of
        EffortDefault \<Rightarrow> []
      | EffortNone \<Rightarrow> ''none''
      | EffortMinimal \<Rightarrow> ''minimal''
      | EffortLow \<Rightarrow> ''low''
      | EffortMedium \<Rightarrow> ''medium''
      | EffortHigh \<Rightarrow> ''high''
      | EffortXHigh \<Rightarrow> ''xhigh''
      | EffortMax \<Rightarrow> ''max''
      | EffortOther s \<Rightarrow> s)"

definition effort_valid :: "effort \<Rightarrow> bool" where
  "effort_valid e = (case e of EffortOther s \<Rightarrow> False | _ \<Rightarrow> True)"

datatype prompt_caching =
    CachingDefault
  | CachingOff
  | CachingAuto
  | CachingOther string

definition caching_str :: "prompt_caching \<Rightarrow> string" where
  "caching_str p =
     (case p of
        CachingDefault \<Rightarrow> []
      | CachingOff \<Rightarrow> ''off''
      | CachingAuto \<Rightarrow> ''auto''
      | CachingOther s \<Rightarrow> s)"

definition caching_valid :: "prompt_caching \<Rightarrow> bool" where
  "caching_valid p = (case p of CachingOther s \<Rightarrow> False | _ \<Rightarrow> True)"

subsection \<open>Chat requests and responses\<close>

type_synonym f64 = "64 word"

text \<open>The \<open>float64\<close> 1, the only value whose bits compare equal to it.\<close>

definition f64_one :: f64 where
  "f64_one = 0x3FF0000000000000"

record 'x chat_request =
  req_messages :: "message list"
  req_tools :: "tool list"
  req_system :: string
  req_max_tokens :: "int option"
  req_temperature :: "f64 option"
  req_extensions :: "'x list"
  req_format :: "response_format option"
  req_tool_choice :: "tool_choice option"
  req_stop :: "string list"
  req_descriptions :: tool_description_mode
  req_effort :: effort
  req_caching :: prompt_caching

definition effective_caching ::
  "'x chat_request \<Rightarrow> prompt_caching \<Rightarrow> provider_error + prompt_caching" where
  "effective_caching r client_default =
     (let p = (if req_caching r = CachingDefault then client_default else req_caching r)
      in if \<not> caching_valid p then
           Inl \<lparr>pe_err = ErrInvalidRequest, pe_status = 0,
                pe_message = ''unknown prompt caching setting '' @ go_quote (caching_str p),
                pe_provider = []\<rparr>
         else Inr (if p = CachingDefault then CachingOff else p))"

definition effective_effort ::
  "'x chat_request \<Rightarrow> effort \<Rightarrow> provider_error + effort" where
  "effective_effort r client_default =
     (let e = (if req_effort r = EffortDefault then client_default else req_effort r)
      in if \<not> effort_valid e then
           Inl \<lparr>pe_err = ErrInvalidRequest, pe_status = 0,
                pe_message = ''unknown reasoning effort '' @ go_quote (effort_str e),
                pe_provider = []\<rparr>
         else Inr e)"

definition use_compact_descriptions :: "'x chat_request \<Rightarrow> string \<Rightarrow> bool" where
  "use_compact_descriptions r base_url =
     (case req_descriptions r of
        ToolDescriptionCompact \<Rightarrow> True
      | ToolDescriptionFull \<Rightarrow> False
      | _ \<Rightarrow> is_local_base_url base_url)"

text \<open>
  \<open>FindExtension[T]\<close>: \<open>name_of\<close> is the extension's \<open>ProviderName\<close> method and \<open>as_t\<close>
  the type assertion to \<open>T\<close>.
\<close>

fun find_extension :: "('x \<Rightarrow> string) \<Rightarrow> ('x \<Rightarrow> 't option) \<Rightarrow> 'x list \<Rightarrow> string \<Rightarrow> 't option" where
  "find_extension name_of as_t [] provider = None"
| "find_extension name_of as_t (e # es) provider =
     (if name_of e \<noteq> provider then find_extension name_of as_t es provider
      else case as_t e of Some t \<Rightarrow> Some t | None \<Rightarrow> find_extension name_of as_t es provider)"

datatype stop_reason =
    StopReasonUnset
  | StopReasonEndTurn
  | StopReasonMaxTokens
  | StopReasonStopSequence
  | StopReasonToolUse
  | StopReasonContentFilter
  | StopReasonError

record token_usage =
  us_prompt :: int
  us_completion :: int
  us_total :: int
  us_cache_creation :: int
  us_cache_read :: int

definition zero_usage :: token_usage where
  "zero_usage = \<lparr>us_prompt = 0, us_completion = 0, us_total = 0, us_cache_creation = 0,
     us_cache_read = 0\<rparr>"

definition usage_add :: "token_usage \<Rightarrow> token_usage \<Rightarrow> token_usage" where
  "usage_add u v = \<lparr>
     us_prompt = wrap64 (us_prompt u + us_prompt v),
     us_completion = wrap64 (us_completion u + us_completion v),
     us_total = wrap64 (us_total u + us_total v),
     us_cache_creation = wrap64 (us_cache_creation u + us_cache_creation v),
     us_cache_read = wrap64 (us_cache_read u + us_cache_read v)\<rparr>"

record chat_response =
  resp_content :: "content_block list"
  resp_stop :: stop_reason
  resp_usage :: token_usage

definition empty_response :: chat_response where
  "empty_response = \<lparr>resp_content = [], resp_stop = StopReasonUnset, resp_usage = zero_usage\<rparr>"

subsection \<open>Client options\<close>

record retry_config =
  max_retries :: int
  initial_backoff :: int
  max_backoff :: int
  retry_disabled :: bool

record 'x client_options =
  opt_api_key :: string
  opt_api_key_file :: string
  opt_model :: string
  opt_base_url :: string
  opt_custom_headers :: "(string \<times> string) list"
  opt_max_tokens :: "int option"
  opt_temperature :: "f64 option"
  opt_effort :: effort
  opt_caching :: prompt_caching
  opt_extra_body :: "(string \<times> (go_error + bytes)) list"
  opt_request_timeout :: int
  opt_per_attempt_timeout :: int
  opt_max_response_bytes :: int
  opt_retry :: retry_config
  opt_extensions :: "'x list"

text \<open>Durations in nanoseconds.\<close>

definition second :: int where
  "second = 1000000000"

definition default_retry :: "retry_config \<Rightarrow> retry_config" where
  "default_retry r =
     (if retry_disabled r then r
      else r\<lparr>max_retries := (if max_retries r = 0 then 5 else max_retries r),
             initial_backoff := (if initial_backoff r = 0 then 2 * second else initial_backoff r),
             max_backoff := (if max_backoff r = 0 then 60 * second else max_backoff r)\<rparr>)"

text \<open>\<open>read_file\<close> is the file system the process sees (\<open>os.ReadFile\<close>).\<close>

definition with_defaults ::
  "(string \<Rightarrow> bytes option) \<Rightarrow> 'x client_options \<Rightarrow> 'x client_options" where
  "with_defaults read_file o1 =
     (let o2 = (if opt_api_key o1 = [] \<and> opt_api_key_file o1 \<noteq> [] then
                  (case read_file (opt_api_key_file o1) of
                     Some b \<Rightarrow> o1\<lparr>opt_api_key := trim_space b\<rparr>
                   | None \<Rightarrow> o1)
                else o1);
          o3 = (if opt_max_tokens o2 = None then o2\<lparr>opt_max_tokens := Some 4096\<rparr> else o2)
      in o3\<lparr>opt_retry := default_retry (opt_retry o3)\<rparr>)"

subsection \<open>What these operations promise\<close>

lemma trim_space_fixed:
  assumes "\<And>c cs. s = c # cs \<Longrightarrow> \<not> is_space c"
    and "\<And>c cs. rev s = c # cs \<Longrightarrow> \<not> is_space c"
  shows "trim_space s = s"
proof -
  have "dropWhile is_space s = s" using assms(1) by (cases s) auto
  moreover have "dropWhile is_space (rev s) = rev s" using assms(2) by (cases "rev s") auto
  ultimately show ?thesis by (simp add: trim_space_def)
qed

lemma default_retry_idem [simp]: "default_retry (default_retry r) = default_retry r"
  by (cases r) (simp add: default_retry_def second_def)

lemma with_defaults_fixed:
  assumes "opt_api_key opts \<noteq> [] \<or> opt_api_key_file opts = []"
    and "opt_max_tokens opts \<noteq> None"
    and "default_retry (opt_retry opts) = opt_retry opts"
  shows "with_defaults fs opts = opts"
proof -
  have "\<not> (opt_api_key opts = [] \<and> opt_api_key_file opts \<noteq> [])" using assms(1) by blast
  then have "with_defaults fs opts = opts\<lparr>opt_retry := default_retry (opt_retry opts)\<rparr>"
    unfolding with_defaults_def Let_def using assms(2) by (simp only: if_False)
  with assms(3) show ?thesis by simp
qed

lemma with_defaults_select:
  "opt_api_key_file (with_defaults fs opts) = opt_api_key_file opts"
  "opt_max_tokens (with_defaults fs opts) \<noteq> None"
  "opt_retry (with_defaults fs opts) = default_retry (opt_retry opts)"
  by (simp_all add: with_defaults_def Let_def split: option.split)

text \<open>
  WithDefaults is idempotent, whatever the file system it reads the key file from says
  the second time, provided the first call left a key or there is no file to read: applying
  it again (the registry applies it once, a factory may again) changes no option.
\<close>

theorem with_defaults_idempotent:
  assumes "opt_api_key (with_defaults fs opts) \<noteq> [] \<or> opt_api_key_file opts = []"
  shows "with_defaults fs' (with_defaults fs opts) = with_defaults fs opts"
  by (rule with_defaults_fixed) (use assms in \<open>simp_all add: with_defaults_select\<close>)

definition key_file_options :: "unit client_options" where
  "key_file_options = \<lparr>opt_api_key = [], opt_api_key_file = ''key'', opt_model = ''m'',
     opt_base_url = [], opt_custom_headers = [], opt_max_tokens = None, opt_temperature = None,
     opt_effort = EffortDefault, opt_caching = CachingDefault, opt_extra_body = [],
     opt_request_timeout = 0, opt_per_attempt_timeout = 0, opt_max_response_bytes = 0,
     opt_retry = \<lparr>max_retries = 0, initial_backoff = 0, max_backoff = 0, retry_disabled = False\<rparr>,
     opt_extensions = []\<rparr>"

theorem with_defaults_idempotent_witness:
  "with_defaults (\<lambda>_. None) (with_defaults (\<lambda>_. Some [CHR ''s'', CHR 0x0A]) key_file_options)
   = key_file_options\<lparr>opt_api_key := ''s'', opt_max_tokens := Some 4096,
       opt_retry := \<lparr>max_retries = 5, initial_backoff = 2 * second, max_backoff = 60 * second,
                     retry_disabled = False\<rparr>\<rparr>"
proof -
  have d: "with_defaults (\<lambda>_. Some [CHR ''s'', CHR 0x0A]) key_file_options
   = key_file_options\<lparr>opt_api_key := ''s'', opt_max_tokens := Some 4096,
       opt_retry := \<lparr>max_retries = 5, initial_backoff = 2 * second, max_backoff = 60 * second,
                     retry_disabled = False\<rparr>\<rparr>"
    by (simp add: with_defaults_def key_file_options_def default_retry_def go_string)
  then have "opt_api_key (with_defaults (\<lambda>_. Some [CHR ''s'', CHR 0x0A]) key_file_options) \<noteq> []" by simp
  then show ?thesis by (subst with_defaults_idempotent) (simp_all only: d simp_thms)
qed

lemma usage_add_select:
  "us_prompt (usage_add u v) = wrap64 (us_prompt u + us_prompt v)"
  "us_completion (usage_add u v) = wrap64 (us_completion u + us_completion v)"
  "us_total (usage_add u v) = wrap64 (us_total u + us_total v)"
  "us_cache_creation (usage_add u v) = wrap64 (us_cache_creation u + us_cache_creation v)"
  "us_cache_read (usage_add u v) = wrap64 (us_cache_read u + us_cache_read v)"
  by (simp_all add: usage_add_def)

lemma usage_add_sums:
  "foldl usage_add u us = (if us = [] then u else
     \<lparr>us_prompt = wrap64 (us_prompt u + sum_list (map us_prompt us)),
      us_completion = wrap64 (us_completion u + sum_list (map us_completion us)),
      us_total = wrap64 (us_total u + sum_list (map us_total us)),
      us_cache_creation = wrap64 (us_cache_creation u + sum_list (map us_cache_creation us)),
      us_cache_read = wrap64 (us_cache_read u + sum_list (map us_cache_read us))\<rparr>)"
proof (induction us arbitrary: u)
  case (Cons v us)
  show ?case
  proof (cases "us = []")
    case True
    then show ?thesis by (simp add: usage_add_def)
  next
    case False
    with Cons.IH [of "usage_add u v"] show ?thesis
      by (simp add: usage_add_select wrap64_add_left add.assoc)
  qed
qed simp

text \<open>
  accumulating the usage of a conversation with TokenUsage.Add from the zero value gives,
  in every one of the five counters, the 64-bit wrapped sum of that counter over the calls.
\<close>

theorem usage_add_total:
  "foldl usage_add zero_usage us =
     \<lparr>us_prompt = wrap64 (sum_list (map us_prompt us)),
      us_completion = wrap64 (sum_list (map us_completion us)),
      us_total = wrap64 (sum_list (map us_total us)),
      us_cache_creation = wrap64 (sum_list (map us_cache_creation us)),
      us_cache_read = wrap64 (sum_list (map us_cache_read us))\<rparr>"
  by (simp add: usage_add_sums zero_usage_def wrap64_def)

text \<open>
  the request's reasoning effort wins over the client's when it is set; an unknown
  effort, from either, is an ErrInvalidRequest error naming it, and any other is returned.
\<close>

theorem effective_effort_spec:
  "effective_effort r c =
     (case if req_effort r \<noteq> EffortDefault then req_effort r else c of
        EffortOther s \<Rightarrow> Inl \<lparr>pe_err = ErrInvalidRequest, pe_status = 0,
             pe_message = ''unknown reasoning effort '' @ go_quote s, pe_provider = []\<rparr>
      | e \<Rightarrow> Inr e)"
proof -
  define e where "e = (if req_effort r = EffortDefault then c else req_effort r)"
  have "(if req_effort r \<noteq> EffortDefault then req_effort r else c) = e" by (simp add: e_def)
  moreover have "effective_effort r c =
      (if \<not> effort_valid e then
         Inl \<lparr>pe_err = ErrInvalidRequest, pe_status = 0,
              pe_message = ''unknown reasoning effort '' @ go_quote (effort_str e), pe_provider = []\<rparr>
       else Inr e)"
    by (simp only: effective_effort_def Let_def e_def)
  ultimately show ?thesis by (cases e) (simp_all add: effort_valid_def effort_str_def)
qed

text \<open>
  the request's prompt caching setting wins over the client's when it is set; an unknown
  setting is an ErrInvalidRequest error naming it, and an unset one resolves to off, so a
  provider only ever sees off or auto.
\<close>

theorem effective_caching_spec:
  "effective_caching r c =
     (case if req_caching r \<noteq> CachingDefault then req_caching r else c of
        CachingOther s \<Rightarrow> Inl \<lparr>pe_err = ErrInvalidRequest, pe_status = 0,
             pe_message = ''unknown prompt caching setting '' @ go_quote s, pe_provider = []\<rparr>
      | CachingAuto \<Rightarrow> Inr CachingAuto
      | _ \<Rightarrow> Inr CachingOff)"
proof -
  define p where "p = (if req_caching r = CachingDefault then c else req_caching r)"
  have "(if req_caching r \<noteq> CachingDefault then req_caching r else c) = p" by (simp add: p_def)
  moreover have "effective_caching r c =
      (if \<not> caching_valid p then
         Inl \<lparr>pe_err = ErrInvalidRequest, pe_status = 0,
              pe_message = ''unknown prompt caching setting '' @ go_quote (caching_str p), pe_provider = []\<rparr>
       else Inr (if p = CachingDefault then CachingOff else p))"
    by (simp only: effective_caching_def Let_def p_def)
  ultimately show ?thesis by (cases p) (simp_all add: caching_valid_def caching_str_def)
qed

end
