(* ===== verification/Registry.thy ===== *)
theory Registry
  imports LlmTypes "HOL-Library.List_Lexorder" "HOL-Library.Char_ord"
begin

text \<open>
  The provider registry and \<open>NewClient\<close> of \<open>llm/llm.go\<close>, the registrations of package
  \<open>llm/all\<close>, and the capability filter of \<open>ListModels\<close>. The package-level map
  \<open>providers\<close> is an association list whose order is the runtime's iteration order; the
  mutex makes each operation atomic, so each is a function of the map.
\<close>

subsection \<open>What the library relies on in a registry\<close>

text \<open>
  The contract between the provider packages, which register at import time in an order
  Go's linker decides, and the callers that list or open providers.
\<close>

locale registry =
  fixes empty :: "'r"
    and put :: "string \<Rightarrow> 'k \<Rightarrow> 'r \<Rightarrow> 'r"
    and get :: "'r \<Rightarrow> string \<Rightarrow> 'k option"
    and names :: "'r \<Rightarrow> string list"
    and ok :: "'r \<Rightarrow> bool"
  assumes ok_empty: "ok empty"
    and ok_put: "ok r \<Longrightarrow> ok (put n k r)"
    and get_empty: "get empty m = None"
    and get_put: "get (put n k r) m = (if m = n then Some k else get r m)"
    and names_set: "ok r \<Longrightarrow> set (names r) = {n. get r n \<noteq> None}"
    and names_sorted: "ok r \<Longrightarrow> sorted (names r) \<and> distinct (names r)"
begin

definition put_all :: "(string \<times> 'k) list \<Rightarrow> 'r" where
  "put_all ps = fold (\<lambda>(n, k). put n k) ps empty"

lemma put_all_snoc: "put_all (ps @ [(n, k)]) = put n k (put_all ps)"
  by (simp add: put_all_def)

lemma ok_put_all: "ok (put_all ps)"
proof (induction ps rule: rev_induct)
  case Nil
  show ?case by (simp add: put_all_def ok_empty)
next
  case (snoc p ps)
  then show ?case by (cases p) (simp add: put_all_snoc ok_put)
qed

lemma get_put_all: "get (put_all ps) n = map_of (rev ps) n"
proof (induction ps rule: rev_induct)
  case Nil
  show ?case by (simp add: put_all_def get_empty)
next
  case (snoc p ps)
  then show ?case by (cases p) (simp add: put_all_snoc get_put)
qed

lemma names_put_all: "names (put_all ps) = sorted_list_of_set (fst ` set ps)"
proof -
  have "set (names (put_all ps)) = fst ` set ps"
    by (simp add: names_set [OF ok_put_all] get_put_all map_of_eq_None_iff)
  with names_sorted [OF ok_put_all] show ?thesis
    by (metis sorted_list_of_set.idem_if_sorted_distinct)
qed

end

subsection \<open>The model\<close>

type_synonym ('o, 'c) constructor = "'o \<Rightarrow> go_error + 'c"

type_synonym ('o, 'c) providers = "(string \<times> ('o, 'c) constructor) list"

definition register_provider ::
  "string \<Rightarrow> ('o, 'c) constructor \<Rightarrow> ('o, 'c) providers \<Rightarrow> ('o, 'c) providers" where
  "register_provider name ctor ps = map_put name ctor ps"

definition registered_providers :: "('o, 'c) providers \<Rightarrow> string list" where
  "registered_providers ps = sort (map fst ps)"

definition new_client ::
  "(string \<Rightarrow> bytes option) \<Rightarrow> ('x client_options, 'c) providers \<Rightarrow> string
     \<Rightarrow> 'x client_options \<Rightarrow> go_error + 'c" where
  "new_client read_file ps provider opts =
     (if provider = [] then
        Inl (ProviderErr \<lparr>pe_err = ErrInvalidRequest, pe_status = 0,
               pe_message = ''provider name is required'', pe_provider = []\<rparr>)
      else
        (case map_of ps provider of
           None \<Rightarrow>
             Inl (ProviderErr \<lparr>pe_err = ErrInvalidRequest, pe_status = 0,
                    pe_message = ''unknown provider: '' @ provider, pe_provider = provider\<rparr>)
         | Some ctor \<Rightarrow> ctor (with_defaults read_file opts)))"

text \<open>The names under which the packages imported by \<open>llm/all\<close> register themselves.\<close>

definition all_providers :: "string list" where
  "all_providers = [''anthropic'', ''gemini'', ''ollama'', ''openai'', ''typesafe'', ''voyage'']"

interpretation reg: registry "[] :: ('o, 'c) providers" register_provider map_of
    registered_providers go_map
proof
  fix r :: "('o, 'c) providers" and n m k
  show "go_map ([] :: ('o, 'c) providers)" by simp
  show "go_map r \<Longrightarrow> go_map (register_provider n k r)" by (simp add: register_provider_def)
  show "map_of ([] :: ('o, 'c) providers) m = None" by simp
  show "map_of (register_provider n k r) m = (if m = n then Some k else map_of r m)"
    by (simp add: register_provider_def)
  show "set (registered_providers r) = {n. map_of r n \<noteq> None}"
    by (auto simp: registered_providers_def map_of_eq_None_iff)
  show "go_map r \<Longrightarrow> sorted (registered_providers r) \<and> distinct (registered_providers r)"
    by (simp add: registered_providers_def go_map_def)
qed

definition register_all :: "(string \<times> ('o, 'c) constructor) list \<Rightarrow> ('o, 'c) providers" where
  "register_all ps = fold (\<lambda>(n, k). register_provider n k) ps []"

lemma register_all_eq: "register_all = reg.put_all"
  by (simp add: fun_eq_iff register_all_def reg.put_all_def)

text \<open>
  RegisteredProviders after any series of registrations: the names in alphabetical
  order, each once, whatever order the packages were initialised in and however often a
  name was registered.
\<close>

theorem registered_after: "registered_providers (register_all ps) = sorted_list_of_set (fst ` set ps)"
  unfolding register_all_eq by (rule reg.names_put_all)

text \<open>
  NewClient on every branch. An empty or unregistered name is a provider error wrapping
  ErrInvalidRequest, carrying the name; otherwise the constructor registered last under
  that name is called, on the options with their defaults applied.
\<close>

theorem new_client_after:
  "new_client read_file (register_all ps) name opts =
     (if name = [] then
        Inl (ProviderErr \<lparr>pe_err = ErrInvalidRequest, pe_status = 0,
               pe_message = ''provider name is required'', pe_provider = []\<rparr>)
      else if name \<notin> fst ` set ps then
        Inl (ProviderErr \<lparr>pe_err = ErrInvalidRequest, pe_status = 0,
               pe_message = ''unknown provider: '' @ name, pe_provider = name\<rparr>)
      else the (map_of (rev ps) name) (with_defaults read_file opts))"
proof -
  have "map_of (register_all ps) name = map_of (rev ps) name"
    unfolding register_all_eq by (rule reg.get_put_all)
  moreover have "map_of (rev ps) name = None \<longleftrightarrow> name \<notin> fst ` set ps"
    by (simp add: map_of_eq_None_iff)
  ultimately show ?thesis by (auto simp: new_client_def)
qed

subsection \<open>Model discovery\<close>

datatype capability =
    CapChat
  | CapTools
  | CapVision
  | CapEmbeddings
  | CapJSONMode
  | CapStreaming
  | CapMultimodalEmbeddings
  | CapReranking
  | CapDecisions
  | CapOther string

record model_info =
  mi_id :: string
  mi_context :: int
  mi_max_output :: int
  mi_dimensions :: int
  mi_caps :: "capability list"
  mi_deprecated :: bool

text \<open>The inner loop of \<open>hasAllCapabilities\<close>, with its break.\<close>

fun has_capability :: "capability list \<Rightarrow> capability \<Rightarrow> bool" where
  "has_capability [] w = False"
| "has_capability (h # hs) w = (if h = w then True else has_capability hs w)"

fun has_all_capabilities :: "capability list \<Rightarrow> capability list \<Rightarrow> bool" where
  "has_all_capabilities have_caps [] = True"
| "has_all_capabilities have_caps (w # ws) =
     (if \<not> has_capability have_caps w then False else has_all_capabilities have_caps ws)"

definition filter_model_infos :: "model_info list \<Rightarrow> capability list \<Rightarrow> model_info list" where
  "filter_model_infos infos caps =
     (if caps = [] then infos
      else filter (\<lambda>i. has_all_capabilities (mi_caps i) caps) infos)"

text \<open>\<open>WithCapabilities\<close>: an option appends to the configuration; options accumulate.\<close>

definition with_capabilities :: "capability list \<Rightarrow> capability list \<Rightarrow> capability list" where
  "with_capabilities caps cfg = cfg @ caps"

definition list_models_config :: "capability list option list \<Rightarrow> capability list" where
  "list_models_config opts =
     foldl (\<lambda>cfg opt. case opt of None \<Rightarrow> cfg | Some caps \<Rightarrow> with_capabilities caps cfg) [] opts"

lemma has_capability_iff: "has_capability cs w \<longleftrightarrow> w \<in> set cs"
  by (induction cs) auto

lemma has_all_capabilities_iff: "has_all_capabilities cs ws \<longleftrightarrow> set ws \<subseteq> set cs"
  by (induction ws) (auto simp: has_capability_iff)

lemma list_models_config_set:
  "set (list_models_config opts) = (\<Union>o1 \<in> set opts. case o1 of None \<Rightarrow> {} | Some caps \<Rightarrow> set caps)"
proof -
  have "set (foldl (\<lambda>cfg opt. case opt of None \<Rightarrow> cfg | Some caps \<Rightarrow> with_capabilities caps cfg) c opts)
      = set c \<union> (\<Union>o1 \<in> set opts. case o1 of None \<Rightarrow> {} | Some caps \<Rightarrow> set caps)" for c
    by (induction opts arbitrary: c) (auto simp: with_capabilities_def split: option.splits)
  then show ?thesis by (simp add: list_models_config_def)
qed

text \<open>
  The capability filter of ListModels, under any list of options (nil ones are skipped):
  the models whose capabilities include every requested one, in the provider's order.
\<close>

theorem filter_models_spec:
  "filter_model_infos infos (list_models_config opts) =
     filter (\<lambda>i. (\<Union>o1 \<in> set opts. case o1 of None \<Rightarrow> {} | Some caps \<Rightarrow> set caps) \<subseteq> set (mi_caps i)) infos"
proof -
  have "list_models_config opts = [] \<Longrightarrow>
      (\<Union>o1 \<in> set opts. case o1 of None \<Rightarrow> {} | Some caps \<Rightarrow> set caps) = {}"
    using list_models_config_set [of opts] by simp
  then show ?thesis
    by (auto simp: filter_model_infos_def has_all_capabilities_iff list_models_config_set)
qed

end
