(* ===== verification/Decision.thy ===== *)
theory Decision
  imports LlmTypes
begin

text \<open>
  Decision requests and their validation (\<open>llm/decision.go\<close>). The \<open>seen\<close> and \<open>values\<close>
  maps of the loops, used as sets, are the sets threaded through the recursions, and
  the loop index is the \<open>nat\<close> argument. Probabilities are carried as bit patterns.
\<close>

datatype decision_kind = DecisionYesNo | DecisionChoice | DecisionScore | DecisionOther string

definition decision_kind_str :: "decision_kind \<Rightarrow> string" where
  "decision_kind_str k =
     (case k of
        DecisionYesNo \<Rightarrow> ''yes_no''
      | DecisionChoice \<Rightarrow> ''choice''
      | DecisionScore \<Rightarrow> ''score''
      | DecisionOther s \<Rightarrow> s)"

definition max_decision_choices :: nat where
  "max_decision_choices = 255"

record decision_option =
  do_value :: string
  do_description :: string

record decision_question =
  dq_name :: string
  dq_kind :: decision_kind
  dq_instructions :: string
  dq_options :: "decision_option list"

record decision_request =
  dr_model :: string
  dr_input :: string
  dr_images :: "image_content list"
  dr_questions :: "decision_question list"

record option_probability =
  op_value :: string
  op_probability :: f64

record decision_answer =
  da_name :: string
  da_kind :: decision_kind
  da_refused :: bool
  da_probability :: f64
  da_choice :: string
  da_score :: f64
  da_confidence :: f64
  da_probabilities :: "option_probability list"

record decision_response =
  ds_answers :: "decision_answer list"
  ds_model :: string
  ds_usage :: token_usage

text \<open>\<open>DecisionResponse.Answer\<close>; the receiver may be nil.\<close>

definition answer :: "decision_response option \<Rightarrow> string \<Rightarrow> decision_answer option" where
  "answer r name =
     (case r of None \<Rightarrow> None | Some d \<Rightarrow> find (\<lambda>a. da_name a = name) (ds_answers d))"

definition invalid_decision :: "string \<Rightarrow> provider_error" where
  "invalid_decision msg =
     \<lparr>pe_err = ErrInvalidRequest, pe_status = 0, pe_message = msg, pe_provider = []\<rparr>"

subsection \<open>Validation\<close>

text \<open>\<open>None\<close> is a nil error.\<close>

fun validate_values :: "string \<Rightarrow> string set \<Rightarrow> decision_option list \<Rightarrow> provider_error option" where
  "validate_values q seen [] = None"
| "validate_values q seen (d # ds) =
     (if do_value d = [] then
        Some (invalid_decision (''question '' @ go_quote q @ '' has an option with no Value''))
      else if do_value d \<in> seen then
        Some (invalid_decision (''question '' @ go_quote q @ '' has duplicate option '' @ go_quote (do_value d)))
      else validate_values q (insert (do_value d) seen) ds)"

definition validate_options :: "decision_question \<Rightarrow> provider_error option" where
  "validate_options q =
     (case dq_kind q of
        DecisionYesNo \<Rightarrow>
          if length (dq_options q) \<noteq> 0
          then Some (invalid_decision (''yes/no question '' @ go_quote (dq_name q) @ '' takes no Options''))
          else None
      | DecisionChoice \<Rightarrow>
          if length (dq_options q) < 2 \<or> max_decision_choices < length (dq_options q)
          then Some (invalid_decision (''choice question '' @ go_quote (dq_name q) @ '' needs 2 to ''
                 @ itoa (int max_decision_choices) @ '' options, got '' @ itoa (int (length (dq_options q)))))
          else validate_values (dq_name q) {} (dq_options q)
      | DecisionScore \<Rightarrow>
          if length (dq_options q) < 2
          then Some (invalid_decision (''score question '' @ go_quote (dq_name q)
                 @ '' needs at least 2 levels, got '' @ itoa (int (length (dq_options q)))))
          else validate_values (dq_name q) {} (dq_options q)
      | DecisionOther k \<Rightarrow>
          Some (invalid_decision (''question '' @ go_quote (dq_name q) @ '' has unknown Kind '' @ go_quote k)))"

fun validate_images :: "nat \<Rightarrow> image_content list \<Rightarrow> provider_error option" where
  "validate_images i [] = None"
| "validate_images i (img # imgs) =
     (if (img_url img = []) = (length (img_data img) = 0) then
        Some (invalid_decision (''image '' @ itoa (int i) @ '' must set exactly one of URL or Data''))
      else if 0 < length (img_data img) \<and> img_media_type img = [] then
        Some (invalid_decision (''image '' @ itoa (int i) @ '' has Data but no MediaType''))
      else validate_images (Suc i) imgs)"

fun validate_questions :: "nat \<Rightarrow> string set \<Rightarrow> decision_question list \<Rightarrow> provider_error option" where
  "validate_questions i seen [] = None"
| "validate_questions i seen (q # qs) =
     (if dq_name q = [] then Some (invalid_decision (''question '' @ itoa (int i) @ '' has no Name''))
      else if dq_name q \<in> seen then
        Some (invalid_decision (''duplicate question name '' @ go_quote (dq_name q)))
      else if dq_instructions q = [] then
        Some (invalid_decision (''question '' @ go_quote (dq_name q) @ '' has no Instructions''))
      else
        (case validate_options q of
           Some e \<Rightarrow> Some e
         | None \<Rightarrow> validate_questions (Suc i) (insert (dq_name q) seen) qs))"

definition validate_decision :: "decision_request \<Rightarrow> provider_error option" where
  "validate_decision r =
     (if dr_input r = [] \<and> length (dr_images r) = 0
      then Some (invalid_decision ''decision request needs Input or Images'')
      else
        (case validate_images 0 (dr_images r) of
           Some e \<Rightarrow> Some e
         | None \<Rightarrow>
             if length (dr_questions r) = 0
             then Some (invalid_decision ''decision request needs at least one question'')
             else validate_questions 0 {} (dr_questions r)))"

subsection \<open>What an accepted request satisfies\<close>

definition options_ok :: "decision_question \<Rightarrow> bool" where
  "options_ok q =
     (case dq_kind q of
        DecisionYesNo \<Rightarrow> dq_options q = []
      | DecisionChoice \<Rightarrow> 2 \<le> length (dq_options q) \<and> length (dq_options q) \<le> 255
          \<and> distinct (map do_value (dq_options q)) \<and> [] \<notin> do_value ` set (dq_options q)
      | DecisionScore \<Rightarrow> 2 \<le> length (dq_options q)
          \<and> distinct (map do_value (dq_options q)) \<and> [] \<notin> do_value ` set (dq_options q)
      | DecisionOther k \<Rightarrow> False)"

definition image_ok :: "image_content \<Rightarrow> bool" where
  "image_ok i = ((img_url i \<noteq> [] \<and> img_data i = [])
                  \<or> (img_url i = [] \<and> img_data i \<noteq> [] \<and> img_media_type i \<noteq> []))"

definition decision_ok :: "decision_request \<Rightarrow> bool" where
  "decision_ok r \<longleftrightarrow>
     (dr_input r \<noteq> [] \<or> dr_images r \<noteq> []) \<and> list_all image_ok (dr_images r) \<and>
     dr_questions r \<noteq> [] \<and> distinct (map dq_name (dr_questions r)) \<and>
     list_all (\<lambda>q. dq_name q \<noteq> [] \<and> dq_instructions q \<noteq> [] \<and> options_ok q) (dr_questions r)"

lemma validate_values_None:
  "validate_values q seen ds = None \<longleftrightarrow>
     distinct (map do_value ds) \<and> [] \<notin> do_value ` set ds \<and> do_value ` set ds \<inter> seen = {}"
  by (induction ds arbitrary: seen) auto

lemma validate_options_None: "validate_options q = None \<longleftrightarrow> options_ok q"
  by (cases "dq_kind q")
     (auto simp: validate_options_def options_ok_def validate_values_None max_decision_choices_def)

lemma validate_images_None: "validate_images i imgs = None \<longleftrightarrow> list_all image_ok imgs"
  by (induction imgs arbitrary: i) (auto simp: image_ok_def)

lemma validate_questions_None:
  "validate_questions i seen qs = None \<longleftrightarrow>
     distinct (map dq_name qs) \<and> dq_name ` set qs \<inter> seen = {} \<and>
     list_all (\<lambda>q. dq_name q \<noteq> [] \<and> dq_instructions q \<noteq> [] \<and> options_ok q) qs"
  by (induction qs arbitrary: i seen) (auto simp: validate_options_None)

lemma validate_values_err: "validate_values q seen ds = Some e \<Longrightarrow> \<exists>m. e = invalid_decision m"
  by (induction ds arbitrary: seen) (auto split: if_splits)

lemma validate_options_err: "validate_options q = Some e \<Longrightarrow> \<exists>m. e = invalid_decision m"
  by (auto simp: validate_options_def dest: validate_values_err split: decision_kind.splits if_splits)

lemma validate_images_err: "validate_images i imgs = Some e \<Longrightarrow> \<exists>m. e = invalid_decision m"
  by (induction imgs arbitrary: i) (auto split: if_splits)

lemma validate_questions_err: "validate_questions i seen qs = Some e \<Longrightarrow> \<exists>m. e = invalid_decision m"
  by (induction qs arbitrary: i seen) (auto dest: validate_options_err split: if_splits)

lemma validate_decision_None: "validate_decision r = None \<longleftrightarrow> decision_ok r"
  by (auto simp: validate_decision_def decision_ok_def validate_images_None validate_questions_None)

lemmas validate_errs = validate_images_err validate_questions_err

text \<open>
  Validate accepts a decision request exactly when it has input, each image has exactly one
  source (and data has a media type), the questions are named, distinct and instructed, and
  each question's options fit its kind, without empty or duplicate values. Any refusal is a
  provider error wrapping ErrInvalidRequest, with no status.
\<close>

theorem validate_decision_spec:
  "case validate_decision r of
     None \<Rightarrow> decision_ok r
   | Some e \<Rightarrow> \<not> decision_ok r \<and> pe_err e = ErrInvalidRequest \<and> pe_status e = 0 \<and> pe_provider e = []"
proof -
  have "validate_decision r = Some e \<Longrightarrow> \<exists>m. e = invalid_decision m" for e
    by (auto simp: validate_decision_def dest: validate_errs split: if_splits)
  then show ?thesis by (auto simp: invalid_decision_def validate_decision_None [symmetric] split: option.split)
qed

end
