(* ===== verification/Halfvec.thy ===== *)
theory Halfvec
  imports Main "HOL-Library.Word"
begin

text \<open>
  Half-precision encoding and resizing of embedding vectors (\<open>llm/vec/vec.go\<close>). A
  \<open>float32\<close> is its 32-bit pattern, which is what \<open>math.Float32bits\<close> returns, and a
  half-precision number its 16-bit pattern; the arithmetic is on the words, as in the
  code. The two functions of the file that do floating-point arithmetic, \<open>Normalize\<close> and
  \<open>Float64ToFloat32\<close>, are modelled in \<open>Vec\<close>.
\<close>

unbundle bit_operations_syntax

type_synonym f32 = "32 word"
type_synonym f16 = "16 word"

text \<open>\<open>int32\<close> arithmetic on the exponent stays far from its bounds, so it is an \<open>int\<close>.\<close>

definition f32_exp :: "f32 \<Rightarrow> f32" where
  "f32_exp b = drop_bit 23 b AND 0xFF"

definition f32_mant :: "f32 \<Rightarrow> f32" where
  "f32_mant b = b AND 0x7FFFFF"

definition f32_sign :: "f32 \<Rightarrow> f16" where
  "f32_sign b = ucast (drop_bit 16 b AND 0x8000)"

definition subnormal_half :: "f32 \<Rightarrow> int \<Rightarrow> f16" where
  "subnormal_half m e =
     (let mant = m OR 0x800000;
          shift = nat (14 - e);
          half = ucast (drop_bit shift mant) :: f16;
          round_bit = (mant AND push_bit (shift - 1) 1 \<noteq> 0);
          sticky = (mant AND (push_bit (shift - 1) 1 - 1) \<noteq> 0)
      in if round_bit \<and> (sticky \<or> half AND 1 \<noteq> 0) then half + 1 else half)"

definition float32_to_float16_bits :: "f32 \<Rightarrow> f16" where
  "float32_to_float16_bits b =
     (let sign = f32_sign b;
          ex = uint (f32_exp b) - 127 + 15;
          mant = f32_mant b
      in if f32_exp b = 0xFF then
           (if mant = 0 then sign OR 0x7C00
            else sign OR 0x7C00 OR ucast (drop_bit 13 mant) OR 1)
         else if 31 \<le> ex then sign OR 0x7C00
         else if ex \<le> 0 then
           (if ex < -10 then sign else sign OR subnormal_half mant ex)
         else
           (let half = sign OR ucast (push_bit 10 (word_of_int ex :: 32 word)) OR ucast (drop_bit 13 mant);
                round_bit = (mant AND 0x1000 \<noteq> 0);
                sticky = (mant AND 0x0FFF \<noteq> 0)
            in if round_bit \<and> (sticky \<or> half AND 1 \<noteq> 0) then half + 1 else half))"

text \<open>A nil slice is \<open>None\<close>.\<close>

definition float32_to_float16 :: "f32 list option \<Rightarrow> f16 list option" where
  "float32_to_float16 v = map_option (map float32_to_float16_bits) v"

text \<open>\<open>make\<close> and \<open>copy\<close>: zeros, overwritten by the first elements of \<open>v\<close>. A negative
  length makes \<open>make\<close> panic, which is \<open>None\<close> here.\<close>

definition resize :: "f32 list option \<Rightarrow> int \<Rightarrow> f32 list option" where
  "resize v n =
     (if n < 0 then None
      else let src = (case v of None \<Rightarrow> [] | Some xs \<Rightarrow> xs);
               out = replicate (nat n) 0;
               k = min (length src) (nat n)
           in Some (take k src @ drop k out))"

subsection \<open>The arithmetic a conversion should do\<close>

text \<open>
  \<open>round_half_even n d\<close> is the quotient rounded to the nearest integer, ties to even. A
  float32 with exponent field \<open>e\<close> and mantissa field \<open>m\<close> is \<open>2^23 + m\<close> units of
  \<open>2^(e-150)\<close> when \<open>e > 0\<close>; a half-precision number counts units of \<open>2^(-24)\<close> below \<open>2^(-14)\<close>
  and has a mantissa of ten bits above, and consecutive 15-bit patterns are consecutive
  numbers, so rounding up carries from the mantissa into the exponent, and past the largest
  finite number into infinity (\<open>31 * 1024\<close>).
\<close>

definition round_half_even :: "nat \<Rightarrow> nat \<Rightarrow> nat" where
  "round_half_even n d =
     n div d + (if d < 2 * (n mod d) \<or> (2 * (n mod d) = d \<and> odd (n div d)) then 1 else 0)"

definition half_magnitude :: "nat \<Rightarrow> nat \<Rightarrow> nat" where
  "half_magnitude e m =
     (if e = 255 then (if m = 0 then 31744 else 31744 + (m div 8192 OR 1))
      else if 143 \<le> e then 31744
      else if e \<le> 112 then
        (if e < 102 then 0 else round_half_even (2 ^ 23 + m) (2 ^ (126 - e)))
      else round_half_even ((e - 112) * 2 ^ 23 + m) (2 ^ 13))"

definition sign_value :: "f32 \<Rightarrow> nat" where
  "sign_value b = (if bit b 31 then 32768 else 0)"

subsection \<open>Words as numbers\<close>

lemma nat_and_low: "(n::nat) AND (2 ^ k - 1) = n mod 2 ^ k"
  by (metis mask_eq_exp_minus_1 take_bit_eq_mask take_bit_eq_mod)

lemma unat_and: "unat (a AND b :: 'a::len word) = unat a AND unat b"
  by (simp add: unsigned_and_eq)

lemma unat_or: "unat (a OR b :: 'a::len word) = unat a OR unat b"
  by (simp add: unsigned_or_eq)

lemma unat_drop: "unat (drop_bit k (a :: 'a::len word)) = unat a div 2 ^ k"
  by (subst unat_drop_bit_eq) (rule drop_bit_eq_div)

lemma unat_ucast: "unat (ucast (a :: 'a::len word) :: 'b::len word) = unat a mod 2 ^ LENGTH('b)"
  by (simp add: unsigned_ucast_eq take_bit_eq_mod)

lemma unat_f32_exp: "unat (f32_exp b) = unat b div 2 ^ 23 mod 256"
proof -
  have "unat (f32_exp b) = unat b div 2 ^ 23 AND (2 ^ 8 - 1)" by (simp add: f32_exp_def unat_and unat_drop)
  then show ?thesis by (simp only: nat_and_low) simp
qed

lemma unat_f32_mant: "unat (f32_mant b) = unat b mod 2 ^ 23"
proof -
  have "unat (f32_mant b) = unat b AND (2 ^ 23 - 1)" by (simp add: f32_mant_def unat_and)
  then show ?thesis by (simp only: nat_and_low)
qed

text \<open>Adding disjoint parts.\<close>

lemma or_add: "y < 2 ^ k \<Longrightarrow> (x * 2 ^ k :: nat) OR y = x * 2 ^ k + y"
proof -
  assume "y < 2 ^ k"
  then have t: "take_bit k y = y" by (simp add: take_bit_nat_eq_self_iff)
  have z: "push_bit k x AND y = 0"
    by (subst t [symmetric]) (auto intro!: bit_eqI simp: bit_simps)
  have "push_bit k x OR y = push_bit k x + y"
    using z by (simp add: disjunctive_add_eq_or)
  then show ?thesis by (simp add: push_bit_eq_mult)
qed

lemma and_exp: "(x :: 'a::len word) AND 2 ^ n = (if bit x n then 2 ^ n else 0)"
  by (rule bit_word_eqI) (auto simp: bit_simps)

lemma f32_sign_cases: "f32_sign b = (if bit b 31 then 0x8000 else 0)"
  using and_exp [of "drop_bit 16 b" 15] by (simp add: f32_sign_def bit_simps)

lemma and_exp_ne_0: "((x :: 'a::len word) AND 2 ^ n \<noteq> 0) \<longleftrightarrow> bit x n"
  by (cases "n < LENGTH('a)") (auto simp: and_exp bit_word.rep_eq dest: bit_imp_le_length)

lemma sticky_iff: "((x :: 'a::len word) AND (2 ^ k - 1) \<noteq> 0) \<longleftrightarrow> unat x mod 2 ^ k \<noteq> 0"
proof -
  have "x AND (2 ^ k - 1) = take_bit k x" by (simp add: take_bit_eq_mask mask_eq_exp_minus_1)
  moreover have "unat (take_bit k x) = unat x mod 2 ^ k"
    by (subst unsigned_take_bit_eq) (rule take_bit_eq_mod)
  moreover have "take_bit k x \<noteq> 0 \<longleftrightarrow> unat (take_bit k x) \<noteq> 0" by (simp add: unat_eq_0)
  ultimately show ?thesis by simp
qed

lemma bit_unat: "bit (x :: 'a::len word) k \<longleftrightarrow> odd (unat x div 2 ^ k)"
proof -
  have "bit (unat x) k \<longleftrightarrow> bit x k" by (auto simp: bit_unsigned_iff)
  then show ?thesis by (simp add: bit_nat_def)
qed

lemma round_iff:
  "(odd (n div 2 ^ k) \<and> (n mod 2 ^ k \<noteq> 0 \<or> P)) \<longleftrightarrow>
     (2 ^ Suc k < 2 * (n mod 2 ^ Suc k) \<or> (2 * (n mod 2 ^ Suc k) = 2 ^ Suc k \<and> P))"
  for n k :: nat
proof -
  define p where "p = (2::nat) ^ k"
  have split: "n mod (2 * p) = p * (n div p mod 2) + n mod p"
    unfolding p_def by (metis mod_mult2_eq mult.commute)
  have small: "n mod p < p" by (simp add: p_def)
  show ?thesis
  proof (cases "even (n div p)")
    case True
    with split small have "n mod (2 * p) < p" by simp
    with True show ?thesis by (simp flip: p_def)
  next
    case False
    then have "n div p mod 2 = 1" by (simp add: odd_iff_mod_2_eq_one)
    with split have "n mod (2 * p) = p + n mod p" by simp
    with False show ?thesis by (auto simp flip: p_def)
  qed
qed

lemma sign_or: "unat x < 2 ^ 15 \<Longrightarrow> unat (f32_sign b OR x) = sign_value b + unat x"
  using or_add [of "unat x" 15 1] by (auto simp: f32_sign_cases sign_value_def unat_or)

lemma odd_half: "(h AND 1 \<noteq> 0) \<longleftrightarrow> odd (unat h)" for h :: f16
  using and_exp_ne_0 [of h 0] by (simp add: bit_unat)

lemma unat_incr: "unat h < 65535 \<Longrightarrow> unat (h + 1) = unat h + 1" for h :: f16
  by (simp add: unat_word_ariths)

text \<open>The increment of both rounding branches, on the natural numbers.\<close>

lemma round_word:
  fixes m :: f32 and h :: f16
  assumes "even (unat h) \<longleftrightarrow> even (unat m div 2 ^ Suc k)" and "unat h < 65535"
  shows "unat (if (m AND 2 ^ k \<noteq> 0) \<and> ((m AND (2 ^ k - 1) \<noteq> 0) \<or> h AND 1 \<noteq> 0) then h + 1 else h)
     = unat h + (round_half_even (unat m) (2 ^ Suc k) - unat m div 2 ^ Suc k)"
proof -
  have "((m AND 2 ^ k \<noteq> 0) \<and> ((m AND (2 ^ k - 1) \<noteq> 0) \<or> h AND 1 \<noteq> 0)) \<longleftrightarrow>
      (odd (unat m div 2 ^ k) \<and> (unat m mod 2 ^ k \<noteq> 0 \<or> odd (unat m div 2 ^ Suc k)))"
    using assms(1) by (simp only: and_exp_ne_0 sticky_iff odd_half bit_unat)
  also have "\<dots> \<longleftrightarrow> (2 ^ Suc k < 2 * (unat m mod 2 ^ Suc k) \<or>
      (2 * (unat m mod 2 ^ Suc k) = 2 ^ Suc k \<and> odd (unat m div 2 ^ Suc k)))"
    by (rule round_iff)
  finally show ?thesis
    using unat_incr [OF assms(2)] by (simp add: round_half_even_def)
qed

lemma unat_subnormal_half:
  assumes "102 \<le> e" and "e \<le> 112"
  shows "unat (subnormal_half (f32_mant b) (int e - 112)) = round_half_even (2 ^ 23 + unat (f32_mant b)) (2 ^ (126 - e))"
proof -
  define m where "m = f32_mant b OR 0x800000"
  define k where "k = 125 - e"
  have k: "126 - e = Suc k" "13 \<le> k" and shift: "nat (14 - (int e - 112)) = Suc k"
    using assms by (auto simp: k_def)
  have small: "unat (f32_mant b) < 2 ^ 23" by (simp add: unat_f32_mant)
  have um: "unat m = 2 ^ 23 + unat (f32_mant b)"
    using or_add [OF small, of 1] by (simp add: m_def unat_or or.commute)
  define h where "h = (ucast (drop_bit (Suc k) m) :: f16)"
  have small: "unat m div 2 ^ Suc k < 1024"
  proof -
    have "(2::nat) ^ 14 \<le> 2 ^ Suc k" using k(2) by (intro power_increasing) auto
    then have "unat m div 2 ^ Suc k \<le> unat m div 2 ^ 14" by (intro div_le_mono2) auto
    also have "\<dots> < 1024" using small um by (simp add: less_mult_imp_div_less)
    finally show ?thesis .
  qed
  have uh: "unat h = unat m div 2 ^ Suc k"
    using small by (simp only: h_def unat_ucast unat_drop) simp
  with small have h: "unat h = unat m div 2 ^ Suc k" "unat h < 65535" by simp_all
  then have "unat (if (m AND 2 ^ k \<noteq> 0) \<and> ((m AND (2 ^ k - 1) \<noteq> 0) \<or> h AND 1 \<noteq> 0) then h + 1 else h)
      = unat m div 2 ^ Suc k + (round_half_even (unat m) (2 ^ Suc k) - unat m div 2 ^ Suc k)"
    by (simp only: round_word)
  also have "\<dots> = round_half_even (unat m) (2 ^ Suc k)" by (simp add: round_half_even_def)
  finally have "unat (if (m AND 2 ^ k \<noteq> 0) \<and> ((m AND (2 ^ k - 1) \<noteq> 0) \<or> h AND 1 \<noteq> 0) then h + 1 else h)
      = round_half_even (unat m) (2 ^ Suc k)" .
  moreover have "subnormal_half (f32_mant b) (int e - 112)
      = (if (m AND 2 ^ k \<noteq> 0) \<and> ((m AND (2 ^ k - 1) \<noteq> 0) \<or> h AND 1 \<noteq> 0) then h + 1 else h)"
    unfolding subnormal_half_def Let_def shift diff_Suc_1 push_bit_of_1 m_def h_def by (rule refl)
  ultimately show ?thesis by (simp only: k(1) um)
qed

lemma unat_of_nat_small: "n < 2 ^ 32 \<Longrightarrow> unat (word_of_nat n :: 32 word) = n"
  by (simp add: unsigned_of_nat take_bit_nat_eq_self)

lemma exponent_field:
  fixes w :: "32 word"
  assumes "unat w < 31"
  shows "unat (ucast (push_bit 10 w) :: f16) = unat w * 2 ^ 10"
  using assms by (simp add: unat_ucast push_bit_eq_mult unat_word_ariths)

lemma unat_normal_half:
  fixes b :: f32 and e :: nat
  assumes "112 < e" and "e < 143"
  defines "h \<equiv> f32_sign b OR ucast (push_bit 10 (word_of_int (int e - 112) :: 32 word)) OR ucast (drop_bit 13 (f32_mant b)) :: f16"
  shows "unat h = sign_value b + ((e - 112) * 2 ^ 10 + unat (f32_mant b) div 2 ^ 13)"
proof -
  define m where "m = unat (f32_mant b) div 2 ^ 13"
  have "unat (f32_mant b) < 2 ^ 23" by (simp add: unat_f32_mant)
  then have m: "m < 2 ^ 10" by (simp add: m_def less_mult_imp_div_less)
  have "int e - 112 = int (e - 112)" using assms by simp
  then have w: "(word_of_int (int e - 112) :: 32 word) = word_of_nat (e - 112)"
    by (simp only: of_int_of_nat_eq)
  have "unat (word_of_int (int e - 112) :: 32 word) = e - 112"
    unfolding w by (rule unat_of_nat_small) (use assms in simp)
  then have x: "unat (ucast (push_bit 10 (word_of_int (int e - 112) :: 32 word)) :: f16) = (e - 112) * 2 ^ 10"
    using exponent_field [of "word_of_int (int e - 112)"] assms(1,2) by simp
  have y: "unat (ucast (drop_bit 13 (f32_mant b)) :: f16) = m"
    using m by (simp only: unat_ucast unat_drop flip: m_def) simp
  have xy: "unat (ucast (push_bit 10 (word_of_int (int e - 112) :: 32 word)) OR ucast (drop_bit 13 (f32_mant b)) :: f16)
      = (e - 112) * 2 ^ 10 + m"
    using or_add [OF m] by (simp only: unat_or x y)
  moreover have "(e - 112) * 2 ^ 10 + m < 2 ^ 15"
    using assms(1,2) m by simp
  ultimately show ?thesis
    unfolding h_def by (simp only: or.assoc sign_or m_def)
qed

lemma or_one_small: "(x::nat) < 1024 \<Longrightarrow> (x OR 1) < 1024"
  unfolding or_one_eq by (cases "even x") (auto elim!: evenE)

lemma round_half_even_le: "round_half_even n d \<le> n div d + 1"
  by (simp add: round_half_even_def)

lemma round_half_even_add:
  assumes "0 < d"
  shows "round_half_even (k * (2 * d) + n) d = k * 2 + round_half_even n d"
proof -
  have shift: "k * (2 * d) + n = n + (k * 2) * d" by simp
  have q: "(k * (2 * d) + n) div d = k * 2 + n div d"
    unfolding shift using assms by (intro div_mult_self1) simp
  have r: "(k * (2 * d) + n) mod d = n mod d"
    unfolding shift by (rule mod_mult_self1)
  show ?thesis unfolding round_half_even_def q r by simp
qed

lemma round_half_even_shift:
  "round_half_even (k * 2 ^ 23 + m) (2 ^ 13) = k * 2 ^ 10 + round_half_even m (2 ^ 13)"
  using round_half_even_add [of "2 ^ 13" "k * 2 ^ 9" m] by (simp add: mult.assoc)

text \<open>
  C15: for every 32-bit pattern, float32ToFloat16Bits returns the sign bit and the magnitude
  that the definition of half precision asks for: NaN stays NaN, overflow is infinity, and
  normal and subnormal results are the exact value rounded half to even, with the carry into
  the exponent.
\<close>

theorem float32_to_float16_spec:
  "unat (float32_to_float16_bits b) =
     sign_value b + half_magnitude (unat b div 2 ^ 23 mod 256) (unat b mod 2 ^ 23)"
proof -
  define e where "e = unat b div 2 ^ 23 mod 256"
  define m where "m = unat b mod 2 ^ 23"
  have "uint (f32_exp b) = int (unat (f32_exp b))" by simp
  then have e: "uint (f32_exp b) = int e" by (simp only: unat_f32_exp e_def)
  have m: "unat (f32_mant b) = m" by (simp add: unat_f32_mant m_def)
  have top: "f32_exp b = 0xFF \<longleftrightarrow> e = 255"
    by (simp only: word_unat_eq_iff unat_f32_exp e_def) simp
  have zero: "f32_mant b = 0 \<longleftrightarrow> m = 0" using m by (simp only: word_unat_eq_iff) simp
  have msmall: "m < 2 ^ 23" by (simp add: m_def)
  consider (nan) "e = 255" | (inf) "e \<noteq> 255" "143 \<le> e" | (tiny) "e < 102"
    | (sub) "102 \<le> e" "e \<le> 112" | (normal) "112 < e" "e < 143"
    by linarith
  then have "unat (float32_to_float16_bits b) = sign_value b + half_magnitude e m"
  proof cases
    case nan
    have dm: "unat (drop_bit 13 (f32_mant b)) = m div 2 ^ 13" by (simp only: unat_drop m)
    have small: "m div 2 ^ 13 < 2 ^ 10" using msmall by (simp add: less_mult_imp_div_less)
    have u: "unat (ucast (drop_bit 13 (f32_mant b)) OR 1 :: f16) = (m div 2 ^ 13 OR 1)"
      using small by (simp add: unat_or unat_ucast dm)
    have or1: "(m div 2 ^ 13 OR 1) < 2 ^ 10" using or_one_small [of "m div 2 ^ 13"] small by simp
    have "unat (0x7C00 OR (ucast (drop_bit 13 (f32_mant b)) OR 1) :: f16) = 31744 + (m div 2 ^ 13 OR 1)"
      using or_add [OF or1, of 31] by (simp only: unat_or [of "0x7C00"] u) simp
    moreover have "31744 + (m div 2 ^ 13 OR 1) < (2::nat) ^ 15" using or1 by simp
    ultimately have "unat (f32_sign b OR (0x7C00 OR (ucast (drop_bit 13 (f32_mant b)) OR 1)))
        = sign_value b + (31744 + (m div 2 ^ 13 OR 1))"
      by (simp only: sign_or)
    with nan top zero show ?thesis
      by (simp only: float32_to_float16_bits_def half_magnitude_def Let_def or.assoc if_True)
         (simp add: sign_or)
  next
    case inf
    with e top show ?thesis
      by (simp add: float32_to_float16_bits_def half_magnitude_def Let_def sign_or)
  next
    case tiny
    with e top show ?thesis
      by (simp add: float32_to_float16_bits_def half_magnitude_def Let_def f32_sign_cases sign_value_def)
  next
    case sub
    have u: "unat (subnormal_half (f32_mant b) (int e - 112)) = round_half_even (2 ^ 23 + m) (2 ^ (126 - e))"
      using unat_subnormal_half [OF sub] m by simp
    have "(2::nat) ^ 14 \<le> 2 ^ (126 - e)" using sub by (intro power_increasing) auto
    then have "(2 ^ 23 + m) div 2 ^ (126 - e) \<le> (2 ^ 23 + m) div 2 ^ 14" by (intro div_le_mono2) auto
    also have "\<dots> < 2 ^ 10" using msmall by (simp add: less_mult_imp_div_less)
    finally have "round_half_even (2 ^ 23 + m) (2 ^ (126 - e)) < 2 ^ 15"
      using round_half_even_le [of "2 ^ 23 + m" "2 ^ (126 - e)"] by simp
    then have "unat (f32_sign b OR subnormal_half (f32_mant b) (int e - 112))
        = sign_value b + round_half_even (2 ^ 23 + m) (2 ^ (126 - e))"
      by (simp only: sign_or u)
    with sub e top show ?thesis
      by (simp add: float32_to_float16_bits_def half_magnitude_def Let_def)
  next
    case normal
    define h where "h = (f32_sign b OR ucast (push_bit 10 (word_of_int (int e - 112) :: 32 word))
        OR ucast (drop_bit 13 (f32_mant b)) :: f16)"
    have uh: "unat h = sign_value b + ((e - 112) * 2 ^ 10 + m div 2 ^ 13)"
      unfolding h_def using unat_normal_half [OF normal, of b] by (simp only: m)
    have small: "m div 2 ^ 13 < 2 ^ 10" using msmall by (simp add: less_mult_imp_div_less)
    have "even (unat h) \<longleftrightarrow> even (unat (f32_mant b) div 2 ^ Suc 12)"
      by (simp add: uh m sign_value_def)
    moreover have "unat h < 65535"
    proof -
      have "(e - 112) * 2 ^ 10 \<le> 30 * 2 ^ 10" using normal(2) by (intro mult_le_mono1) simp
      then have "(e - 112) * 2 ^ 10 + m div 2 ^ 13 < 32767" using small by simp
      then show ?thesis by (simp add: uh sign_value_def)
    qed
    ultimately have "unat (if (f32_mant b AND 2 ^ 12 \<noteq> 0) \<and> ((f32_mant b AND (2 ^ 12 - 1) \<noteq> 0) \<or> h AND 1 \<noteq> 0)
        then h + 1 else h) = unat h + (round_half_even m (2 ^ 13) - m div 2 ^ 13)"
      by (simp only: round_word m) simp
    moreover have "(e - 112) * 2 ^ 10 + m div 2 ^ 13 + (round_half_even m (2 ^ 13) - m div 2 ^ 13)
        = round_half_even ((e - 112) * 2 ^ 23 + m) (2 ^ 13)"
    proof -
      have "m div 2 ^ 13 \<le> round_half_even m (2 ^ 13)" by (simp add: round_half_even_def)
      then show ?thesis using round_half_even_shift [of "e - 112" m] by linarith
    qed
    ultimately have "unat (if (f32_mant b AND 2 ^ 12 \<noteq> 0) \<and> ((f32_mant b AND (2 ^ 12 - 1) \<noteq> 0) \<or> h AND 1 \<noteq> 0)
        then h + 1 else h) = sign_value b + round_half_even ((e - 112) * 2 ^ 23 + m) (2 ^ 13)"
      by (simp only: uh)
    moreover have "float32_to_float16_bits b =
        (if (f32_mant b AND 2 ^ 12 \<noteq> 0) \<and> ((f32_mant b AND (2 ^ 12 - 1) \<noteq> 0) \<or> h AND 1 \<noteq> 0) then h + 1 else h)"
    proof -
      have ex: "uint (f32_exp b) - 127 + 15 = int e - 112" using e by simp
      have branch: "\<not> f32_exp b = 0xFF" "\<not> 31 \<le> int e - 112" "\<not> int e - 112 \<le> 0"
        using top normal by auto
      have exps: "(2 :: 32 word) ^ 12 = 0x1000" "(0x1000 - 1 :: 32 word) = 0x0FFF" by simp_all
      show ?thesis
        by (simp only: float32_to_float16_bits_def Let_def ex branch if_False exps flip: h_def)
    qed
    moreover have "half_magnitude e m = round_half_even ((e - 112) * 2 ^ 23 + m) (2 ^ 13)"
      using normal by (simp add: half_magnitude_def)
    ultimately show ?thesis by simp
  qed
  then show ?thesis by (simp add: e_def m_def)
qed
text \<open>
  resize panics exactly on a negative length, and otherwise returns a vector of that
  length whose element i is v's where v has one and zero elsewhere, a nil v included.
\<close>

theorem resize_spec:
  "resize v n =
     (if n < 0 then None
      else Some (map (\<lambda>i. case v of None \<Rightarrow> 0
                         | Some xs \<Rightarrow> if i < length xs then xs ! i else 0) [0..<nat n]))"
  by (cases v) (auto simp: resize_def Let_def nth_append intro!: nth_equalityI)

end
