(* ===== verification/Assembly.thy ===== *)
theory Assembly
  imports LlmTypes
begin

text \<open>
  Assembling a chat response from stream chunks (\<open>llm/stream.go\<close>): the chunk type, the
  \<open>ThinkingAccumulator\<close>, and the closures of \<open>Stream.Collect\<close> (\<open>flushText\<close>,
  \<open>flushTool\<close>, \<open>flushThinking\<close>, \<open>flushAll\<close>, \<open>accumulate\<close>) over the variables they
  share, kept in the record \<open>assembler\<close>. The reading loop that drives them is in the
  theories Collect and Sse.
\<close>

subsection \<open>Chunks\<close>

datatype chunk_type =
    ChunkText
  | ChunkToolUseStart
  | ChunkToolUseDelta
  | ChunkThinkingStart
  | ChunkThinkingDelta
  | ChunkDone
  | ChunkOther string

record chunk =
  ck_type :: chunk_type
  ck_text :: string
  ck_tool_use :: "tool_use option"
  ck_thinking :: "thinking option"
  ck_partial :: string
  ck_usage :: "token_usage option"

definition blank_chunk :: "chunk_type \<Rightarrow> chunk" where
  "blank_chunk t = \<lparr>ck_type = t, ck_text = [], ck_tool_use = None, ck_thinking = None,
     ck_partial = [], ck_usage = None\<rparr>"

subsection \<open>\<open>ThinkingAccumulator\<close>\<close>

record think_acc =
  ta_current :: "thinking option"
  ta_text :: string
  ta_signature :: string

definition think_init :: think_acc where
  "think_init = \<lparr>ta_current = None, ta_text = [], ta_signature = []\<rparr>"

definition think_flush :: "think_acc \<Rightarrow> content_block option \<times> think_acc" where
  "think_flush a =
     (case ta_current a of
        None \<Rightarrow> (None, a)
      | Some t \<Rightarrow>
          (let t' = t\<lparr>th_text := ta_text a, th_signature := ta_signature a\<rparr>;
               ty = (if th_data t' \<noteq> [] then BlockRedactedThinking else BlockThinking)
           in (Some ((blank_block ty)\<lparr>cb_thinking := Some t'\<rparr>),
               a\<lparr>ta_current := None, ta_text := [], ta_signature := []\<rparr>)))"

definition zero_thinking :: thinking where
  "zero_thinking = \<lparr>th_text = [], th_signature = [], th_data = []\<rparr>"

definition think_add :: "think_acc \<Rightarrow> chunk \<Rightarrow> content_block option \<times> think_acc" where
  "think_add a c =
     (case ck_type c of
        ChunkThinkingStart \<Rightarrow>
          (let (ended, a1) = think_flush a;
               a2 = (case ck_thinking c of
                       None \<Rightarrow> a1\<lparr>ta_current := Some zero_thinking\<rparr>
                     | Some t \<Rightarrow> a1\<lparr>ta_current := Some (zero_thinking\<lparr>th_data := th_data t\<rparr>),
                                    ta_text := ta_text a1 @ th_text t,
                                    ta_signature := ta_signature a1 @ th_signature t\<rparr>)
           in (ended, a2))
      | ChunkThinkingDelta \<Rightarrow>
          (None, (case (ta_current a, ck_thinking c) of
                    (Some _, Some t) \<Rightarrow> a\<lparr>ta_text := ta_text a @ th_text t,
                                         ta_signature := ta_signature a @ th_signature t\<rparr>
                  | _ \<Rightarrow> a))
      | _ \<Rightarrow> (None, a))"

subsection \<open>The closures of \<open>Collect\<close>\<close>

record assembler =
  as_content :: "content_block list"
  as_usage :: token_usage
  as_text :: string
  as_tool_buf :: string
  as_tool :: "tool_use option"
  as_think :: think_acc

definition asm_init :: assembler where
  "asm_init = \<lparr>as_content = [], as_usage = zero_usage, as_text = [], as_tool_buf = [],
     as_tool = None, as_think = think_init\<rparr>"

definition flush_text :: "assembler \<Rightarrow> assembler" where
  "flush_text a =
     (if as_text a \<noteq> [] then
        a\<lparr>as_content := as_content a @ [text_block (as_text a)], as_text := []\<rparr>
      else a)"

definition tool_use_block :: "tool_use \<Rightarrow> content_block" where
  "tool_use_block t = (blank_block BlockToolUse)\<lparr>cb_tool_use := Some t\<rparr>"

definition flush_tool :: "assembler \<Rightarrow> assembler" where
  "flush_tool a =
     (case as_tool a of
        None \<Rightarrow> a
      | Some t \<Rightarrow>
          a\<lparr>as_content := as_content a @ [tool_use_block (t\<lparr>tu_input := as_tool_buf a\<rparr>)],
            as_tool := None, as_tool_buf := []\<rparr>)"

definition flush_thinking :: "assembler \<Rightarrow> assembler" where
  "flush_thinking a =
     (case think_flush (as_think a) of
        (Some b, th) \<Rightarrow> a\<lparr>as_content := as_content a @ [b], as_think := th\<rparr>
      | (None, th) \<Rightarrow> a\<lparr>as_think := th\<rparr>)"

definition flush_all :: "assembler \<Rightarrow> assembler" where
  "flush_all a = flush_thinking (flush_tool (flush_text a))"

definition accumulate :: "assembler \<Rightarrow> chunk \<Rightarrow> assembler" where
  "accumulate a c =
     (case ck_type c of
        ChunkText \<Rightarrow>
          (let a1 = flush_thinking (flush_tool a)
           in a1\<lparr>as_text := as_text a1 @ ck_text c\<rparr>)
      | ChunkToolUseStart \<Rightarrow>
          (let a1 = flush_all a
           in case ck_tool_use c of
                None \<Rightarrow> a1
              | Some t \<Rightarrow>
                  a1\<lparr>as_tool := Some \<lparr>tu_id = tu_id t, tu_name = tu_name t,
                                      tu_input = tu_input t, tu_signature = tu_signature t\<rparr>,
                     as_tool_buf := as_tool_buf a1 @ tu_input t\<rparr>)
      | ChunkToolUseDelta \<Rightarrow> a\<lparr>as_tool_buf := as_tool_buf a @ ck_partial c\<rparr>
      | ChunkThinkingStart \<Rightarrow>
          (let a1 = flush_all a in a1\<lparr>as_think := snd (think_add (as_think a1) c)\<rparr>)
      | ChunkThinkingDelta \<Rightarrow> a\<lparr>as_think := snd (think_add (as_think a) c)\<rparr>
      | ChunkDone \<Rightarrow>
          (case ck_usage c of None \<Rightarrow> a | Some u \<Rightarrow> a\<lparr>as_usage := u\<rparr>)
      | ChunkOther s \<Rightarrow> a)"

definition response_of :: "assembler \<Rightarrow> chat_response" where
  "response_of a = \<lparr>resp_content = as_content a, resp_stop = StopReasonUnset,
     resp_usage = as_usage a\<rparr>"

text \<open>The response both consumers report for the chunks they read.\<close>

definition assemble :: "chunk list \<Rightarrow> chat_response" where
  "assemble cs = response_of (flush_all (foldl accumulate asm_init cs))"

lemmas flush_defs = flush_all_def flush_text_def flush_tool_def flush_thinking_def
  think_flush_def think_init_def

lemmas asm_defs = accumulate_def flush_defs think_add_def asm_init_def response_of_def

subsection \<open>What the buffers hold\<close>

text \<open>
  The text seen so far: that of the blocks already closed, then the open buffer. The
  same for the other kinds of chunk.
\<close>

definition content_text :: "content_block list \<Rightarrow> string" where
  "content_text bs = concat (map (\<lambda>b. if cb_type b = BlockText then cb_text b else []) bs)"

lemma content_text_append [simp]: "content_text (xs @ ys) = content_text xs @ content_text ys"
  by (simp add: content_text_def)

lemma content_text_Nil [simp]: "content_text [] = []"
  by (simp add: content_text_def)

lemma content_text_single [simp]:
  "content_text [text_block t] = t"
  "content_text [tool_use_block u] = []"
  "ty \<noteq> BlockText \<Longrightarrow> content_text [(blank_block ty)\<lparr>cb_thinking := th\<rparr>] = []"
  by (simp_all add: content_text_def block_defs tool_use_block_def)

definition seen_text :: "assembler \<Rightarrow> string" where
  "seen_text a = content_text (as_content a) @ as_text a"

text \<open>
  A block as the assembler closes it: its type is one of four, the payload of that type
  is set and no other, and a text block is not empty.
\<close>

definition assembled_ok :: "content_block \<Rightarrow> bool" where
  "assembled_ok b \<longleftrightarrow>
     payload_ok b \<and>
     (case cb_type b of
        BlockText \<Rightarrow> cb_text b \<noteq> []
      | BlockToolUse \<Rightarrow> cb_tool_use b \<noteq> None
      | BlockThinking \<Rightarrow> (case cb_thinking b of None \<Rightarrow> False | Some t \<Rightarrow> th_data t = [])
      | BlockRedactedThinking \<Rightarrow> (case cb_thinking b of None \<Rightarrow> False | Some t \<Rightarrow> th_data t \<noteq> [])
      | _ \<Rightarrow> False)"

text \<open>A text buffer is open only when no tool call and no thinking block is.\<close>

definition asm_inv :: "assembler \<Rightarrow> bool" where
  "asm_inv a \<longleftrightarrow>
     (as_text a \<noteq> [] \<longrightarrow> as_tool a = None \<and> ta_current (as_think a) = None) \<and>
     (as_tool a \<noteq> None \<longrightarrow> ta_current (as_think a) = None) \<and>
     (ta_current (as_think a) = None \<longrightarrow> ta_text (as_think a) = [] \<and> ta_signature (as_think a) = []) \<and>
     list_all assembled_ok (as_content a)"

lemma asm_inv_init [simp]: "asm_inv asm_init"
  by (simp add: asm_inv_def asm_init_def think_init_def)

lemma asm_inv_flush_text: "asm_inv a \<Longrightarrow> asm_inv (flush_text a)"
  by (auto simp: asm_inv_def flush_text_def assembled_ok_def payload_ok_def block_defs)

lemma asm_inv_flush_tool: "asm_inv a \<Longrightarrow> asm_inv (flush_tool a)"
  by (auto simp: asm_inv_def flush_tool_def assembled_ok_def payload_ok_def block_defs
      tool_use_block_def split: option.splits)

lemma asm_inv_flush_thinking: "asm_inv a \<Longrightarrow> asm_inv (flush_thinking a)"
  by (auto simp: asm_inv_def flush_thinking_def think_flush_def assembled_ok_def payload_ok_def
      block_defs Let_def split: option.splits)

lemmas asm_inv_flush = asm_inv_flush_text asm_inv_flush_tool asm_inv_flush_thinking

lemma asm_inv_flush_all: "asm_inv a \<Longrightarrow> asm_inv (flush_all a)"
  by (simp add: flush_all_def asm_inv_flush)

text \<open>After a flush the corresponding buffer is empty, and flushes do not reopen buffers.\<close>

lemma flush_closed [simp]:
  "as_text (flush_text a) = []"
  "as_tool (flush_tool a) = None"
  "ta_current (as_think (flush_thinking a)) = None"
  "as_text (flush_tool a) = as_text a"
  "as_text (flush_thinking a) = as_text a"
  "as_tool (flush_text a) = as_tool a"
  "as_tool (flush_thinking a) = as_tool a"
  "as_think (flush_text a) = as_think a"
  "as_think (flush_tool a) = as_think a"
  "as_tool_buf (flush_text a) = as_tool_buf a"
  "as_tool_buf (flush_thinking a) = as_tool_buf a"
  "as_usage (flush_text a) = as_usage a"
  "as_usage (flush_tool a) = as_usage a"
  "as_usage (flush_thinking a) = as_usage a"
  by (auto simp: flush_defs Let_def split: option.splits)

lemma flush_all_closed [simp]:
  "as_text (flush_all a) = []"
  "as_tool (flush_all a) = None"
  "ta_current (as_think (flush_all a)) = None"
  "as_usage (flush_all a) = as_usage a"
  by (simp_all add: flush_all_def)

lemma asm_inv_accumulate: "asm_inv a \<Longrightarrow> asm_inv (accumulate a c)"
proof (cases "ck_type c")
  case ChunkText
  assume "asm_inv a"
  then have inv: "asm_inv (flush_thinking (flush_tool a))" by (simp add: asm_inv_flush)
  with ChunkText show ?thesis by (simp add: accumulate_def asm_inv_def Let_def)
next
  case ChunkToolUseStart
  assume "asm_inv a"
  then have inv: "asm_inv (flush_all a)" by (rule asm_inv_flush_all)
  with ChunkToolUseStart show ?thesis
    by (auto simp: accumulate_def asm_inv_def Let_def split: option.splits)
next
  case ChunkThinkingStart
  assume "asm_inv a"
  then have inv: "asm_inv (flush_all a)" by (rule asm_inv_flush_all)
  with ChunkThinkingStart show ?thesis
    by (auto simp: accumulate_def asm_inv_def think_add_def think_flush_def Let_def split: option.splits)
next
  case ChunkThinkingDelta
  assume "asm_inv a"
  with ChunkThinkingDelta show ?thesis
    by (auto simp: accumulate_def asm_inv_def think_add_def split: option.splits)
qed (auto simp: accumulate_def asm_inv_def split: option.splits)

lemma asm_inv_foldl: "asm_inv a \<Longrightarrow> asm_inv (foldl accumulate a cs)"
  by (induction cs arbitrary: a) (simp_all add: asm_inv_accumulate)

text \<open>Flushing moves text, it does not change it; a chunk adds its own text.\<close>

lemma seen_text_flush [simp]:
  "seen_text (flush_text a) = seen_text a"
  "seen_text (flush_tool a) = seen_text a"
  "seen_text (flush_thinking a) = seen_text a"
  by (auto simp: seen_text_def flush_defs Let_def split: option.splits)

lemma seen_text_flush_all [simp]: "seen_text (flush_all a) = seen_text a"
  by (simp add: flush_all_def)

definition chunk_text :: "chunk \<Rightarrow> string" where
  "chunk_text c = (if ck_type c = ChunkText then ck_text c else [])"

lemma seen_text_update [simp]:
  "seen_text (a\<lparr>as_text := t\<rparr>) = content_text (as_content a) @ t"
  "seen_text (a\<lparr>as_tool := x\<rparr>) = seen_text a"
  "seen_text (a\<lparr>as_tool_buf := y\<rparr>) = seen_text a"
  "seen_text (a\<lparr>as_think := z\<rparr>) = seen_text a"
  "seen_text (a\<lparr>as_usage := u\<rparr>) = seen_text a"
  by (simp_all add: seen_text_def)

lemma seen_text_accumulate: "seen_text (accumulate a c) = seen_text a @ chunk_text c"
proof (cases "ck_type c")
  case ChunkText
  have "content_text (as_content b) @ as_text b @ t = seen_text b @ t" for b t
    by (simp add: seen_text_def)
  with ChunkText show ?thesis
    by (simp add: accumulate_def chunk_text_def Let_def del: flush_closed)
qed (auto simp: accumulate_def chunk_text_def Let_def split: option.splits)

lemma seen_text_foldl:
  "seen_text (foldl accumulate a cs) = seen_text a @ concat (map chunk_text cs)"
  by (induction cs arbitrary: a) (simp_all add: seen_text_accumulate)

lemma content_text_closed: "as_text a = [] \<Longrightarrow> content_text (as_content a) = seen_text a"
  by (simp add: seen_text_def)

text \<open>
  Collecting a stream loses, invents and reorders no text: whatever chunks arrive, the
  text blocks of the assembled response, joined, are the text chunks, joined.
\<close>

theorem assemble_text:
  "content_text (resp_content (assemble cs)) = concat (map chunk_text cs)"
proof -
  have "content_text (as_content (flush_all (foldl accumulate asm_init cs)))
      = seen_text (flush_all (foldl accumulate asm_init cs))"
    by (rule content_text_closed) simp
  also have "\<dots> = concat (map chunk_text cs)"
    by (simp only: seen_text_flush_all seen_text_foldl) (simp add: seen_text_def asm_init_def)
  finally show ?thesis by (simp add: assemble_def response_of_def)
qed

text \<open>
  C13: Every block of an assembled response is well formed, whatever the order of the chunks:
  the type is text, tool use, thinking or redacted thinking, exactly the payload of that
  type is set, no text block is empty, and thinking is redacted exactly when it has data.
\<close>

theorem assemble_well_formed: "list_all assembled_ok (resp_content (assemble cs))"
proof -
  have "asm_inv (flush_all (foldl accumulate asm_init cs))"
    by (simp add: asm_inv_flush_all asm_inv_foldl)
  then show ?thesis by (simp add: assemble_def response_of_def asm_inv_def)
qed

subsection \<open>Round trip\<close>

text \<open>
  A stream as a provider emits it: each block as a start chunk and deltas, its text, tool
  arguments or thinking text cut into any fragments \<open>fs\<close>.
\<close>

definition text_chunk :: "string \<Rightarrow> chunk" where
  "text_chunk f = (blank_chunk ChunkText)\<lparr>ck_text := f\<rparr>"

definition tool_start_chunk :: "tool_use \<Rightarrow> chunk" where
  "tool_start_chunk t = (blank_chunk ChunkToolUseStart)\<lparr>ck_tool_use := Some t\<rparr>"

definition tool_delta_chunk :: "string \<Rightarrow> chunk" where
  "tool_delta_chunk f = (blank_chunk ChunkToolUseDelta)\<lparr>ck_partial := f\<rparr>"

definition thinking_start_chunk :: "thinking \<Rightarrow> chunk" where
  "thinking_start_chunk t = (blank_chunk ChunkThinkingStart)\<lparr>ck_thinking := Some t\<rparr>"

definition thinking_delta_chunk :: "string \<Rightarrow> string \<Rightarrow> chunk" where
  "thinking_delta_chunk f sig = (blank_chunk ChunkThinkingDelta)
     \<lparr>ck_thinking := Some \<lparr>th_text = f, th_signature = sig, th_data = []\<rparr>\<rparr>"

definition done_chunk :: "token_usage \<Rightarrow> chunk" where
  "done_chunk u = (blank_chunk ChunkDone)\<lparr>ck_usage := Some u\<rparr>"

lemmas chunk_makers = text_chunk_def tool_start_chunk_def tool_delta_chunk_def
  thinking_start_chunk_def thinking_delta_chunk_def done_chunk_def blank_chunk_def

datatype emission =
    EmitText "string list"
  | EmitTool tool_use "string list"
  | EmitThinking "string list" string
  | EmitRedacted string

definition thinking_block :: "block_type \<Rightarrow> thinking \<Rightarrow> content_block" where
  "thinking_block ty t = (blank_block ty)\<lparr>cb_thinking := Some t\<rparr>"

fun emitted_block :: "emission \<Rightarrow> content_block" where
  "emitted_block (EmitText fs) = text_block (concat fs)"
| "emitted_block (EmitTool t fs) = tool_use_block (t\<lparr>tu_input := concat fs\<rparr>)"
| "emitted_block (EmitThinking fs sig) =
     thinking_block BlockThinking \<lparr>th_text = concat fs, th_signature = sig, th_data = []\<rparr>"
| "emitted_block (EmitRedacted d) =
     thinking_block BlockRedactedThinking \<lparr>th_text = [], th_signature = [], th_data = d\<rparr>"

fun emitted_chunks :: "emission \<Rightarrow> chunk list" where
  "emitted_chunks (EmitText fs) = map text_chunk fs"
| "emitted_chunks (EmitTool t fs) = tool_start_chunk (t\<lparr>tu_input := []\<rparr>) # map tool_delta_chunk fs"
| "emitted_chunks (EmitThinking fs sig) =
     thinking_start_chunk zero_thinking # map (\<lambda>f. thinking_delta_chunk f []) fs
       @ [thinking_delta_chunk [] sig]"
| "emitted_chunks (EmitRedacted d) =
     [thinking_start_chunk \<lparr>th_text = [], th_signature = [], th_data = d\<rparr>]"

fun is_emit_text :: "emission \<Rightarrow> bool" where
  "is_emit_text (EmitText fs) = True"
| "is_emit_text _ = False"

fun emission_ok :: "emission \<Rightarrow> bool" where
  "emission_ok (EmitText fs) = (concat fs \<noteq> [])"
| "emission_ok (EmitRedacted d) = (d \<noteq> [])"
| "emission_ok _ = True"

text \<open>No block is empty and no two text blocks are adjacent.\<close>

definition emissions_ok :: "emission list \<Rightarrow> bool" where
  "emissions_ok es \<longleftrightarrow> list_all emission_ok es \<and>
     successively (\<lambda>x y. \<not> (is_emit_text x \<and> is_emit_text y)) es"

text \<open>Ready for a block: no stray tool argument is buffered.\<close>

definition asm_ready :: "assembler \<Rightarrow> bool" where
  "asm_ready a \<longleftrightarrow> asm_inv a \<and> (as_tool a = None \<longrightarrow> as_tool_buf a = [])"

lemma foldl_text:
  "foldl accumulate (a\<lparr>as_text := t\<rparr>) (map text_chunk fs) = a\<lparr>as_text := t @ concat fs\<rparr>"
  if "as_tool a = None" and "ta_current (as_think a) = None"
  using that
  by (induction fs arbitrary: t)
     (simp_all add: accumulate_def chunk_makers flush_tool_def flush_thinking_def think_flush_def Let_def)

lemma foldl_tool_delta:
  "foldl accumulate a (map tool_delta_chunk fs) = a\<lparr>as_tool_buf := as_tool_buf a @ concat fs\<rparr>"
  by (induction fs arbitrary: a) (simp_all add: accumulate_def chunk_makers)

lemma foldl_thinking_delta:
  "foldl accumulate a (map (\<lambda>f. thinking_delta_chunk f []) fs)
     = a\<lparr>as_think := (as_think a)\<lparr>ta_text := ta_text (as_think a) @ concat fs\<rparr>\<rparr>"
  if "ta_current (as_think a) = Some t"
  using that
  by (induction fs arbitrary: a) (simp_all add: accumulate_def chunk_makers think_add_def)

lemma foldl_text_start:
  assumes "fs \<noteq> []"
  shows "foldl accumulate a (map text_chunk fs)
     = (let b = flush_thinking (flush_tool a) in b\<lparr>as_text := as_text b @ concat fs\<rparr>)"
proof -
  from assms obtain f gs where fs: "fs = f # gs" by (cases fs) auto
  define b where "b = flush_thinking (flush_tool a)"
  have "foldl accumulate a (map text_chunk fs)
      = foldl accumulate (b\<lparr>as_text := as_text b @ f\<rparr>) (map text_chunk gs)"
    by (simp add: fs b_def accumulate_def text_chunk_def blank_chunk_def Let_def del: flush_closed)
  also have "\<dots> = b\<lparr>as_text := (as_text b @ f) @ concat gs\<rparr>"
    by (rule foldl_text) (simp_all add: b_def)
  finally show ?thesis by (simp add: b_def fs Let_def)
qed

lemma flush_text_id: "as_text a = [] \<Longrightarrow> flush_text a = a"
  by (simp add: flush_text_def)

lemma flush_tool_id: "as_tool a = None \<Longrightarrow> flush_tool a = a"
  by (simp add: flush_tool_def)

lemma flush_thinking_id: "ta_current (as_think a) = None \<Longrightarrow> flush_thinking a = a"
  by (simp add: flush_thinking_def think_flush_def)

lemmas flush_ids = flush_text_id flush_tool_id flush_thinking_id

lemma ready_flush_all_buf: "asm_ready a \<Longrightarrow> as_tool_buf (flush_all a) = []"
  by (auto simp: asm_ready_def flush_all_def flush_tool_def split: option.splits)

lemma ready_flush_all_think: "asm_ready a \<Longrightarrow> as_think (flush_all a) = think_init"
proof -
  assume "asm_ready a"
  then have "asm_inv (flush_all a)" by (simp add: asm_ready_def asm_inv_flush_all)
  then have "ta_text (as_think (flush_all a)) = [] \<and> ta_signature (as_think (flush_all a)) = []"
    by (simp add: asm_inv_def)
  then show ?thesis by (simp add: think_init_def)
qed

lemma foldl_emit_text:
  assumes "as_text a = []" and "concat fs \<noteq> []"
  shows "foldl accumulate a (map text_chunk fs) = (flush_all a)\<lparr>as_text := concat fs\<rparr>"
proof -
  from assms have "fs \<noteq> []" by auto
  with assms show ?thesis by (simp add: foldl_text_start flush_all_def flush_text_id Let_def)
qed

lemma foldl_emit_tool:
  assumes "asm_ready a"
  shows "foldl accumulate a (emitted_chunks (EmitTool t fs))
     = (flush_all a)\<lparr>as_tool := Some (t\<lparr>tu_input := []\<rparr>), as_tool_buf := concat fs\<rparr>"
  using ready_flush_all_buf [OF assms]
  by (simp add: accumulate_def foldl_tool_delta tool_start_chunk_def blank_chunk_def Let_def)

lemma foldl_emit_redacted:
  assumes "asm_ready a"
  shows "foldl accumulate a (emitted_chunks (EmitRedacted d))
     = (flush_all a)\<lparr>as_think := think_init\<lparr>ta_current := Some (zero_thinking\<lparr>th_data := d\<rparr>)\<rparr>\<rparr>"
  using ready_flush_all_think [OF assms]
  by (simp add: accumulate_def thinking_start_chunk_def blank_chunk_def Let_def think_add_def
      think_flush_def think_init_def)

lemma foldl_emit_thinking:
  assumes "asm_ready a"
  shows "foldl accumulate a (emitted_chunks (EmitThinking fs sig))
     = (flush_all a)\<lparr>as_think :=
          \<lparr>ta_current = Some zero_thinking, ta_text = concat fs, ta_signature = sig\<rparr>\<rparr>"
proof -
  define b where "b = (flush_all a)\<lparr>as_think := think_init\<lparr>ta_current := Some zero_thinking\<rparr>\<rparr>"
  have b: "ta_current (as_think b) = Some zero_thinking" by (simp add: b_def think_init_def)
  have "accumulate a (thinking_start_chunk zero_thinking) = b"
    using ready_flush_all_think [OF assms]
    by (simp add: b_def accumulate_def thinking_start_chunk_def blank_chunk_def Let_def
        think_add_def think_flush_def think_init_def zero_thinking_def)
  then show ?thesis
    by (simp add: foldl_thinking_delta [OF b])
       (simp add: b_def accumulate_def thinking_delta_chunk_def blank_chunk_def think_add_def think_init_def)
qed

lemma emit_step:
  assumes ready: "asm_ready a" and ok: "emission_ok e"
    and closed: "is_emit_text e \<Longrightarrow> as_text a = []"
  defines "b \<equiv> foldl accumulate a (emitted_chunks e)"
  shows "asm_ready b"
    and "as_content (flush_all b) = as_content (flush_all a) @ [emitted_block e]"
    and "as_usage b = as_usage a"
    and "as_text b \<noteq> [] \<Longrightarrow> is_emit_text e"
proof -
  have inv: "asm_inv b" using ready by (simp add: b_def asm_ready_def asm_inv_foldl)
  note facts = ready_flush_all_buf [OF ready] ready_flush_all_think [OF ready]
  have "asm_ready b \<and> as_content (flush_all b) = as_content (flush_all a) @ [emitted_block e]
      \<and> as_usage b = as_usage a \<and> (as_text b \<noteq> [] \<longrightarrow> is_emit_text e)"
  proof (cases e)
    case (EmitText fs)
    with ok closed have b: "b = (flush_all a)\<lparr>as_text := concat fs\<rparr>"
      by (simp add: b_def foldl_emit_text)
    have "flush_all b = flush_text b" by (simp add: flush_all_def flush_ids b)
    with EmitText ok inv facts show ?thesis by (simp add: b flush_text_def asm_ready_def)
  next
    case (EmitTool t fs)
    then have b: "b = (flush_all a)\<lparr>as_tool := Some (t\<lparr>tu_input := []\<rparr>), as_tool_buf := concat fs\<rparr>"
      by (simp only: b_def foldl_emit_tool [OF ready])
    have "flush_all b = flush_tool b" by (simp add: flush_all_def flush_ids b)
    with EmitTool inv facts show ?thesis by (simp add: b flush_tool_def asm_ready_def)
  next
    case (EmitThinking fs sig)
    then have b: "b = (flush_all a)\<lparr>as_think :=
        \<lparr>ta_current = Some zero_thinking, ta_text = concat fs, ta_signature = sig\<rparr>\<rparr>"
      by (simp only: b_def foldl_emit_thinking [OF ready])
    have "flush_all b = flush_thinking b" by (simp add: flush_all_def flush_ids b)
    with EmitThinking inv facts show ?thesis
      by (simp add: b flush_thinking_def think_flush_def asm_ready_def thinking_block_def zero_thinking_def)
  next
    case (EmitRedacted d)
    then have b: "b = (flush_all a)\<lparr>as_think :=
        think_init\<lparr>ta_current := Some (zero_thinking\<lparr>th_data := d\<rparr>)\<rparr>\<rparr>"
      by (simp only: b_def foldl_emit_redacted [OF ready])
    have "flush_all b = flush_thinking b" by (simp add: flush_all_def flush_ids b)
    with EmitRedacted ok inv facts show ?thesis
      by (simp add: b flush_thinking_def think_flush_def asm_ready_def thinking_block_def
          zero_thinking_def think_init_def)
  qed
  then show "asm_ready b" and "as_content (flush_all b) = as_content (flush_all a) @ [emitted_block e]"
    and "as_usage b = as_usage a" and "as_text b \<noteq> [] \<Longrightarrow> is_emit_text e"
    by simp_all
qed

lemma emit_all:
  assumes "asm_ready a" and "emissions_ok es"
    and "es \<noteq> [] \<Longrightarrow> is_emit_text (hd es) \<Longrightarrow> as_text a = []"
  shows "as_content (flush_all (foldl accumulate a (concat (map emitted_chunks es))))
           = as_content (flush_all a) @ map emitted_block es
       \<and> as_usage (foldl accumulate a (concat (map emitted_chunks es))) = as_usage a"
  using assms
proof (induction es arbitrary: a)
  case (Cons e es)
  have ok: "emission_ok e" and oks: "emissions_ok es"
    and nexts: "es \<noteq> [] \<Longrightarrow> is_emit_text e \<Longrightarrow> \<not> is_emit_text (hd es)"
    using Cons.prems(2) by (cases es; simp add: emissions_ok_def)+
  note step = emit_step [OF Cons.prems(1) ok]
  have closed: "is_emit_text e \<Longrightarrow> as_text a = []" using Cons.prems(3) by simp
  have "es \<noteq> [] \<Longrightarrow> is_emit_text (hd es) \<Longrightarrow> as_text (foldl accumulate a (emitted_chunks e)) = []"
    using nexts step(4) [OF closed] by blast
  with Cons.IH [OF step(1) [OF closed] oks] step(2,3) [OF closed] show ?case by simp
qed simp

lemma assemble_emissions:
  assumes "emissions_ok es"
  shows "assemble (concat (map emitted_chunks es) @ [done_chunk u])
     = \<lparr>resp_content = map emitted_block es, resp_stop = StopReasonUnset, resp_usage = u\<rparr>"
proof -
  have ready: "asm_ready asm_init" by (simp add: asm_ready_def) (simp add: asm_init_def)
  have dones: "flush_all (accumulate a (done_chunk u)) = (flush_all a)\<lparr>as_usage := u\<rparr>" for a
    by (cases a)
       (simp add: accumulate_def done_chunk_def blank_chunk_def flush_defs Let_def split: option.split)
  have "as_content (flush_all asm_init) = []" by (simp add: flush_defs asm_init_def)
  with emit_all [OF ready assms] show ?thesis
    by (simp add: assemble_def dones response_of_def asm_init_def)
qed



end
