(* ===== verification/Collect.thy ===== *)
theory Collect
  imports Assembly
begin

text \<open>
  \<open>Stream.Recv\<close> and \<open>Stream.Collect\<close> (\<open>llm/stream.go\<close>) as a concurrent system: the
  two channels, the provider goroutine that writes them, the context, and the caller
  running Collect. Every channel operation is a step of its own, so the goroutine may run
  between any two of them; where both cases of a \<open>select\<close> are ready the Boolean argument
  of \<open>consumer_step\<close> is the runtime's choice.
\<close>

subsection \<open>State\<close>

text \<open>What the provider goroutine does next: the operations it performs on the channels.\<close>

datatype move =
    SendChunk chunk
  | SendErr "go_error option"
  | CloseErrs
  | CloseChunks

text \<open>Where the caller is: \<open>AtTop\<close> is the head of Collect's loop, the next three are
  inside Recv, and \<open>AtErrDrain\<close> is the loop that drains the chunks after an error.\<close>

datatype collect_pc =
    AtTop
  | AtSelect
  | AtClosed
  | AtDrain
  | AtErrDrain go_error
  | Finished chat_response "go_error option"

record collect_sys =
  sy_chunks :: "chunk list"
  sy_chunks_closed :: bool
  sy_errs :: "go_error option list"
  sy_errs_closed :: bool
  sy_script :: "move list"
  sy_ctx :: "go_error option"
  sy_asm :: assembler
  sy_pc :: collect_pc

definition collect_init :: "move list \<Rightarrow> collect_sys" where
  "collect_init script = \<lparr>sy_chunks = [], sy_chunks_closed = False, sy_errs = [],
     sy_errs_closed = False, sy_script = script, sy_ctx = None, sy_asm = asm_init, sy_pc = AtTop\<rparr>"

subsection \<open>Steps of the caller\<close>

definition finish :: "go_error option \<Rightarrow> collect_sys \<Rightarrow> collect_sys" where
  "finish e s =
     (let a = flush_all (sy_asm s)
      in s\<lparr>sy_asm := a, sy_pc := Finished (response_of a) e\<rparr>)"

text \<open>Recv returned a chunk.\<close>

definition got_chunk :: "chunk \<Rightarrow> collect_sys \<Rightarrow> collect_sys" where
  "got_chunk c s =
     (let s1 = s\<lparr>sy_asm := accumulate (sy_asm s) c\<rparr>
      in if ck_type c = ChunkDone then finish None s1 else s1\<lparr>sy_pc := AtTop\<rparr>)"

text \<open>Recv returned an error.\<close>

definition got_err :: "go_error \<Rightarrow> collect_sys \<Rightarrow> collect_sys" where
  "got_err e s = (if is_eof e then finish None s else s\<lparr>sy_pc := AtErrDrain e\<rparr>)"

definition chunk_ready :: "collect_sys \<Rightarrow> bool" where
  "chunk_ready s = (sy_chunks s \<noteq> [] \<or> sy_chunks_closed s)"

definition err_ready :: "collect_sys \<Rightarrow> bool" where
  "err_ready s = (sy_errs s \<noteq> [] \<or> sy_errs_closed s)"

definition recv_select :: "bool \<Rightarrow> collect_sys \<Rightarrow> collect_sys" where
  "recv_select pick_err s =
     (if err_ready s \<and> (pick_err \<or> \<not> chunk_ready s) then
        (case sy_errs s of
           Some e # es \<Rightarrow> got_err e (s\<lparr>sy_errs := es\<rparr>)
         | None # es \<Rightarrow> s\<lparr>sy_errs := es, sy_pc := AtDrain\<rparr>
         | [] \<Rightarrow> s\<lparr>sy_pc := AtDrain\<rparr>)
      else if chunk_ready s then
        (case sy_chunks s of
           c # cs \<Rightarrow> got_chunk c (s\<lparr>sy_chunks := cs\<rparr>)
         | [] \<Rightarrow> s\<lparr>sy_pc := AtClosed\<rparr>)
      else s)"

definition recv_closed :: "collect_sys \<Rightarrow> collect_sys" where
  "recv_closed s =
     (case sy_errs s of
        Some e # es \<Rightarrow> got_err e (s\<lparr>sy_errs := es\<rparr>)
      | None # es \<Rightarrow> got_err EofErr (s\<lparr>sy_errs := es\<rparr>)
      | [] \<Rightarrow> got_err EofErr s)"

definition recv_drain :: "collect_sys \<Rightarrow> collect_sys" where
  "recv_drain s =
     (case sy_chunks s of
        c # cs \<Rightarrow> got_chunk c (s\<lparr>sy_chunks := cs\<rparr>)
      | [] \<Rightarrow> if sy_chunks_closed s then got_err EofErr s else s)"

definition err_drain :: "go_error \<Rightarrow> collect_sys \<Rightarrow> collect_sys" where
  "err_drain e s =
     (case sy_chunks s of
        c # cs \<Rightarrow> s\<lparr>sy_chunks := cs, sy_asm := accumulate (sy_asm s) c\<rparr>
      | [] \<Rightarrow> finish (Some e) s)"

definition consumer_step :: "bool \<Rightarrow> collect_sys \<Rightarrow> collect_sys" where
  "consumer_step pick_err s =
     (case sy_pc s of
        AtTop \<Rightarrow> (case sy_ctx s of Some e \<Rightarrow> finish (Some e) s | None \<Rightarrow> s\<lparr>sy_pc := AtSelect\<rparr>)
      | AtSelect \<Rightarrow> recv_select pick_err s
      | AtClosed \<Rightarrow> recv_closed s
      | AtDrain \<Rightarrow> recv_drain s
      | AtErrDrain e \<Rightarrow> err_drain e s
      | Finished r e \<Rightarrow> s)"

subsection \<open>The system\<close>

fun do_move :: "move \<Rightarrow> collect_sys \<Rightarrow> collect_sys" where
  "do_move (SendChunk c) s = s\<lparr>sy_chunks := sy_chunks s @ [c]\<rparr>"
| "do_move (SendErr e) s = s\<lparr>sy_errs := sy_errs s @ [e]\<rparr>"
| "do_move CloseErrs s = s\<lparr>sy_errs_closed := True\<rparr>"
| "do_move CloseChunks s = s\<lparr>sy_chunks_closed := True\<rparr>"

inductive sys_step :: "collect_sys \<Rightarrow> collect_sys \<Rightarrow> bool" where
  produce: "sy_script s = m # ms \<Longrightarrow> sys_step s (do_move m (s\<lparr>sy_script := ms\<rparr>))"
| consume: "sys_step s (consumer_step pick_err s)"
| cancel: "e = CanceledErr \<or> e = DeadlineErr \<Longrightarrow> sys_step s (s\<lparr>sy_ctx := Some e\<rparr>)"

text \<open>Every interleaving from the start: the reachable states of the run of a script.\<close>

inductive reaches :: "move list \<Rightarrow> collect_sys \<Rightarrow> bool" for script :: "move list" where
  start: "reaches script (collect_init script)"
| step: "reaches script s \<Longrightarrow> sys_step s t \<Longrightarrow> reaches script t"

text \<open>
  The operations of every provider's goroutine: chunks, at most one error, and on the way
  out the deferred closes of the error channel and then of the chunk channel.
\<close>

definition producer_script :: "chunk list \<Rightarrow> go_error option \<Rightarrow> move list" where
  "producer_script cs err =
     map SendChunk cs @ (case err of None \<Rightarrow> [] | Some e \<Rightarrow> [SendErr (Some e)])
       @ [CloseErrs, CloseChunks]"

inductive_cases sys_stepE: "sys_step s t"

subsection \<open>The invariant\<close>

definition is_done :: "chunk \<Rightarrow> bool" where
  "is_done c = (ck_type c = ChunkDone)"

definition no_done :: "chunk list \<Rightarrow> bool" where
  "no_done cs = list_all (\<lambda>c. \<not> is_done c) cs"

text \<open>The chunks up to and including the first done chunk.\<close>

fun upto_done :: "chunk list \<Rightarrow> chunk list" where
  "upto_done [] = []"
| "upto_done (c # cs) = (if is_done c then [c] else c # upto_done cs)"

lemma no_done_simps [simp]:
  "no_done []"
  "no_done (c # cs) \<longleftrightarrow> \<not> is_done c \<and> no_done cs"
  "no_done (xs @ ys) \<longleftrightarrow> no_done xs \<and> no_done ys"
  by (simp_all add: no_done_def)

lemma upto_done_append: "no_done xs \<Longrightarrow> upto_done (xs @ ys) = xs @ upto_done ys"
  by (induction xs) auto

lemma upto_done_none: "no_done xs \<Longrightarrow> upto_done xs = xs"
  by (induction xs) auto

definition err_list :: "go_error option \<Rightarrow> go_error option list" where
  "err_list err = (case err of None \<Rightarrow> [] | Some e \<Rightarrow> [Some e])"

definition err_moves :: "go_error option \<Rightarrow> move list" where
  "err_moves err = map SendErr (err_list err)"

lemma producer_script_alt:
  "producer_script cs err = map SendChunk cs @ err_moves err @ [CloseErrs, CloseChunks]"
  by (simp add: producer_script_def err_moves_def err_list_def split: option.split)

definition err_taken :: "collect_sys \<Rightarrow> bool" where
  "err_taken s = (case sy_pc s of AtErrDrain e \<Rightarrow> True | Finished r x \<Rightarrow> True | _ \<Rightarrow> False)"

definition errs_ok :: "go_error option \<Rightarrow> collect_sys \<Rightarrow> bool" where
  "errs_ok err s \<longleftrightarrow> sy_errs s = err_list err \<or> (err_taken s \<and> sy_errs s = [])"

text \<open>
  How far the provider has got: \<open>taken\<close> are the chunks the caller has received, \<open>unsent\<close>
  those the provider has not sent yet.
\<close>

definition chan_inv :: "chunk list \<Rightarrow> go_error option \<Rightarrow> chunk list \<Rightarrow> chunk list \<Rightarrow> collect_sys \<Rightarrow> bool" where
  "chan_inv cs err taken unsent s \<longleftrightarrow>
     cs = taken @ sy_chunks s @ unsent \<and>
     ((sy_script s = map SendChunk unsent @ err_moves err @ [CloseErrs, CloseChunks]
         \<and> sy_errs s = [] \<and> \<not> sy_errs_closed s \<and> \<not> sy_chunks_closed s)
      \<or> (unsent = [] \<and> sy_script s = [CloseErrs, CloseChunks] \<and> errs_ok err s
         \<and> \<not> sy_errs_closed s \<and> \<not> sy_chunks_closed s)
      \<or> (unsent = [] \<and> sy_script s = [CloseChunks] \<and> errs_ok err s
         \<and> sy_errs_closed s \<and> \<not> sy_chunks_closed s)
      \<or> (unsent = [] \<and> sy_script s = [] \<and> errs_ok err s
         \<and> sy_errs_closed s \<and> sy_chunks_closed s))"

text \<open>What the caller's position says of the chunks it has received.\<close>

definition pc_inv :: "chunk list \<Rightarrow> go_error option \<Rightarrow> chunk list \<Rightarrow> collect_sys \<Rightarrow> bool" where
  "pc_inv cs err taken s \<longleftrightarrow>
     (case sy_ctx s of None \<Rightarrow> True | Some e \<Rightarrow> e = CanceledErr \<or> e = DeadlineErr) \<and>
     (case sy_pc s of
        AtTop \<Rightarrow> sy_asm s = foldl accumulate asm_init taken \<and> no_done taken
      | AtSelect \<Rightarrow> sy_asm s = foldl accumulate asm_init taken \<and> no_done taken
      | AtClosed \<Rightarrow> sy_asm s = foldl accumulate asm_init taken \<and> no_done taken
          \<and> sy_chunks s = [] \<and> sy_chunks_closed s
      | AtDrain \<Rightarrow> sy_asm s = foldl accumulate asm_init taken \<and> no_done taken
          \<and> err = None \<and> sy_errs_closed s
      | AtErrDrain e \<Rightarrow> sy_asm s = foldl accumulate asm_init taken \<and> err = Some e
      | Finished r x \<Rightarrow> r = assemble taken \<and>
          (case x of
             None \<Rightarrow> taken = upto_done cs \<and> (no_done cs \<longrightarrow> err = None)
           | Some e \<Rightarrow> err = Some e \<or> e = CanceledErr \<or> e = DeadlineErr))"

definition collect_inv :: "chunk list \<Rightarrow> go_error option \<Rightarrow> collect_sys \<Rightarrow> bool" where
  "collect_inv cs err s \<longleftrightarrow> (\<exists>taken unsent. chan_inv cs err taken unsent s \<and> pc_inv cs err taken s)"

lemma collect_inv_init: "collect_inv cs err (collect_init (producer_script cs err))"
proof -
  have "chan_inv cs err [] cs (collect_init (producer_script cs err))"
    by (simp add: chan_inv_def collect_init_def producer_script_alt)
  moreover have "pc_inv cs err [] (collect_init (producer_script cs err))"
    by (simp add: pc_inv_def collect_init_def)
  ultimately show ?thesis by (auto simp: collect_inv_def)
qed

lemma chan_inv_move:
  assumes "chan_inv cs err taken unsent s" and "sy_script s = m # ms"
  shows "\<exists>unsent'. chan_inv cs err taken unsent' (do_move m (s\<lparr>sy_script := ms\<rparr>))"
proof (cases unsent)
  case (Cons c cs')
  with assms have "m = SendChunk c" and "ms = map SendChunk cs' @ err_moves err @ [CloseErrs, CloseChunks]"
    by (auto simp: chan_inv_def)
  with assms Cons have "chan_inv cs err taken cs' (do_move m (s\<lparr>sy_script := ms\<rparr>))"
    by (auto simp: chan_inv_def)
  then show ?thesis ..
next
  case Nil
  define t where "t = do_move m (s\<lparr>sy_script := ms\<rparr>)"
  have taken_same: "err_taken t = err_taken s" by (cases m) (simp_all add: t_def err_taken_def)
  from Nil assms have cs: "cs = taken @ sy_chunks s" by (simp add: chan_inv_def)
  from Nil assms consider
      (first) "m # ms = err_moves err @ [CloseErrs, CloseChunks]" "sy_errs s = []"
        "\<not> sy_errs_closed s" "\<not> sy_chunks_closed s"
    | (second) "m = CloseErrs" "ms = [CloseChunks]" "errs_ok err s"
        "\<not> sy_errs_closed s" "\<not> sy_chunks_closed s"
    | (third) "m = CloseChunks" "ms = []" "errs_ok err s" "sy_errs_closed s" "\<not> sy_chunks_closed s"
    unfolding chan_inv_def by auto
  then have "chan_inv cs err taken [] t"
  proof cases
    case first
    then show ?thesis
      by (cases err) (simp_all add: t_def cs chan_inv_def errs_ok_def err_moves_def err_list_def)
  next
    case second
    with taken_same show ?thesis by (simp add: t_def cs chan_inv_def errs_ok_def)
  next
    case third
    with taken_same show ?thesis by (simp add: t_def cs chan_inv_def errs_ok_def)
  qed
  then show ?thesis unfolding t_def ..
qed

lemma chan_inv_open: "chan_inv cs err taken unsent s \<Longrightarrow> sy_script s = m # ms \<Longrightarrow> \<not> sy_chunks_closed s"
  by (auto simp: chan_inv_def)

lemma pc_inv_move:
  assumes inv: "pc_inv cs err taken s" and "sy_script s = m # ms" and "chan_inv cs err taken unsent s"
  shows "pc_inv cs err taken (do_move m (s\<lparr>sy_script := ms\<rparr>))"
proof -
  have opened: "\<not> sy_chunks_closed s" using assms(3,2) by (rule chan_inv_open)
  show ?thesis
    using inv opened by (cases "sy_pc s"; cases m; simp add: pc_inv_def)
qed

lemma collect_inv_move:
  "collect_inv cs err s \<Longrightarrow> sy_script s = m # ms \<Longrightarrow> collect_inv cs err (do_move m (s\<lparr>sy_script := ms\<rparr>))"
  unfolding collect_inv_def using chan_inv_move pc_inv_move by blast

lemma chan_inv_cancel: "chan_inv cs err taken unsent (s\<lparr>sy_ctx := x\<rparr>) = chan_inv cs err taken unsent s"
  by (simp add: chan_inv_def errs_ok_def err_taken_def)

lemma pc_inv_cancel:
  "pc_inv cs err taken s \<Longrightarrow> e = CanceledErr \<or> e = DeadlineErr \<Longrightarrow> pc_inv cs err taken (s\<lparr>sy_ctx := Some e\<rparr>)"
  by (cases "sy_pc s") (simp_all add: pc_inv_def)

lemma collect_inv_cancel:
  "collect_inv cs err s \<Longrightarrow> e = CanceledErr \<or> e = DeadlineErr \<Longrightarrow> collect_inv cs err (s\<lparr>sy_ctx := Some e\<rparr>)"
  unfolding collect_inv_def chan_inv_cancel using pc_inv_cancel by blast

text \<open>Taking a chunk off the channel, taking the error off its channel, and moving on.\<close>

lemma chan_inv_take:
  "chan_inv cs err taken unsent s \<Longrightarrow> sy_chunks s = c # rest \<Longrightarrow> \<not> err_taken s \<or> err_taken t
   \<Longrightarrow> sy_chunks t = rest \<Longrightarrow> sy_script t = sy_script s \<Longrightarrow> sy_errs t = sy_errs s
   \<Longrightarrow> sy_errs_closed t = sy_errs_closed s \<Longrightarrow> sy_chunks_closed t = sy_chunks_closed s
   \<Longrightarrow> chan_inv cs err (taken @ [c]) unsent t"
  by (simp add: chan_inv_def errs_ok_def) blast

lemma chan_inv_same:
  "chan_inv cs err taken unsent s \<Longrightarrow> \<not> err_taken s \<or> err_taken t
   \<Longrightarrow> sy_chunks t = sy_chunks s \<Longrightarrow> sy_script t = sy_script s \<Longrightarrow> sy_errs t = sy_errs s
   \<Longrightarrow> sy_errs_closed t = sy_errs_closed s \<Longrightarrow> sy_chunks_closed t = sy_chunks_closed s
   \<Longrightarrow> chan_inv cs err taken unsent t"
  by (simp add: chan_inv_def errs_ok_def) blast

lemma chan_inv_take_err:
  "chan_inv cs err taken unsent s \<Longrightarrow> sy_errs s = e # es \<Longrightarrow> err_taken t
   \<Longrightarrow> sy_chunks t = sy_chunks s \<Longrightarrow> sy_script t = sy_script s \<Longrightarrow> sy_errs t = es
   \<Longrightarrow> sy_errs_closed t = sy_errs_closed s \<Longrightarrow> sy_chunks_closed t = sy_chunks_closed s
   \<Longrightarrow> chan_inv cs err taken unsent t"
  by (cases err) (auto simp: chan_inv_def errs_ok_def err_list_def)

lemma chan_inv_err_head: "chan_inv cs err taken unsent s \<Longrightarrow> sy_errs s = x # es \<Longrightarrow> x = err \<and> err \<noteq> None"
  by (cases err) (auto simp: chan_inv_def errs_ok_def err_list_def)

lemma chan_inv_no_err:
  "chan_inv cs err taken unsent s \<Longrightarrow> sy_errs s = [] \<Longrightarrow> sy_errs_closed s \<Longrightarrow> \<not> err_taken s \<Longrightarrow> err = None"
  by (cases err) (auto simp: chan_inv_def errs_ok_def err_list_def)

lemma chan_inv_all_taken:
  "chan_inv cs err taken unsent s \<Longrightarrow> sy_chunks s = [] \<Longrightarrow> sy_chunks_closed s
   \<Longrightarrow> cs = taken \<and> sy_errs_closed s"
  by (auto simp: chan_inv_def)

definition ctx_ok :: "collect_sys \<Rightarrow> bool" where
  "ctx_ok s = (case sy_ctx s of None \<Rightarrow> True | Some e \<Rightarrow> e = CanceledErr \<or> e = DeadlineErr)"

lemma pc_inv_ctx: "pc_inv cs err taken s \<Longrightarrow> ctx_ok s"
  by (simp add: pc_inv_def ctx_ok_def)

lemma inv_finish:
  assumes "chan_inv cs err taken unsent s" and "sy_asm s = foldl accumulate asm_init taken" and "ctx_ok s"
    and "case x of None \<Rightarrow> taken = upto_done cs \<and> (no_done cs \<longrightarrow> err = None)
         | Some e \<Rightarrow> err = Some e \<or> e = CanceledErr \<or> e = DeadlineErr"
  shows "collect_inv cs err (finish x s)"
proof -
  have "chan_inv cs err taken unsent (finish x s)"
    by (rule chan_inv_same [OF assms(1)]) (simp_all add: finish_def err_taken_def Let_def)
  moreover have "pc_inv cs err taken (finish x s)"
    using assms(2-4) by (simp add: finish_def pc_inv_def ctx_ok_def assemble_def Let_def)
  ultimately show ?thesis by (auto simp: collect_inv_def)
qed

lemma inv_got_chunk:
  assumes chan: "chan_inv cs err taken unsent s" and "sy_chunks s = c # rest" and "\<not> err_taken s"
    and asm: "sy_asm s = foldl accumulate asm_init taken" and "no_done taken" and "ctx_ok s"
  shows "collect_inv cs err (got_chunk c (s\<lparr>sy_chunks := rest\<rparr>))"
proof -
  define t where "t = s\<lparr>sy_chunks := rest, sy_asm := accumulate (sy_asm s) c, sy_pc := AtTop\<rparr>"
  have chan': "chan_inv cs err (taken @ [c]) unsent t"
    by (rule chan_inv_take [OF chan assms(2)]) (simp_all add: t_def assms)
  have asm': "sy_asm t = foldl accumulate asm_init (taken @ [c])" by (simp add: t_def asm)
  show ?thesis
  proof (cases "is_done c")
    case True
    have "cs = taken @ c # rest @ unsent" using chan assms(2) by (simp add: chan_inv_def)
    then have "taken @ [c] = upto_done cs" and "\<not> no_done cs"
      using True assms(5) by (simp_all add: upto_done_append)
    then have "collect_inv cs err (finish None t)"
      using assms(6) by (intro inv_finish [OF chan' asm']) (simp_all add: t_def ctx_ok_def)
    moreover have "got_chunk c (s\<lparr>sy_chunks := rest\<rparr>) = finish None t"
      using True by (simp add: got_chunk_def is_done_def t_def finish_def Let_def)
    ultimately show ?thesis by simp
  next
    case False
    have "pc_inv cs err (taken @ [c]) t"
      using False asm' assms(5,6) by (simp add: pc_inv_def t_def ctx_ok_def)
    with chan' False show ?thesis
      by (auto simp: collect_inv_def got_chunk_def is_done_def t_def Let_def)
  qed
qed

lemma inv_got_err:
  assumes chan: "chan_inv cs err taken unsent s" and "sy_errs s = Some e # es" and "\<not> is_eof e"
    and asm: "sy_asm s = foldl accumulate asm_init taken" and "ctx_ok s"
  shows "collect_inv cs err (got_err e (s\<lparr>sy_errs := es\<rparr>))"
proof -
  have "chan_inv cs err taken unsent (s\<lparr>sy_errs := es, sy_pc := AtErrDrain e\<rparr>)"
    by (rule chan_inv_take_err [OF chan assms(2)]) (simp_all add: err_taken_def)
  moreover have "err = Some e" using chan_inv_err_head [OF chan assms(2)] by simp
  ultimately show ?thesis
    using assms(3-5) by (auto simp: collect_inv_def got_err_def pc_inv_def ctx_ok_def)
qed

lemma inv_eof:
  assumes chan: "chan_inv cs err taken unsent s" and "sy_chunks s = []" and "sy_chunks_closed s"
    and "err = None" and "sy_asm s = foldl accumulate asm_init taken" and "no_done taken" and "ctx_ok s"
  shows "collect_inv cs err (got_err EofErr s)"
proof -
  have "cs = taken" using chan_inv_all_taken [OF assms(1-3)] by simp
  then have "collect_inv cs err (finish None s)"
    using assms(4,6,7) by (intro inv_finish [OF chan assms(5)]) (simp_all add: upto_done_none)
  then show ?thesis by (simp add: got_err_def)
qed

lemma collect_inv_stay:
  assumes "chan_inv cs err taken unsent s" and "\<not> err_taken s \<or> err_taken (s\<lparr>sy_pc := q\<rparr>)"
    and "pc_inv cs err taken (s\<lparr>sy_pc := q\<rparr>)"
  shows "collect_inv cs err (s\<lparr>sy_pc := q\<rparr>)"
proof -
  have "chan_inv cs err taken unsent (s\<lparr>sy_pc := q\<rparr>)"
    by (rule chan_inv_same [OF assms(1,2)]) simp_all
  with assms(3) show ?thesis by (auto simp: collect_inv_def)
qed

lemma inv_select:
  assumes chan: "chan_inv cs err taken unsent s" and pc: "pc_inv cs err taken s" and at: "sy_pc s = AtSelect"
    and eof: "\<And>e. err = Some e \<Longrightarrow> \<not> is_eof e"
  shows "collect_inv cs err (recv_select pick s)"
proof -
  have asm: "sy_asm s = foldl accumulate asm_init taken" and nd: "no_done taken"
    using pc at by (simp_all add: pc_inv_def)
  have ctx: "ctx_ok s" using pc by (rule pc_inv_ctx)
  have nt: "\<not> err_taken s" by (simp add: err_taken_def at)
  show ?thesis
  proof (cases "err_ready s \<and> (pick \<or> \<not> chunk_ready s)")
    case True
    show ?thesis
    proof (cases "sy_errs s")
      case Nil
      with True have closed: "sy_errs_closed s" by (simp add: err_ready_def)
      from chan Nil closed nt have "err = None" by (rule chan_inv_no_err)
      then have "collect_inv cs err (s\<lparr>sy_pc := AtDrain\<rparr>)"
        using asm nd ctx closed nt
        by (intro collect_inv_stay [OF chan]) (simp_all add: pc_inv_def ctx_ok_def)
      with True Nil show ?thesis by (simp add: recv_select_def)
    next
      case (Cons x es)
      with chan_inv_err_head [OF chan Cons] obtain e where x: "x = Some e" and "err = Some e" by auto
      from \<open>err = Some e\<close> have "\<not> is_eof e" by (rule eof)
      with Cons x True show ?thesis
        by (simp add: recv_select_def inv_got_err [OF chan _ _ asm ctx])
    qed
  next
    case False
    show ?thesis
    proof (cases "sy_chunks s")
      case (Cons c rest)
      with False have "recv_select pick s = got_chunk c (s\<lparr>sy_chunks := rest\<rparr>)"
        by (auto simp: recv_select_def chunk_ready_def)
      then show ?thesis by (simp add: inv_got_chunk [OF chan Cons nt asm nd ctx])
    next
      case Nil
      then have "chunk_ready s \<Longrightarrow> collect_inv cs err (s\<lparr>sy_pc := AtClosed\<rparr>)"
        using asm nd ctx nt
        by (intro collect_inv_stay [OF chan]) (simp_all add: pc_inv_def ctx_ok_def chunk_ready_def)
      moreover have "collect_inv cs err s" using chan pc by (auto simp: collect_inv_def)
      ultimately show ?thesis using False Nil by (auto simp: recv_select_def)
    qed
  qed
qed

lemma inv_consumer:
  assumes chan: "chan_inv cs err taken unsent s" and pc: "pc_inv cs err taken s"
    and eof: "\<And>e. err = Some e \<Longrightarrow> \<not> is_eof e"
  shows "collect_inv cs err (consumer_step pick s)"
proof -
  have ctx: "ctx_ok s" using pc by (rule pc_inv_ctx)
  show ?thesis
  proof (cases "sy_pc s")
    case AtTop
    then have nt: "\<not> err_taken s" by (simp add: err_taken_def)
    have "collect_inv cs err (s\<lparr>sy_pc := AtSelect\<rparr>)"
      using pc AtTop nt by (intro collect_inv_stay [OF chan]) (simp_all add: pc_inv_def)
    moreover have "sy_ctx s = Some e \<Longrightarrow> collect_inv cs err (finish (Some e) s)" for e
      using pc AtTop ctx by (intro inv_finish [OF chan]) (simp_all add: pc_inv_def ctx_ok_def)
    ultimately show ?thesis using AtTop by (simp add: consumer_step_def split: option.split)
  next
    case AtSelect
    then show ?thesis using inv_select [OF chan pc _ eof] by (simp add: consumer_step_def)
  next
    case AtClosed
    then have nt: "\<not> err_taken s" and empty: "sy_chunks s = []" and closed: "sy_chunks_closed s"
      and asm: "sy_asm s = foldl accumulate asm_init taken" and nd: "no_done taken"
      using pc by (simp_all add: err_taken_def pc_inv_def)
    show ?thesis
    proof (cases "sy_errs s")
      case Nil
      have "sy_errs_closed s" using chan_inv_all_taken [OF chan empty closed] by simp
      with chan Nil nt have "err = None" using chan_inv_no_err by blast
      then have "collect_inv cs err (got_err EofErr s)" by (rule inv_eof [OF chan empty closed _ asm nd ctx])
      with AtClosed Nil show ?thesis by (simp add: consumer_step_def recv_closed_def)
    next
      case (Cons x es)
      with chan_inv_err_head [OF chan Cons] obtain e where x: "x = Some e" and "err = Some e" by auto
      from \<open>err = Some e\<close> have "\<not> is_eof e" by (rule eof)
      with Cons x have "collect_inv cs err (got_err e (s\<lparr>sy_errs := es\<rparr>))"
        by (intro inv_got_err [OF chan _ _ asm ctx]) simp_all
      with AtClosed Cons x show ?thesis by (simp add: consumer_step_def recv_closed_def)
    qed
  next
    case AtDrain
    then have nt: "\<not> err_taken s" and none: "err = None"
      and asm: "sy_asm s = foldl accumulate asm_init taken" and nd: "no_done taken"
      using pc by (simp_all add: err_taken_def pc_inv_def)
    show ?thesis
    proof (cases "sy_chunks s")
      case (Cons c rest)
      then show ?thesis
        using AtDrain inv_got_chunk [OF chan Cons nt asm nd ctx]
        by (simp add: consumer_step_def recv_drain_def)
    next
      case Nil
      have "sy_chunks_closed s \<Longrightarrow> collect_inv cs err (got_err EofErr s)"
        using Nil none asm nd ctx by (intro inv_eof [OF chan])
      moreover have "collect_inv cs err s" using chan pc by (auto simp: collect_inv_def)
      ultimately show ?thesis using AtDrain Nil by (simp add: consumer_step_def recv_drain_def)
    qed
  next
    case (AtErrDrain e)
    then have asm: "sy_asm s = foldl accumulate asm_init taken" and err: "err = Some e"
      using pc by (simp_all add: pc_inv_def)
    show ?thesis
    proof (cases "sy_chunks s")
      case (Cons c rest)
      define t where "t = s\<lparr>sy_chunks := rest, sy_asm := accumulate (sy_asm s) c\<rparr>"
      have "chan_inv cs err (taken @ [c]) unsent t"
        by (rule chan_inv_take [OF chan Cons]) (simp_all add: t_def err_taken_def AtErrDrain)
      moreover have "pc_inv cs err (taken @ [c]) t"
        using AtErrDrain asm err ctx by (simp add: pc_inv_def t_def ctx_ok_def)
      ultimately show ?thesis
        using AtErrDrain Cons by (auto simp: consumer_step_def err_drain_def collect_inv_def t_def)
    next
      case Nil
      then show ?thesis
        using AtErrDrain inv_finish [OF chan asm ctx, of "Some e"] err
        by (simp add: consumer_step_def err_drain_def)
    qed
  next
    case (Finished r x)
    then show ?thesis using chan pc by (auto simp: consumer_step_def collect_inv_def)
  qed
qed

lemma reaches_inv:
  assumes "reaches (producer_script cs err) s" and eof: "\<And>e. err = Some e \<Longrightarrow> \<not> is_eof e"
  shows "collect_inv cs err s"
  using assms(1)
proof (induction rule: reaches.induct)
  case start
  show ?case by (rule collect_inv_init)
next
  case (step s t)
  from step.hyps(2) show ?case
  proof cases
    case (produce m ms)
    with step.IH show ?thesis by (simp add: collect_inv_move)
  next
    case (consume pick_err)
    from step.IH obtain taken unsent where "chan_inv cs err taken unsent s" "pc_inv cs err taken s"
      by (auto simp: collect_inv_def)
    with consume eof inv_consumer show ?thesis by blast
  next
    case (cancel e)
    with step.IH show ?thesis by (simp add: collect_inv_cancel)
  qed
qed

text \<open>
  C1: Collect under every interleaving with the provider and every choice of its selects. A
  nil error means the whole stream was read: the response is assembled from all the chunks
  up to the done chunk, and if there was no done chunk the provider recorded no error. With
  an error the response is assembled from some prefix of the chunks, in order, and the error
  is the provider's or the context's. So an upstream failure is never reported as success.
\<close>

theorem collect_sound:
  assumes "reaches (producer_script cs err) s" and "sy_pc s = Finished r x"
    and "case err of None \<Rightarrow> True | Some e \<Rightarrow> \<not> is_eof e"
  shows "(case x of
            None \<Rightarrow> r = assemble (upto_done cs) \<and> (no_done cs \<longrightarrow> err = None)
          | Some e \<Rightarrow> (\<exists>n. r = assemble (take n cs)) \<and> (err = Some e \<or> e = CanceledErr \<or> e = DeadlineErr))"
proof -
  have "collect_inv cs err s" using assms(1,3) by (intro reaches_inv) auto
  then obtain taken unsent where "chan_inv cs err taken unsent s" and pc: "pc_inv cs err taken s"
    by (auto simp: collect_inv_def)
  then have "taken = take (length taken) cs" by (simp add: chan_inv_def)
  then have "\<exists>n. taken = take n cs" ..
  with pc assms(2) show ?thesis by (auto simp: pc_inv_def split: option.splits)
qed

subsection \<open>Runs under a given schedule\<close>

datatype turn = Produce | Consume bool | Cancel

fun take_turn :: "turn \<Rightarrow> collect_sys \<Rightarrow> collect_sys" where
  "take_turn Produce s = (case sy_script s of [] \<Rightarrow> s | m # ms \<Rightarrow> do_move m (s\<lparr>sy_script := ms\<rparr>))"
| "take_turn (Consume b) s = consumer_step b s"
| "take_turn Cancel s = s\<lparr>sy_ctx := Some CanceledErr\<rparr>"

definition run_turns :: "turn list \<Rightarrow> collect_sys \<Rightarrow> collect_sys" where
  "run_turns ts s = fold take_turn ts s"

lemma reaches_turn: "reaches script s \<Longrightarrow> reaches script (take_turn t s)"
  by (cases t) (auto intro: reaches.step sys_step.intros split: list.split)

lemma reaches_turns: "reaches script s \<Longrightarrow> reaches script (run_turns ts s)"
  unfolding run_turns_def by (induction ts arbitrary: s) (simp_all add: reaches_turn)

theorem collect_sound_witness:
  "let cs = [text_chunk ''a'', text_chunk ''b''];
       s = run_turns (replicate 5 Produce @ concat (replicate 3 [Consume False, Consume True])
             @ replicate 3 (Consume True))
             (collect_init (producer_script cs (Some (PlainErr ''reset''))))
   in sy_pc s = Finished (assemble cs) (Some (PlainErr ''reset''))
      \<and> (\<exists>n. assemble cs = assemble (take n cs))
      \<and> (Some (PlainErr ''reset'') = Some (PlainErr ''reset'') \<or> PlainErr ''reset'' = CanceledErr
         \<or> PlainErr ''reset'' = DeadlineErr)"
proof -
  define cs where "cs = [text_chunk ''a'', text_chunk ''b'']"
  define s where "s = run_turns (replicate 5 Produce @ concat (replicate 3 [Consume False, Consume True])
             @ replicate 3 (Consume True))
             (collect_init (producer_script cs (Some (PlainErr ''reset''))))"
  have pc: "sy_pc s = Finished (assemble cs) (Some (PlainErr ''reset''))"
    by (simp add: s_def cs_def run_turns_def producer_script_def collect_init_def consumer_step_def
        recv_select_def err_ready_def chunk_ready_def got_chunk_def got_err_def err_drain_def finish_def
        assemble_def text_chunk_def blank_chunk_def Let_def numeral_eq_Suc)
  have "reaches (producer_script cs (Some (PlainErr ''reset''))) s"
    unfolding s_def by (intro reaches_turns reaches.start)
  from collect_sound [OF this pc] pc show ?thesis unfolding s_def cs_def by (simp add: Let_def)
qed

subsection \<open>Collect returns\<close>

text \<open>
  A bound on the channel operations left: every effective step of the provider or of the
  caller lowers it, and a cancellation does not raise it.
\<close>

definition pc_work :: "collect_pc \<Rightarrow> nat" where
  "pc_work q = (case q of AtTop \<Rightarrow> 3 | AtSelect \<Rightarrow> 2 | AtClosed \<Rightarrow> 1 | AtDrain \<Rightarrow> 1
     | AtErrDrain e \<Rightarrow> 1 | Finished r x \<Rightarrow> 0)"

definition work_left :: "collect_sys \<Rightarrow> nat" where
  "work_left s = 5 * length (sy_script s) + 4 * length (sy_chunks s) + 4 * length (sy_errs s)
     + pc_work (sy_pc s)"

lemmas consumer_defs = consumer_step_def recv_select_def recv_closed_def recv_drain_def err_drain_def
  got_chunk_def got_err_def finish_def chunk_ready_def err_ready_def work_left_def pc_work_def

lemma work_left_produce:
  "sy_script s = m # ms \<Longrightarrow> work_left (do_move m (s\<lparr>sy_script := ms\<rparr>)) < work_left s"
  by (cases m) (simp_all add: work_left_def)

lemma work_left_consume:
  "consumer_step b s = s \<or> work_left (consumer_step b s) < work_left s"
  by (cases "sy_pc s"; cases "sy_errs s"; cases "sy_chunks s")
     (auto simp: consumer_defs Let_def split: option.splits)

lemma consumer_ready:
  assumes "sy_chunks_closed s" and "sy_errs_closed s" and "\<forall>r x. sy_pc s \<noteq> Finished r x"
  shows "sy_pc (consumer_step b s) \<noteq> sy_pc s \<or> work_left (consumer_step b s) < work_left s"
  using assms
  by (cases "sy_pc s"; cases "sy_errs s"; cases "sy_chunks s")
     (auto simp: consumer_defs Let_def split: option.splits)

lemma consumer_frame [simp]:
  "sy_script (consumer_step b s) = sy_script s"
  "sy_chunks_closed (consumer_step b s) = sy_chunks_closed s"
  "sy_errs_closed (consumer_step b s) = sy_errs_closed s"
  by (cases "sy_pc s"; cases "sy_errs s"; cases "sy_chunks s";
      auto simp: consumer_defs Let_def split: option.splits)+

lemma consumer_strict:
  assumes "sy_chunks_closed s" and "sy_errs_closed s" and "\<forall>r x. sy_pc s \<noteq> Finished r x"
  shows "work_left (consumer_step b s) < work_left s"
  using consumer_ready [OF assms, of b] work_left_consume [of b s] by auto

lemma script_closes:
  "reaches (producer_script cs err) s \<Longrightarrow>
     (\<exists>ms. sy_script s = ms @ [CloseErrs, CloseChunks])
     \<or> (sy_script s = [CloseChunks] \<and> sy_errs_closed s)
     \<or> (sy_script s = [] \<and> sy_errs_closed s \<and> sy_chunks_closed s)"
proof (induction rule: reaches.induct)
  case start
  then show ?case by (auto simp: collect_init_def producer_script_def)
next
  case (step s t)
  from step.hyps(2) show ?case
  proof cases
    case (produce m ms)
    with step.IH show ?thesis by (cases m) (auto simp: append_eq_Cons_conv Cons_eq_append_conv)
  next
    case (consume b)
    with step.IH show ?thesis by simp
  next
    case (cancel e)
    with step.IH show ?thesis by simp
  qed
qed



text \<open>
  An error on the error channel that wraps \<open>io.EOF\<close> is taken for the end of the stream:
  Collect then returns the partial response with a nil error. (Providers never send one.)
\<close>

lemma collect_swallows_eof:
  "sy_pc (run_turns (replicate 4 Produce @ [Consume True, Consume True])
            (collect_init (producer_script [text_chunk ''a''] (Some (WrapErr ''read stream: '' EofErr)))))
   = Finished empty_response None"
  by (simp add: run_turns_def producer_script_def collect_init_def consumer_step_def
        recv_select_def err_ready_def chunk_ready_def got_err_def finish_def
        asm_defs empty_response_def Let_def numeral_eq_Suc)

end
