(* ===== verification/Regexp.thy ===== *)
theory Regexp
  imports Prelude
begin

text \<open>
  What the library uses of Go's \<open>regexp\<close> and \<open>unicode/utf8\<close>: UTF-8 decoding, and a
  leftmost-first matcher. A pattern is matched over the runes of the text; \<open>ends\<close> lists
  where a match that starts at a given rune can end, in the order of preference of Perl
  and Go (left alternative first, greedy repetition longest first), so the match Go
  reports is the first of the leftmost position that has one.
\<close>

subsection \<open>Runes\<close>

text \<open>
  \<open>utf8.DecodeRune\<close>: how many bytes the first rune of a text takes. A byte that starts
  no valid sequence is a rune of its own.
\<close>

definition byte_in :: "char \<Rightarrow> nat \<Rightarrow> nat \<Rightarrow> bool" where
  "byte_in c lo hi = (lo \<le> of_char c \<and> of_char c \<le> hi)"

definition continuation :: "char \<Rightarrow> bool" where
  "continuation c = byte_in c 0x80 0xBF"

definition second_ok :: "char \<Rightarrow> char \<Rightarrow> bool" where
  "second_ok c d =
     (if of_char c = (0xE0 :: nat) then byte_in d 0xA0 0xBF
      else if of_char c = (0xED :: nat) then byte_in d 0x80 0x9F
      else if of_char c = (0xF0 :: nat) then byte_in d 0x90 0xBF
      else if of_char c = (0xF4 :: nat) then byte_in d 0x80 0x8F
      else continuation d)"

fun rune_width :: "bytes \<Rightarrow> nat" where
  "rune_width (c # d # e # f # _) =
     (if byte_in c 0xC2 0xDF \<and> continuation d then 2
      else if byte_in c 0xE0 0xEF \<and> second_ok c d \<and> continuation e then 3
      else if byte_in c 0xF0 0xF4 \<and> second_ok c d \<and> continuation e \<and> continuation f then 4
      else 1)"
| "rune_width [c, d, e] =
     (if byte_in c 0xC2 0xDF \<and> continuation d then 2
      else if byte_in c 0xE0 0xEF \<and> second_ok c d \<and> continuation e then 3 else 1)"
| "rune_width [c, d] = (if byte_in c 0xC2 0xDF \<and> continuation d then 2 else 1)"
| "rune_width _ = 1"

lemma rune_width_pos [simp]: "0 < rune_width s"
  by (cases s rule: rune_width.cases) simp_all

type_synonym rune = string

function runes :: "bytes \<Rightarrow> rune list" where
  "runes s = (if s = [] then [] else take (rune_width s) s # runes (drop (rune_width s) s))"
  by pat_completeness auto
termination
  by (relation "measure length") simp_all

declare runes.simps [simp del]

lemma concat_runes [simp]: "concat (runes s) = s"
proof (induction s rule: runes.induct)
  case (1 s)
  show ?case
  proof (cases "s = []")
    case True
    then show ?thesis by (simp add: runes.simps)
  next
    case False
    with 1 show ?thesis by (subst runes.simps) simp
  qed
qed

subsection \<open>Patterns\<close>

datatype regex =
    Eps
  | Cls "rune \<Rightarrow> bool"
  | Sq regex regex
  | Alt regex regex
  | Opt regex
  | Star regex
  | WordBoundary

fun star_ends :: "(nat \<Rightarrow> nat list) \<Rightarrow> nat \<Rightarrow> nat \<Rightarrow> nat list" where
  "star_ends st 0 i = [i]"
| "star_ends st (Suc n) i = concat (map (star_ends st n) (filter (\<lambda>j. i < j) (st i))) @ [i]"

text \<open>\<open>\b\<close> and \<open>\w\<close> are ASCII in Go.\<close>

definition word_char :: "char \<Rightarrow> bool" where
  "word_char c = (byte_in c 48 57 \<or> byte_in c 65 90 \<or> byte_in c 97 122 \<or> c = CHR ''_'')"

definition word_rune :: "rune \<Rightarrow> bool" where
  "word_rune r = (case r of [c] \<Rightarrow> word_char c | _ \<Rightarrow> False)"

definition at_boundary :: "rune list \<Rightarrow> nat \<Rightarrow> bool" where
  "at_boundary t i =
     ((0 < i \<and> i \<le> length t \<and> word_rune (t ! (i - 1))) \<noteq> (i < length t \<and> word_rune (t ! i)))"

fun ends :: "regex \<Rightarrow> rune list \<Rightarrow> nat \<Rightarrow> nat list" where
  "ends Eps t i = [i]"
| "ends (Cls P) t i = (if i < length t \<and> P (t ! i) then [Suc i] else [])"
| "ends (Sq a b) t i = concat (map (ends b t) (ends a t i))"
| "ends (Alt a b) t i = ends a t i @ ends b t i"
| "ends (Opt a) t i = ends a t i @ [i]"
| "ends (Star a) t i = star_ends (ends a t) (length t - i) i"
| "ends WordBoundary t i = (if at_boundary t i then [i] else [])"

lemma star_ends_ge: "j \<in> set (star_ends st n i) \<Longrightarrow> i \<le> j"
  by (induction n arbitrary: i) fastforce+

lemma ends_ge: "j \<in> set (ends r t i) \<Longrightarrow> i \<le> j"
proof (induction r arbitrary: i j)
  case (Sq a b)
  from Sq.prems obtain k where "k \<in> set (ends a t i)" "j \<in> set (ends b t k)" by auto
  with Sq.IH show ?case by (meson order_trans)
qed (auto simp: star_ends_ge split: if_splits)

definition find_match :: "regex \<Rightarrow> rune list \<Rightarrow> nat \<Rightarrow> (nat \<times> nat) option" where
  "find_match r t i =
     (case find (\<lambda>k. ends r t k \<noteq> []) [i..<Suc (length t)] of
        None \<Rightarrow> None
      | Some k \<Rightarrow> Some (k, hd (ends r t k)))"

lemma find_match_bounds:
  assumes "find_match r t i = Some (a, b)"
  shows "i \<le> a \<and> a \<le> b"
proof -
  from assms have f: "find (\<lambda>k. ends r t k \<noteq> []) [i..<Suc (length t)] = Some a"
    and b: "b = hd (ends r t a)"
    by (simp_all add: find_match_def del: upt_Suc split: option.splits)
  from find_Some_in [OF f] have "i \<le> a" and "ends r t a \<noteq> []" by auto
  then show ?thesis using b ends_ge [of b r t a] by simp
qed

text \<open>\<open>FindString\<close> of a pattern anchored at the start; empty when there is no match.\<close>

definition match_prefix :: "regex \<Rightarrow> bytes \<Rightarrow> bytes option" where
  "match_prefix r s =
     (case ends r (runes s) 0 of
        [] \<Rightarrow> None
      | b # _ \<Rightarrow> Some (concat (take b (runes s))))"

text \<open>
  \<open>ReplaceAllStringFunc\<close> for a pattern that matches at least one rune, as all the
  library's patterns do.
\<close>

function replace_from :: "regex \<Rightarrow> (bytes \<Rightarrow> bytes) \<Rightarrow> rune list \<Rightarrow> nat \<Rightarrow> bytes" where
  "replace_from r f t i =
     (case find_match r t i of
        None \<Rightarrow> concat (drop i t)
      | Some (a, b) \<Rightarrow>
          if i < length t \<and> i < b then
            concat (take (a - i) (drop i t)) @ f (concat (take (b - a) (drop a t)))
              @ replace_from r f t b
          else concat (drop i t))"
  by pat_completeness auto
termination
  by (relation "measure (\<lambda>(r, f, t, i). length t - i)") auto

declare replace_from.simps [simp del]

definition replace_all_func :: "regex \<Rightarrow> (bytes \<Rightarrow> bytes) \<Rightarrow> bytes \<Rightarrow> bytes" where
  "replace_all_func r f s = replace_from r f (runes s) 0"

lemma match_prefix_prefix: "match_prefix r s = Some p \<Longrightarrow> prefix p s"
proof -
  assume "match_prefix r s = Some p"
  then obtain b where "p = concat (take b (runes s))"
    by (auto simp: match_prefix_def split: list.splits)
  moreover have "concat (take b (runes s)) @ concat (drop b (runes s)) = s"
    by (simp flip: concat_append)
  ultimately have "s = p @ concat (drop b (runes s))" by simp
  then show "prefix p s" by (rule prefixI)
qed

subsection \<open>Building patterns\<close>

text \<open>A class of ASCII characters, and the horizontal ellipsis U+2026.\<close>

definition ascii :: "(char \<Rightarrow> bool) \<Rightarrow> rune \<Rightarrow> bool" where
  "ascii P r = (case r of [c] \<Rightarrow> of_char c < (128 :: nat) \<and> P c | _ \<Rightarrow> False)"

definition ellipsis :: rune where
  "ellipsis = [CHR 0xE2, CHR 0x80, CHR 0xA6]"

text \<open>
  Case-insensitive matching of an ASCII letter also accepts the two runes Unicode folds to
  ASCII letters: U+017F (long s) and U+212A (the Kelvin sign).
\<close>

definition long_s :: rune where
  "long_s = [CHR 0xC5, CHR 0xBF]"

definition kelvin :: rune where
  "kelvin = [CHR 0xE2, CHR 0x84, CHR 0xAA]"

definition fold_char :: "char \<Rightarrow> rune \<Rightarrow> bool" where
  "fold_char c r =
     (r = [c] \<or> (case r of [d] \<Rightarrow> lower_char d = lower_char c | _ \<Rightarrow> False)
      \<or> (lower_char c = CHR ''s'' \<and> r = long_s) \<or> (lower_char c = CHR ''k'' \<and> r = kelvin))"

fun lit :: "string \<Rightarrow> regex" where
  "lit [] = Eps"
| "lit [c] = Cls (\<lambda>r. r = [c])"
| "lit (c # cs) = Sq (Cls (\<lambda>r. r = [c])) (lit cs)"

fun lit_fold :: "string \<Rightarrow> regex" where
  "lit_fold [] = Eps"
| "lit_fold [c] = Cls (fold_char c)"
| "lit_fold (c # cs) = Sq (Cls (fold_char c)) (lit_fold cs)"

fun at_least :: "nat \<Rightarrow> regex \<Rightarrow> regex" where
  "at_least 0 r = Star r"
| "at_least (Suc n) r = Sq r (at_least n r)"

fun alts :: "regex list \<Rightarrow> regex" where
  "alts [] = Cls (\<lambda>_. False)"
| "alts [r] = r"
| "alts (r # rs) = Alt r (alts rs)"

fun seqs :: "regex list \<Rightarrow> regex" where
  "seqs [] = Eps"
| "seqs [r] = r"
| "seqs (r # rs) = Sq r (seqs rs)"

text \<open>\<open>\s\<close> is ASCII: tab, newline, form feed, carriage return and space.\<close>

definition space_rune :: "rune \<Rightarrow> bool" where
  "space_rune r = (r \<in> {[CHR 0x09], [CHR 0x0A], [CHR 0x0C], [CHR 0x0D], [CHR 0x20]})"

subsection \<open>Maximal runs\<close>

text \<open>A repeated class matches the longest run.\<close>

lemma star_class_first:
  "n = length t - i \<Longrightarrow> i \<le> length t \<Longrightarrow>
    \<exists>js. star_ends (ends (Cls P) t) n i = (i + length (takeWhile P (drop i t))) # js"
proof (induction n arbitrary: i)
  case (Suc n)
  then have i: "i < length t" by simp
  then have dr: "drop i t = t ! i # drop (Suc i) t" by (simp add: Cons_nth_drop_Suc)
  show ?case
  proof (cases "P (t ! i)")
    case True
    moreover from Suc i obtain js where
      "star_ends (ends (Cls P) t) n (Suc i) = (Suc i + length (takeWhile P (drop (Suc i) t))) # js"
      by (metis Suc_diff_Suc Suc_leI diff_Suc_Suc nat.inject)
    ultimately show ?thesis using i by (simp add: dr del: ends.simps) (simp add: ends.simps)
  next
    case False
    then show ?thesis by (simp add: dr)
  qed
qed simp

end
