(* ===== verification/Encodings.thy ===== *)
theory Encodings
  imports Regexp LlmTypes
begin

text \<open>
  The encodings the providers write by hand or through the standard library: base64 and data
  URLs (\<open>encoding/base64\<close>), a JSON string as \<open>json.Encoder\<close> writes it with HTML escaping off,
  and \<open>llm/internal/toolresult\<close>, which uses it to mark a failed tool result.
\<close>

subsection \<open>Base64 and data URLs\<close>

definition b64_char :: "nat \<Rightarrow> char" where
  "b64_char n =
     (if n < 26 then char_of (65 + n)
      else if n < 52 then char_of (71 + n)
      else if n < 62 then char_of (n - 4)
      else if n = 62 then CHR ''+'' else CHR ''/'')"

text \<open>\<open>base64.StdEncoding.EncodeToString\<close>.\<close>

fun base64 :: "bytes \<Rightarrow> string" where
  "base64 (a # b # c # rest) =
     (let x = of_char a; y = of_char b; z = of_char c in
      b64_char (x div 4) # b64_char (16 * (x mod 4) + y div 16)
        # b64_char (4 * (y mod 16) + z div 64) # b64_char (z mod 64) # base64 rest)"
| "base64 [a, b] =
     (let x = of_char a; y = of_char b in
      [b64_char (x div 4), b64_char (16 * (x mod 4) + y div 16), b64_char (4 * (y mod 16)), CHR ''=''])"
| "base64 [a] =
     (let x = of_char a in [b64_char (x div 4), b64_char (16 * (x mod 4)), CHR ''='', CHR ''=''])"
| "base64 [] = []"

text \<open>
  The URL of inline data. The media type is given by the caller of the block; OpenAI's messages
  fall back to \<open>application/octet-stream\<close>.
\<close>

definition data_url :: "string \<Rightarrow> bytes \<Rightarrow> string" where
  "data_url media_type d = ''data:'' @ media_type @ '';base64,'' @ base64 d"

text \<open>A decoder, as a server would read them back.\<close>

definition b64_value :: "char \<Rightarrow> nat option" where
  "b64_value c =
     (let n = of_char c :: nat in
      if 65 \<le> n \<and> n \<le> 90 then Some (n - 65)
      else if 97 \<le> n \<and> n \<le> 122 then Some (n - 71)
      else if 48 \<le> n \<and> n \<le> 57 then Some (n + 4)
      else if c = CHR ''+'' then Some 62
      else if c = CHR ''/'' then Some 63 else None)"

fun unbase64 :: "string \<Rightarrow> bytes option" where
  "unbase64 [] = Some []"
| "unbase64 (p # q # r # s # rest) =
     (case (b64_value p, b64_value q) of
        (Some w, Some x) \<Rightarrow>
          (if r = CHR ''='' \<and> s = CHR ''='' \<and> rest = [] then Some [char_of (4 * w + x div 16)]
           else (case b64_value r of
             None \<Rightarrow> None
           | Some y \<Rightarrow>
               if s = CHR ''='' \<and> rest = [] then
                 Some [char_of (4 * w + x div 16), char_of (16 * (x mod 16) + y div 4)]
               else (case (b64_value s, unbase64 rest) of
                 (Some z, Some bs) \<Rightarrow>
                   Some (char_of (4 * w + x div 16) # char_of (16 * (x mod 16) + y div 4)
                         # char_of (64 * (y mod 4) + z) # bs)
               | _ \<Rightarrow> None)))
      | _ \<Rightarrow> None)"
| "unbase64 _ = None"

definition read_data_url :: "string \<Rightarrow> (string \<times> bytes) option" where
  "read_data_url u =
     (if has_prefix u ''data:'' then
        (case cut CHR '';'' (drop 5 u) of
           (mt, rest, True) \<Rightarrow>
             if has_prefix rest ''base64,'' then map_option (Pair mt) (unbase64 (drop 7 rest)) else None
         | _ \<Rightarrow> None)
      else None)"

lemma of_char_of [simp]: "n < 256 \<Longrightarrow> (of_char (char_of n) :: nat) = n"
  by simp

lemma b64_value_char [simp]: "n < 64 \<Longrightarrow> b64_value (b64_char n) = Some n"
  by (simp add: b64_value_def b64_char_def Let_def) presburger

lemma b64_char_no_pad [simp]: "n < 64 \<Longrightarrow> b64_char n \<noteq> CHR ''=''"
  using b64_value_char [of n] by (auto simp: b64_value_def)

lemma of_char_less [simp]: "(of_char c :: nat) < 256"
  by (simp add: of_char_def)

lemma byte_parts:
  assumes "y < (256 :: nat)"
  shows "y div 4 < 64" "y div 16 < 16" "y div 64 < 4"
    "y div 16 div 16 = 0" "y div 64 div 4 = 0" "y div 16 mod 16 = y div 16" "y div 64 mod 4 = y div 64"
  using assms by (simp_all add: div_less_iff_less_mult)

lemma sextets:
  assumes "x < (256 :: nat)" "y < 256"
  shows "16 * (x mod 4) + y div 16 < 64" "4 * (x mod 16) + y div 64 < 64"
    "16 * (x mod 4) < 64" "4 * (x mod 16) < 64"
proof -
  have "x mod 4 < 4" "x mod 16 < 16" by simp_all
  with byte_parts [OF assms(2)]
  show "16 * (x mod 4) + y div 16 < 64" "4 * (x mod 16) + y div 64 < 64"
    "16 * (x mod 4) < 64" "4 * (x mod 16) < 64" by linarith+
qed

lemma unbase64_base64 [simp]: "unbase64 (base64 d) = Some d"
  by (induction d rule: base64.induct)
     (simp_all add: Let_def sextets byte_parts)

lemma cut_fresh: "c \<notin> set s \<Longrightarrow> cut c (s @ c # t) = (s, t, True)"
  by (induction s) auto

text \<open>
  inline data survives its data URL. Whatever the bytes of an image, a reader that splits
  the URL at the first semicolon and decodes the base64 gets back the media type and the bytes,
  provided the media type itself carries no parameter.
\<close>

theorem data_url_round_trip:
  assumes "CHR '';'' \<notin> set mt"
  shows "read_data_url (data_url mt d) = Some (mt, d)"
  using cut_fresh [OF assms, of "''base64,'' @ base64 d"]
  by (simp add: read_data_url_def data_url_def)

theorem data_url_round_trip_witness:
  "read_data_url (data_url ''image/png'' [CHR 0x89, CHR ''P'']) = Some (''image/png'', [CHR 0x89, CHR ''P''])
   \<and> data_url ''image/png'' [CHR 0x89, CHR ''P''] = ''data:image/png;base64,iVA=''"
  by (rule conjI, rule data_url_round_trip) (simp, code_simp)

subsection \<open>JSON strings\<close>

text \<open>
  A string as \<open>json.Encoder\<close> writes it after \<open>SetEscapeHTML(false)\<close>: the two-character
  escapes, other control characters and the two line separators as a hexadecimal escape, and
  the replacement character for a byte that is not UTF-8.
\<close>

definition hex4 :: "nat \<Rightarrow> string" where
  "hex4 n = [CHR 0x5C, CHR ''u'', hex_digit (n div 4096), hex_digit (n div 256 mod 16),
     hex_digit (n div 16 mod 16), hex_digit (n mod 16)]"

definition short_escapes :: "(char \<times> char) list" where
  "short_escapes = [(CHR 0x22, CHR 0x22), (CHR 0x5C, CHR 0x5C), (CHR 0x08, CHR ''b''),
     (CHR 0x0C, CHR ''f''), (CHR 0x0A, CHR ''n''), (CHR 0x0D, CHR ''r''), (CHR 0x09, CHR ''t'')]"

definition json_rune :: "rune \<Rightarrow> string" where
  "json_rune r =
     (case r of
        [c] \<Rightarrow>
          (case map_of short_escapes c of
             Some e \<Rightarrow> [CHR 0x5C, e]
           | None \<Rightarrow>
               if (of_char c :: nat) < 32 then hex4 (of_char c)
               else if (of_char c :: nat) < 128 then [c] else [CHR 0x5C] @ ''ufffd'')
      | _ \<Rightarrow>
          if r = [CHR 0xE2, CHR 0x80, CHR 0xA8] then [CHR 0x5C] @ ''u2028''
          else if r = [CHR 0xE2, CHR 0x80, CHR 0xA9] then [CHR 0x5C] @ ''u2029'' else r)"

definition json_text :: "string \<Rightarrow> string" where
  "json_text s = concat (map json_rune (runes s))"

definition json_string :: "string \<Rightarrow> string" where
  "json_string s = [CHR 0x22] @ json_text s @ [CHR 0x22]"

subsection \<open>\<open>toolresult.Content\<close>\<close>

definition unspecified_error :: string where
  "unspecified_error = ''tool execution failed; no error message was provided''"

definition tool_result_content :: "string \<Rightarrow> bool \<Rightarrow> string" where
  "tool_result_content txt is_error =
     (if \<not> is_error then txt
      else ''{'' @ json_string ''error'' @ '':'' @ json_string (if txt = [] then unspecified_error else txt) @ ''}'')"

subsection \<open>Reading a failed result back\<close>

text \<open>
  A reader of JSON strings: the text up to the closing quote, and what follows it. An escape
  \<open>\u\<close> stands for a code point of the basic plane, written in UTF-8.
\<close>

definition utf8 :: "nat \<Rightarrow> bytes" where
  "utf8 n =
     (if n < 0x80 then [char_of n]
      else if n < 0x800 then [char_of (0xC0 + n div 64), char_of (0x80 + n mod 64)]
      else [char_of (0xE0 + n div 4096), char_of (0x80 + n div 64 mod 64), char_of (0x80 + n mod 64)])"

fun read_json :: "string \<Rightarrow> (string \<times> string) option" where
  "read_json [] = None"
| "read_json (c # s) =
     (if c = CHR 0x22 then Some ([], s)
      else if c \<noteq> CHR 0x5C then map_option (apfst ((#) c)) (read_json s)
      else (case s of
        e # s1 \<Rightarrow>
          if e = CHR ''u'' then
            (case s1 of
               w # x # y # z # s2 \<Rightarrow>
                 map_option (apfst ((@) (utf8 (4096 * unhex w + 256 * unhex x + 16 * unhex y + unhex z))))
                   (read_json s2)
             | _ \<Rightarrow> None)
          else (case map_of (map (\<lambda>(a, b). (b, a)) short_escapes) e of
                  Some d \<Rightarrow> map_option (apfst ((#) d)) (read_json s1)
                | None \<Rightarrow> None)
      | [] \<Rightarrow> None))"

text \<open>The text of a result object, if it is one.\<close>

definition read_tool_error :: "string \<Rightarrow> string option" where
  "read_tool_error s =
     (if has_prefix s (''{'' @ json_string ''error'' @ '':'' @ [CHR 0x22]) then
        (case read_json (drop (length (''{'' @ json_string ''error'' @ '':'' @ [CHR 0x22])) s) of
           Some (t, rest) \<Rightarrow> if rest = ''}'' then Some t else None
         | None \<Rightarrow> None)
      else None)"

definition valid_utf8 :: "string \<Rightarrow> bool" where
  "valid_utf8 s = list_all (\<lambda>r. length r = 1 \<longrightarrow> (of_char (hd r) :: nat) < 128) (runes s)"

lemma runes_Nil [simp]: "runes [] = []"
  by (subst runes.simps) simp

lemma set_runes:
  "s \<noteq> [] \<Longrightarrow> set (runes s) = insert (take (rune_width s) s) (set (runes (drop (rune_width s) s)))"
  by (subst runes.simps) simp

lemma high_bytes:
  "byte_in c lo hi \<Longrightarrow> 128 \<le> lo \<Longrightarrow> 128 \<le> (of_char c :: nat)"
  "continuation c \<Longrightarrow> 128 \<le> (of_char c :: nat)"
  "second_ok d c \<Longrightarrow> 128 \<le> (of_char c :: nat)"
  by (auto simp: byte_in_def continuation_def second_ok_def split: if_splits)

lemma wide_rune:
  "1 < rune_width s \<Longrightarrow> list_all (\<lambda>c. 128 \<le> (of_char c :: nat)) (take (rune_width s) s)"
  by (cases s rule: rune_width.cases) (auto dest: high_bytes split: if_splits)

lemma rune_multi:
  "r \<in> set (runes s) \<Longrightarrow> 1 < length r \<Longrightarrow> list_all (\<lambda>c. 128 \<le> (of_char c :: nat)) r"
proof (induction s rule: runes.induct)
  case (1 s)
  then have s: "s \<noteq> []" by (cases s) simp_all
  show ?case
  proof (cases "r = take (rune_width s) s")
    case True
    then have "1 < rune_width s" using 1(3) by simp
    with True show ?thesis by (simp add: wide_rune)
  next
    case False
    with 1 set_runes [OF s] s show ?thesis by auto
  qed
qed

lemma rune_nonempty: "r \<in> set (runes s) \<Longrightarrow> r \<noteq> []"
proof (induction s rule: runes.induct)
  case (1 s)
  then have s: "s \<noteq> []" by (cases s) simp_all
  from 1(2) consider "r = take (rune_width s) s" | "r \<in> set (runes (drop (rune_width s) s))"
    unfolding set_runes [OF s] by blast
  then show ?case
  proof cases
    case 1
    with s rune_width_pos [of s] show ?thesis by simp
  next
    case 2
    with 1(1) s show ?thesis by blast
  qed
qed

lemma apfst_comp [simp]: "apfst f (apfst g p) = apfst (f \<circ> g) p"
  by (cases p) simp

lemma read_plain:
  "list_all (\<lambda>c. c \<noteq> CHR 0x22 \<and> c \<noteq> CHR 0x5C) r \<Longrightarrow>
    read_json (r @ t) = map_option (apfst ((@) r)) (read_json t)"
proof (induction r)
  case Nil
  show ?case by (cases "read_json t") auto
next
  case (Cons c r)
  then show ?case by (simp add: option.map_comp comp_def)
qed

lemma unhex_digit [simp]: "d < 16 \<Longrightarrow> unhex (hex_digit d) = d"
  by (simp add: unhex_def hex_digit_def is_digit_def Let_def)

lemma read_hex4:
  assumes "n < 65536"
  shows "read_json (hex4 n @ t) = map_option (apfst ((@) (utf8 n))) (read_json t)"
proof -
  have "n div 4096 < 16" using assms by (simp add: div_less_iff_less_mult)
  moreover have "4096 * (n div 4096) + 256 * (n div 256 mod 16) + 16 * (n div 16 mod 16) + n mod 16 = n"
    using mod_mult2_eq [of n 256 16] mod_mult2_eq [of n 16 16] mult_div_mod_eq [of 4096 n] by simp
  ultimately show ?thesis by (simp add: hex4_def)
qed

lemma escape_inverse: "map_of short_escapes c = Some e \<Longrightarrow>
    map_of (map (\<lambda>(a, b). (b, a)) short_escapes) e = Some c \<and> e \<noteq> CHR ''u''"
  by (auto simp: short_escapes_def split: if_splits)

lemma no_escape: "map_of short_escapes c = None \<Longrightarrow> c \<noteq> CHR 0x22 \<and> c \<noteq> CHR 0x5C"
  by (auto simp: short_escapes_def)

lemma append_single [simp]: "(@) [c] = (#) c"
  by (simp add: fun_eq_iff)

lemma read_rune:
  assumes "r \<in> set (runes s)" "valid_utf8 s"
  shows "read_json (json_rune r @ t) = map_option (apfst ((@) r)) (read_json t)"
proof (cases "length r = 1")
  case True
  then obtain c where r: "r = [c]" by (cases r) auto
  with assms have c: "(of_char c :: nat) < 128" by (auto simp: valid_utf8_def list_all_iff)
  show ?thesis
  proof (cases "map_of short_escapes c")
    case None
    note plain = no_escape [OF None]
    have "utf8 (of_char c) = [c]" if "(of_char c :: nat) < 32" using that by (simp add: utf8_def)
    with plain c show ?thesis by (simp add: json_rune_def r None read_hex4)
  next
    case (Some e)
    with escape_inverse [OF Some] show ?thesis by (simp add: json_rune_def r)
  qed
next
  case False
  with rune_nonempty [OF assms(1)] have "1 < length r" by (cases r) auto
  with rune_multi [OF assms(1)] have big: "list_all (\<lambda>c. 128 \<le> (of_char c :: nat)) r" by blast
  have multi: "json_rune r = (if r = [CHR 0xE2, CHR 0x80, CHR 0xA8] then [CHR 0x5C] @ ''u2028''
      else if r = [CHR 0xE2, CHR 0x80, CHR 0xA9] then [CHR 0x5C] @ ''u2029'' else r)"
    using \<open>1 < length r\<close> by (cases r rule: rune_width.cases) (auto simp: json_rune_def)
  have h: "hex4 0x2028 = [CHR 0x5C] @ ''u2028''" "hex4 0x2029 = [CHR 0x5C] @ ''u2029''"
    "utf8 0x2028 = [CHR 0xE2, CHR 0x80, CHR 0xA8]" "utf8 0x2029 = [CHR 0xE2, CHR 0x80, CHR 0xA9]"
    by (simp_all add: hex4_def hex_digit_def utf8_def) (code_simp+)
  have n: "0x2028 < (65536 :: nat)" "0x2029 < (65536 :: nat)" by simp_all
  note seps = read_hex4 [OF n(1), unfolded h] read_hex4 [OF n(2), unfolded h]
  have "list_all (\<lambda>c. c \<noteq> CHR 0x22 \<and> c \<noteq> CHR 0x5C) r" by (rule list.pred_mono_strong [OF big]) auto
  note plain = read_plain [OF this, of t]
  consider "r = [CHR 0xE2, CHR 0x80, CHR 0xA8]" | "r = [CHR 0xE2, CHR 0x80, CHR 0xA9]"
    | "json_rune r = r" using multi by meson
  then show ?thesis
  proof cases
    case 1
    with multi have "json_rune r = [CHR 0x5C] @ ''u2028''" by (simp only: if_True simp_thms)
    then show ?thesis by (simp only: seps 1)
  next
    case 2
    with multi have "json_rune r = [CHR 0x5C] @ ''u2029''" by simp
    then show ?thesis by (simp only: seps 2)
  qed (simp only: plain)
qed

lemma read_runes:
  assumes "valid_utf8 s" "set rs \<subseteq> set (runes s)"
  shows "read_json (concat (map json_rune rs) @ CHR 0x22 # t) = Some (concat rs, t)"
  using assms(2)
  by (induction rs) (simp_all add: read_rune [OF _ assms(1)])

lemma read_json_text: "valid_utf8 s \<Longrightarrow> read_json (json_text s @ CHR 0x22 # t) = Some (s, t)"
  using read_runes [of s "runes s"] by (simp add: json_text_def)

lemma has_prefix_append: "has_prefix (p @ s) p"
  by (auto simp: has_prefix_iff)

lemma drop_all_self: "drop (length p) p = []"
  by simp

lemma read_error_object:
  assumes "valid_utf8 t"
  shows "read_tool_error (''{'' @ json_string ''error'' @ '':'' @ json_string t @ ''}'') = Some t"
proof -
  let ?p = "''{'' @ json_string ''error'' @ '':'' @ [CHR 0x22]"
  have "''{'' @ json_string ''error'' @ '':'' @ json_string t @ ''}'' = ?p @ json_text t @ CHR 0x22 # ''}''"
    by (simp add: json_string_def)
  moreover have "drop (length ?p) (?p @ u) = u" for u by (simp only: drop_append drop_all_self) simp
  ultimately show ?thesis
    by (simp only: read_tool_error_def has_prefix_append if_True read_json_text [OF assms] option.case prod.case refl)
qed

text \<open>
  a failed tool result reads back. The object Content sends for one parses to exactly the
  caller's error text, whatever characters it has (quotes, line breaks, control characters,
  any UTF-8), or to the stand-in text when it is empty; a result that did not fail is sent
  unchanged.
\<close>

theorem tool_result_reads_back:
  assumes "valid_utf8 txt"
  shows "read_tool_error (tool_result_content txt True) = Some (if txt = [] then unspecified_error else txt)
    \<and> tool_result_content txt False = txt"
proof -
  have "valid_utf8 unspecified_error" by code_simp
  with assms have "valid_utf8 (if txt = [] then unspecified_error else txt)" by simp
  from read_error_object [OF this] show ?thesis
    by (simp only: tool_result_content_def not_True_eq_False not_False_eq_True if_False if_True simp_thms)
qed

theorem tool_result_reads_back_witness:
  "read_tool_error (tool_result_content (''bad '' @ [CHR 0x22, CHR 0x0A]) True) = Some (''bad '' @ [CHR 0x22, CHR 0x0A])"
proof -
  have "valid_utf8 (''bad '' @ [CHR 0x22, CHR 0x0A])" by code_simp
  from tool_result_reads_back [OF this] show ?thesis by simp
qed

end
