(* ===== verification/Redact.thy ===== *)
theory Redact
  imports Regexp
begin

text \<open>
  Redaction of credentials (\<open>llm/internal/redact/redact.go\<close>), and the contract its callers
  (every provider's \<open>mapError\<close>, the HTTP client, the proxy's error writer) rely on, as the
  locale \<open>redactor\<close>.
\<close>

subsection \<open>The code\<close>

definition placeholder :: string where
  "placeholder = ''[REDACTED]''"

definition min_exact_len :: nat where
  "min_exact_len = 4"

definition min_fragment_secret_len :: nat where
  "min_fragment_secret_len = 12"

definition min_interior_fragment_len :: nat where
  "min_interior_fragment_len = 6"

definition min_edge_fragment_len :: nat where
  "min_edge_fragment_len = 4"

text \<open>\<open>strings.ReplaceAll\<close> for a non-empty \<open>old\<close>.\<close>

function replace_all :: "string \<Rightarrow> string \<Rightarrow> string \<Rightarrow> string" where
  "replace_all old new s =
     (if s = [] then []
      else if old \<noteq> [] \<and> has_prefix s old then new @ replace_all old new (drop (length old) s)
      else hd s # replace_all old new (tl s))"
  by pat_completeness auto
termination
  by (relation "measure (\<lambda>(old, new, s). length s)") (auto simp: neq_Nil_conv)

declare replace_all.simps [simp del]

definition key_rune :: "rune \<Rightarrow> bool" where
  "key_rune r = ascii (\<lambda>c. word_char c \<or> c = CHR ''-'') r"

definition fragment_chars :: regex where
  "fragment_chars = at_least 1 (Cls key_rune)"

definition masked_key_rune :: "rune \<Rightarrow> bool" where
  "masked_key_rune r = (key_rune r \<or> ascii (\<lambda>c. c \<in> {CHR ''*'', CHR ''.''}) r \<or> r = ellipsis)"

text \<open>The value of an HTTP Authorization header; the pattern is case-insensitive.\<close>

definition auth_rune :: "rune \<Rightarrow> bool" where
  "auth_rune r = (masked_key_rune r \<or> ascii (\<lambda>c. c \<in> {CHR ''+'', CHR ''/'', CHR ''=''}) r
                  \<or> r = long_s \<or> r = kelvin)"

definition value_rune :: "rune \<Rightarrow> bool" where
  "value_rune r = (\<not> space_rune r \<and> r \<notin> {[CHR 0x22], [CHR 0x27], '','', '';''})"

definition separator :: regex where
  "separator = Opt (Cls (\<lambda>r. r \<in> {''_'', '' '', ''-''}))"

definition labels :: regex where
  "labels = alts [
     seqs [lit_fold ''api'', separator, lit_fold ''key''],
     seqs [lit_fold ''api'', separator, lit_fold ''token''],
     seqs [lit_fold ''access'', separator, lit_fold ''token''],
     seqs [lit_fold ''auth'', separator, lit_fold ''token''],
     lit_fold ''authorization'', lit_fold ''secret'', lit_fold ''token'',
     lit_fold ''password'', lit_fold ''passwd'']"

definition quote_opt :: regex where
  "quote_opt = Opt (Cls (\<lambda>r. r = [CHR 0x22]))"

definition colon_or_equals :: regex where
  "colon_or_equals = Cls (\<lambda>r. r \<in> {'':'', ''=''})"

definition key_shape_patterns :: "regex list" where
  "key_shape_patterns = [
     seqs [WordBoundary, lit ''sk-'', at_least 8 (Cls masked_key_rune)],
     seqs [WordBoundary, lit ''AIza'', at_least 8 (Cls masked_key_rune)],
     seqs [WordBoundary, lit ''pa-'', at_least 20 (Cls masked_key_rune)],
     seqs [WordBoundary, Alt (lit_fold ''bearer'') (lit_fold ''basic''), at_least 1 (Cls space_rune),
           at_least 8 (Cls auth_rune)],
     seqs [WordBoundary, labels, WordBoundary, Star (Cls space_rune), colon_or_equals,
           Star (Cls space_rune), quote_opt, at_least 8 (Cls value_rune), quote_opt]]"

definition bearer_prefix :: regex where
  "bearer_prefix = Sq (Alt (lit_fold ''bearer'') (lit_fold ''basic'')) (at_least 1 (Cls space_rune))"

definition label_rune :: "rune \<Rightarrow> bool" where
  "label_rune r = (\<not> space_rune r \<and> r \<notin> {'':'', ''=''})"

definition labelled_value :: regex where
  "labelled_value =
     seqs [at_least 1 (Cls label_rune),
           Star (Sq (Cls (\<lambda>r. r \<in> {''_'', '' '', ''-''})) (at_least 1 (Cls label_rune))),
           Star (Cls space_rune), colon_or_equals, Star (Cls space_rune)]"

definition collapse :: regex where
  "collapse = Sq (lit placeholder)
     (at_least 1 (Sq (at_least 1 (Cls (\<lambda>r. r \<in> {''*'', ''.'', ellipsis}))) (lit placeholder)))"

definition fragment_incriminates :: "string \<Rightarrow> string \<Rightarrow> bool" where
  "fragment_incriminates run secret =
     (if min_interior_fragment_len \<le> length run then contains secret run
      else if min_edge_fragment_len \<le> length run then has_prefix secret run \<or> has_suffix secret run
      else False)"

text \<open>The two groups of \<open>labelledValue\<close> are adjacent and cover its match, so the code's
  \<open>m[1] + m[2]\<close> is the whole match.\<close>

definition redact_key_shape :: "string \<Rightarrow> string" where
  "redact_key_shape m =
     (case match_prefix bearer_prefix m of
        Some p \<Rightarrow> p @ placeholder
      | None \<Rightarrow>
          (case match_prefix labelled_value m of
             Some p \<Rightarrow> p @ placeholder
           | None \<Rightarrow> placeholder))"

definition redact_run :: "string list \<Rightarrow> string \<Rightarrow> string" where
  "redact_run eligible run =
     (if contains placeholder run \<and> length ''REDACTED'' \<le> length run then run
      else if list_ex (fragment_incriminates run) eligible then placeholder
      else run)"

definition redact_fragments :: "string \<Rightarrow> string list \<Rightarrow> string" where
  "redact_fragments msg secrets =
     (let eligible = filter (\<lambda>s. min_fragment_secret_len \<le> length s) secrets
      in if eligible = [] then msg
         else replace_all_func fragment_chars (redact_run eligible) msg)"

definition exact_pass :: "string \<Rightarrow> string list \<Rightarrow> string" where
  "exact_pass msg secrets =
     foldl (\<lambda>out s. if length s < min_exact_len then out else replace_all s placeholder out)
       msg secrets"

definition shape_pass :: "string \<Rightarrow> string" where
  "shape_pass msg = foldl (\<lambda>out re. replace_all_func re redact_key_shape out) msg key_shape_patterns"

definition redact_message :: "string \<Rightarrow> string list \<Rightarrow> string" where
  "redact_message msg secrets =
     (if msg = [] then msg
      else replace_all_func collapse (\<lambda>_. placeholder)
             (shape_pass (redact_fragments (exact_pass msg secrets) secrets)))"

subsection \<open>Scrubbing\<close>

text \<open>
  What every pass does to a text: it keeps most of it and replaces some pieces by a part
  they start with, followed by the placeholder.
\<close>

inductive scrubbed :: "string \<Rightarrow> string \<Rightarrow> bool" where
  scrubbed_nil: "scrubbed [] []"
| scrubbed_keep: "scrubbed t t' \<Longrightarrow> scrubbed (w @ t) (w @ t')"
| scrubbed_cut: "scrubbed t t' \<Longrightarrow> prefix p m \<Longrightarrow> scrubbed (m @ t) (p @ placeholder @ t')"

lemma scrubbed_refl: "scrubbed t t"
  using scrubbed_keep [OF scrubbed_nil, of t] by simp

text \<open>A secret no placeholder can help to build.\<close>

definition hideable :: "string \<Rightarrow> bool" where
  "hideable s \<longleftrightarrow> min_exact_len \<le> length s \<and> CHR ''['' \<notin> set s \<and> CHR '']'' \<notin> set s
     \<and> \<not> contains ''REDACTED'' s"

lemma sublist_around_char:
  assumes "c \<notin> set s" and "sublist s (a @ c # b)"
  shows "sublist s a \<or> sublist s b"
proof -
  from assms(2) obtain u v where e: "a @ c # b = u @ s @ v" by (auto simp: sublist_def)
  then consider (left) w where "a = u @ s @ w" | (right) w where "b = w @ s @ v"
  proof (cases rule: append_eq_append_conv2 [THEN iffD1, OF e, THEN exE])
    case (1 us)
    from e 1 assms(1) show ?thesis
      by (auto simp: append_eq_append_conv2 append_eq_Cons_conv Cons_eq_append_conv intro: that)
  qed
  then show ?thesis by cases (auto simp: sublist_def)
qed

lemma sublist_around_placeholder:
  assumes "hideable s" and "sublist s (a @ placeholder @ b)"
  shows "sublist s a \<or> sublist s b"
proof -
  have no: "CHR ''['' \<notin> set s" "CHR '']'' \<notin> set s" "\<not> sublist s ''REDACTED''"
    using assms(1) by (simp_all add: hideable_def contains_iff)
  have "a @ placeholder @ b = a @ CHR ''['' # (''REDACTED'' @ CHR '']'' # b)"
    by (simp add: placeholder_def)
  with assms(2) have "sublist s a \<or> sublist s (''REDACTED'' @ CHR '']'' # b)"
    using sublist_around_char [OF no(1)] by metis
  then show ?thesis using sublist_around_char [OF no(2)] no(3) by blast
qed

lemma scrubbed_preserves:
  assumes "scrubbed t t'" and s: "hideable s" and "\<not> sublist s (a @ t)"
  shows "\<not> sublist s (a @ t')"
  using assms(1,3)
proof (induction arbitrary: a)
  case scrubbed_nil
  then show ?case by simp
next
  case (scrubbed_keep t t' w)
  from scrubbed_keep.IH [of "a @ w"] scrubbed_keep.prems show ?case by simp
next
  case (scrubbed_cut t t' p m)
  then obtain m' where m: "m = p @ m'" by (auto simp: prefix_def)
  have "sublist (a @ p) (a @ m @ t)" and "sublist t (a @ m @ t)"
    by (auto simp: m sublist_def) (metis append.assoc append_Nil2)
  with scrubbed_cut.prems have "\<not> sublist s (a @ p)" and "\<not> sublist s t"
    using sublist_order.order_trans by blast+
  moreover from this(2) have "\<not> sublist s t'" using scrubbed_cut.IH [of "[]"] by simp
  ultimately show ?case using sublist_around_placeholder [OF s, of "a @ p" t'] by auto
qed

text \<open>Every pass scrubs.\<close>

lemma replace_from_scrubs:
  assumes "\<And>m. \<exists>p. prefix p m \<and> f m = p @ placeholder \<or> f m = m"
  shows "scrubbed (concat (drop i t)) (replace_from r f t i)"
  using assms
proof (induction r f t i rule: replace_from.induct)
  case (1 r f t i)
  show ?case
  proof (cases "find_match r t i")
    case None
    then show ?thesis by (subst replace_from.simps) (simp add: scrubbed_refl)
  next
    case (Some ab)
    obtain a b where ab: "ab = (a, b)" by (cases ab)
    show ?thesis
    proof (cases "i < length t \<and> i < b")
      case False
      with Some ab show ?thesis by (subst replace_from.simps) (auto simp: scrubbed_refl)
    next
      case True
      have le: "i \<le> a" "a \<le> b" using find_match_bounds Some ab by blast+
      define w where "w = concat (take (a - i) (drop i t))"
      define m where "m = concat (take (b - a) (drop a t))"
      have "drop i t = take (a - i) (drop i t) @ drop a t"
        using le append_take_drop_id [of "a - i" "drop i t"] by simp
      moreover have "drop a t = take (b - a) (drop a t) @ drop b t"
        using le append_take_drop_id [of "b - a" "drop a t"] by simp
      ultimately have split: "concat (drop i t) = w @ m @ concat (drop b t)"
        unfolding w_def m_def by (metis concat_append append.assoc)
      have r: "replace_from r f t i = w @ f m @ replace_from r f t b"
        using True Some ab by (subst replace_from.simps) (simp add: w_def m_def)
      have ih: "scrubbed (concat (drop b t)) (replace_from r f t b)"
        by (rule "1.IH" [OF Some ab [symmetric] True "1.prems"])
      have "scrubbed (m @ concat (drop b t)) (f m @ replace_from r f t b)"
      proof (cases "f m = m")
        case True
        with ih show ?thesis by (simp add: scrubbed_keep)
      next
        case False
        with "1.prems" obtain p where "prefix p m" "f m = p @ placeholder" by blast
        with scrubbed_cut [OF ih, of p m] show ?thesis by simp
      qed
      then show ?thesis unfolding split r by (rule scrubbed_keep)
    qed
  qed
qed

lemmas scrubbed_free = scrubbed_preserves [where a = "[]", simplified]

lemma replace_all_func_scrubs:
  assumes "\<And>m. \<exists>p. prefix p m \<and> f m = p @ placeholder \<or> f m = m"
  shows "scrubbed t (replace_all_func r f t)"
  using replace_from_scrubs [OF assms, where i = 0 and t = "runes t"]
  by (simp add: replace_all_func_def)

lemma replace_all_scrubs:
  "old \<noteq> [] \<Longrightarrow> new = placeholder \<Longrightarrow> scrubbed s (replace_all old new s)"
proof (induction old new s rule: replace_all.induct)
  case (1 old new s)
  consider (nil) "s = []" | (cut) r where "s \<noteq> []" "s = old @ r" | (keep) c t where "s = c # t" "\<not> has_prefix s old"
    by (metis has_prefixE neq_Nil_conv)
  then show ?case
  proof cases
    case nil
    then show ?thesis by (simp add: replace_all.simps scrubbed_nil)
  next
    case cut
    then have "has_prefix s old" by (simp add: has_prefix_iff)
    with "1.IH"(1) cut "1.prems" have "scrubbed r (replace_all old new r)" by simp
    from scrubbed_cut [OF this, of "[]" old] cut \<open>has_prefix s old\<close> "1.prems" show ?thesis
      by (subst replace_all.simps) simp
  next
    case keep
    with "1.IH"(2) "1.prems" have "scrubbed t (replace_all old new t)" by simp
    from scrubbed_keep [OF this, of "[c]"] keep show ?thesis by (subst replace_all.simps) simp
  qed
qed

lemma sublist_position:
  assumes "sublist old a" and "old \<noteq> []"
  shows "\<exists>k < length a. has_prefix (drop k (a @ s)) old"
proof -
  from assms(1) obtain u v where a: "a = u @ old @ v" by (auto simp: sublist_def)
  then have "has_prefix (drop (length u) (a @ s)) old" by (simp add: has_prefix_iff)
  moreover have "length u < length a" using a assms(2) by simp
  ultimately show ?thesis by blast
qed

lemma hideable_nonempty: "hideable s \<Longrightarrow> s \<noteq> []"
  by (auto simp: hideable_def min_exact_len_def)

lemma replace_all_free:
  assumes "hideable old" and "new = placeholder" and "\<forall>k < length a. \<not> has_prefix (drop k (a @ s)) old"
  shows "\<not> sublist old (a @ replace_all old new s)"
  using assms
proof (induction old new s arbitrary: a rule: replace_all.induct)
  case (1 old new s)
  have ne: "old \<noteq> []" using "1.prems"(1) by (rule hideable_nonempty)
  have a_free: "\<not> sublist old a" using sublist_position [OF _ ne, of a s] "1.prems"(3) by blast
  show ?case
  proof (cases "s = []")
    case True
    with a_free show ?thesis by (simp add: replace_all.simps)
  next
    case False
    show ?thesis
    proof (cases "has_prefix s old")
      case True
      with "1.IH"(1) [OF False, of "[]"] "1.prems"(1,2) ne
      have "\<not> sublist old (replace_all old new (drop (length old) s))" by simp
      with a_free True False ne show ?thesis
        using "1.prems"(2)
          sublist_around_placeholder [OF "1.prems"(1), of a] by (subst replace_all.simps) auto
    next
      case F: False
      have "\<forall>k < length (a @ [hd s]). \<not> has_prefix (drop k ((a @ [hd s]) @ tl s)) old"
        using "1.prems"(3) F False by (auto simp: less_Suc_eq)
      with "1.IH"(2) [OF False, of "a @ [hd s]"] F "1.prems"(1,2)
      have "\<not> sublist old ((a @ [hd s]) @ replace_all old new (tl s))" by simp
      with F False show ?thesis by (subst replace_all.simps) simp
    qed
  qed
qed

lemma exact_pass_free:
  assumes "hideable s" and "s \<in> set secrets \<or> \<not> sublist s msg"
  shows "\<not> sublist s (exact_pass msg secrets)"
  using assms(2) unfolding exact_pass_def
proof (induction secrets arbitrary: msg)
  case (Cons x xs)
  let ?out = "if length x < min_exact_len then msg else replace_all x placeholder msg"
  have "s \<in> set xs \<or> \<not> sublist s ?out"
  proof (cases "x = s")
    case True
    with assms(1) have "\<not> length x < min_exact_len" by (simp add: hideable_def)
    with True replace_all_free [OF assms(1) refl, of "[]" msg] show ?thesis by simp
  next
    case False
    show ?thesis
    proof (cases "length x < min_exact_len")
      case True
      with Cons.prems False show ?thesis by simp
    next
      case len: False
      then have "scrubbed msg (replace_all x placeholder msg)"
        by (intro replace_all_scrubs) (auto simp: min_exact_len_def)
      from scrubbed_free [OF this assms(1)] Cons.prems False len show ?thesis by auto
    qed
  qed
  from Cons.IH [OF this] show ?case by simp
qed simp

lemma redact_key_shape_cases: "\<exists>p. prefix p m \<and> redact_key_shape m = p @ placeholder"
  by (auto simp: redact_key_shape_def dest: match_prefix_prefix split: option.splits intro: exI [of _ "[]"])

lemma redact_run_cases: "redact_run es m = m \<or> redact_run es m = placeholder"
  by (simp add: redact_run_def)

lemma redact_fragments_scrubs: "scrubbed msg (redact_fragments msg secrets)"
proof -
  have "scrubbed msg (replace_all_func fragment_chars (redact_run es) msg)" for es
    by (rule replace_all_func_scrubs) (metis append_Nil prefix_Nil prefix_bot.bot_least redact_run_cases)
  then show ?thesis by (simp add: redact_fragments_def Let_def scrubbed_refl)
qed

lemma shape_pass_free:
  assumes "hideable s" and "\<not> sublist s msg"
  shows "\<not> sublist s (shape_pass msg)"
proof -
  have "\<not> sublist s (foldl (\<lambda>out re. replace_all_func re redact_key_shape out) msg res)" for res
    using assms(2)
  proof (induction res arbitrary: msg)
    case (Cons re res)
    have "scrubbed msg (replace_all_func re redact_key_shape msg)"
      by (rule replace_all_func_scrubs) (metis redact_key_shape_cases)
    with Cons assms(1) show ?case by (simp add: scrubbed_free)
  qed simp
  then show ?thesis by (simp add: shape_pass_def)
qed

lemma message_hides:
  assumes "s \<in> set secrets" and s: "hideable s"
  shows "\<not> contains (redact_message msg secrets) s"
proof (cases "msg = []")
  case True
  then show ?thesis using hideable_nonempty [OF s] by (simp add: redact_message_def)
next
  case False
  have "\<not> sublist s (exact_pass msg secrets)" using exact_pass_free s assms(1) by blast
  then have "\<not> sublist s (shape_pass (redact_fragments (exact_pass msg secrets) secrets))"
    using s by (intro shape_pass_free scrubbed_free [OF redact_fragments_scrubs])
  moreover have "scrubbed t (replace_all_func collapse (\<lambda>_. placeholder) t)" for t
    by (rule replace_all_func_scrubs) (metis append_Nil prefix_bot.bot_least)
  ultimately show ?thesis using s False scrubbed_free
    unfolding redact_message_def contains_iff by (simp only: if_False) blast
qed

subsection \<open>The fragment pass sees every maximal run\<close>

definition key_char :: "char \<Rightarrow> bool" where
  "key_char c = (word_char c \<or> c = CHR ''-'')"

text \<open>A text with every maximal run of key characters passed through \<open>f\<close>.\<close>

function map_runs :: "(string \<Rightarrow> string) \<Rightarrow> string \<Rightarrow> string" where
  "map_runs f [] = []"
| "map_runs f (c # s) =
     (if key_char c then f (takeWhile key_char (c # s)) @ map_runs f (dropWhile key_char s)
      else c # map_runs f s)"
  by pat_completeness auto
termination
  by (relation "measure (length \<circ> snd)") (auto simp: le_imp_less_Suc length_dropWhile_le)

function key_runs :: "string \<Rightarrow> string list" where
  "key_runs [] = []"
| "key_runs (c # s) =
     (if key_char c then takeWhile key_char (c # s) # key_runs (dropWhile key_char s)
      else key_runs s)"
  by pat_completeness auto
termination
  by (relation "measure length") (auto simp: le_imp_less_Suc length_dropWhile_le)

text \<open>Key characters are ASCII, so they are runes of their own.\<close>

lemma key_char_ascii: "key_char c \<Longrightarrow> of_char c < (128 :: nat)"
  by (auto simp: key_char_def word_char_def byte_in_def)

lemma rune_width_ascii: "key_char c \<Longrightarrow> rune_width (c # s) = 1"
  by (cases "c # s" rule: rune_width.cases) (auto dest!: key_char_ascii simp: byte_in_def)

lemma key_not_high: "key_char c \<Longrightarrow> 128 \<le> lo \<Longrightarrow> \<not> byte_in c lo hi"
  by (auto dest!: key_char_ascii simp: byte_in_def)

lemma continuation_not_key: "continuation d \<Longrightarrow> \<not> key_char d"
  unfolding continuation_def using key_not_high [of d "0x80" "0xBF"] by auto

lemma second_not_key: "second_ok c d \<Longrightarrow> \<not> key_char d"
  using key_not_high [of d] by (auto simp: second_ok_def dest: continuation_not_key split: if_splits)

lemma rune_not_key:
  "\<not> key_char c \<Longrightarrow> list_all (\<lambda>c. \<not> key_char c) (take (rune_width (c # s)) (c # s))"
  by (cases "c # s" rule: rune_width.cases) (auto dest: second_not_key continuation_not_key)

lemma key_rune_Cons: "key_rune r \<longleftrightarrow> (\<exists>c. r = [c] \<and> key_char c)"
  by (auto simp: key_rune_def ascii_def key_char_def split: list.splits
      intro: key_char_ascii simp: key_char_ascii [unfolded key_char_def])

lemma runes_key: "key_char c \<Longrightarrow> runes (c # s) = [c] # runes s"
  by (subst runes.simps) (simp add: rune_width_ascii)

lemma takeWhile_runes:
  "concat (takeWhile key_rune (runes s)) = takeWhile key_char s \<and>
   dropWhile key_rune (runes s) = runes (dropWhile key_char s)"
proof (induction s)
  case Nil
  then show ?case by (simp add: runes.simps)
next
  case (Cons c s)
  show ?case
  proof (cases "key_char c")
    case True
    with Cons show ?thesis by (simp add: runes_key key_rune_Cons)
  next
    case False
    let ?r = "take (rune_width (c # s)) (c # s)"
    have "?r = c # tl ?r" using rune_width_pos [of "c # s"] by (cases "rune_width (c # s)") auto
    with False have "\<not> key_rune ?r" by (metis key_rune_Cons list.inject)
    with False show ?thesis by (subst runes.simps, subst (2) runes.simps) (simp add: runes.simps)
  qed
qed

lemma map_runs_not_key:
  "list_all (\<lambda>c. \<not> key_char c) w \<Longrightarrow> map_runs f (w @ s) = w @ map_runs f s"
  by (induction w) simp_all

text \<open>The matcher finds the maximal runs.\<close>

function rewrite_runes :: "(string \<Rightarrow> string) \<Rightarrow> rune list \<Rightarrow> string" where
  "rewrite_runes f [] = []"
| "rewrite_runes f (r # t) =
     (if key_rune r then f (concat (takeWhile key_rune (r # t))) @ rewrite_runes f (dropWhile key_rune t)
      else r @ rewrite_runes f t)"
  by pat_completeness auto
termination
  by (relation "measure (length \<circ> snd)") (auto simp: le_imp_less_Suc length_dropWhile_le)

lemma ends_fragment:
  "ends fragment_chars t k =
     (if k < length t \<and> key_rune (t ! k) then star_ends (ends (Cls key_rune) t) (length t - Suc k) (Suc k)
      else [])"
proof -
  have *: "fragment_chars = Sq (Cls key_rune) (Star (Cls key_rune))"
    by (simp add: fragment_chars_def eval_nat_numeral)
  show ?thesis unfolding * by auto
qed

lemma find_match_skip:
  assumes "i < length t" and "ends r t i = []"
  shows "find_match r t i = find_match r t (Suc i)"
proof -
  have "[i..<Suc (length t)] = i # [Suc i..<Suc (length t)]" using assms(1) by (simp add: upt_conv_Cons)
  then show ?thesis using assms(2) by (simp add: find_match_def del: upt_Suc)
qed

lemma find_match_fragment:
  assumes "i < length t" and "key_rune (t ! i)"
  shows "find_match fragment_chars t i = Some (i, i + length (takeWhile key_rune (drop i t)))"
proof -
  have up: "[i..<Suc (length t)] = i # [Suc i..<Suc (length t)]" using assms(1) by (simp add: upt_conv_Cons)
  obtain js where js: "star_ends (ends (Cls key_rune) t) (length t - Suc i) (Suc i)
      = (Suc i + length (takeWhile key_rune (drop (Suc i) t))) # js"
    using star_class_first [of "length t - Suc i" t "Suc i" key_rune] assms(1) by auto
  have "drop i t = t ! i # drop (Suc i) t" using assms(1) by (simp add: Cons_nth_drop_Suc)
  with js assms show ?thesis by (simp add: find_match_def up ends_fragment del: upt_Suc)
qed

lemma find_match_fragment_some:
  assumes "find_match fragment_chars t i = Some (a, b)"
  shows "a < b \<and> a < length t"
proof -
  from assms have "find (\<lambda>k. ends fragment_chars t k \<noteq> []) [i..<Suc (length t)] = Some a"
    and b: "b = hd (ends fragment_chars t a)"
    by (simp_all add: find_match_def del: upt_Suc split: option.splits)
  then have ne: "ends fragment_chars t a \<noteq> []" by (auto dest: find_Some_in)
  then have a: "a < length t" "ends fragment_chars t a = star_ends (ends (Cls key_rune) t) (length t - Suc a) (Suc a)"
    by (auto simp: ends_fragment split: if_splits)
  with ne b have "b \<in> set (star_ends (ends (Cls key_rune) t) (length t - Suc a) (Suc a))" by simp
  with a(1) show ?thesis using star_ends_ge by (metis Suc_le_lessD)
qed

lemma find_match_end: "length t \<le> i \<Longrightarrow> find_match fragment_chars t i = None"
  by (auto simp: find_match_def ends_fragment find_None_iff_all)

lemma replace_from_fragment:
  "replace_from fragment_chars f t i = rewrite_runes f (drop i t)"
proof (induction "length t - i" arbitrary: i rule: less_induct)
  case less
  show ?case
  proof (cases "i < length t")
    case False
    then show ?thesis by (subst replace_from.simps) (simp add: find_match_end)
  next
    case True
    have dr: "drop i t = t ! i # drop (Suc i) t" using True by (simp add: Cons_nth_drop_Suc)
    show ?thesis
    proof (cases "key_rune (t ! i)")
      case key: True
      define n where "n = length (takeWhile key_rune (drop i t))"
      have n: "0 < n" by (simp add: n_def dr key)
      have rest: "drop (i + n) t = dropWhile key_rune (drop i t)"
        by (simp add: n_def dropWhile_eq_drop add.commute)
      have "replace_from fragment_chars f t (i + n) = rewrite_runes f (drop (i + n) t)"
        using less [of "i + n"] True n by simp
      moreover have "replace_from fragment_chars f t i
          = f (concat (take n (drop i t))) @ replace_from fragment_chars f t (i + n)"
        using find_match_fragment [OF True key] True n
        by (subst replace_from.simps) (simp add: n_def)
      moreover have "take n (drop i t) = takeWhile key_rune (drop i t)"
        by (simp add: n_def takeWhile_eq_take [symmetric])
      ultimately show ?thesis by (simp add: rest) (simp add: dr key)
    next
      case F: False
      have skip: "find_match fragment_chars t i = find_match fragment_chars t (Suc i)"
        using True F by (intro find_match_skip) (simp_all add: ends_fragment)
      have "replace_from fragment_chars f t i = t ! i @ replace_from fragment_chars f t (Suc i)"
      proof (cases "find_match fragment_chars t (Suc i)")
        case None
        with skip show ?thesis
          by (subst replace_from.simps, subst (2) replace_from.simps) (simp add: dr)
      next
        case (Some ab)
        obtain a b where ab: "ab = (a, b)" by (cases ab)
        then have "Suc i \<le> a" using Some find_match_bounds by blast
        moreover have "a < b \<and> a < length t" using Some ab by (intro find_match_fragment_some) simp
        ultimately show ?thesis using skip Some ab True
          by (subst replace_from.simps, subst (2) replace_from.simps) (simp add: dr take_Cons')
      qed
      then show ?thesis using less [of "Suc i"] True F by (simp add: dr)
    qed
  qed
qed

lemma rewrite_map_runs: "rewrite_runes f (runes s) = map_runs f s"
proof (induction "length s" arbitrary: s rule: less_induct)
  case less
  show ?case
  proof (cases s)
    case Nil
    then show ?thesis by (simp add: runes.simps)
  next
    case (Cons c s')
    show ?thesis
    proof (cases "key_char c")
      case True
      have "rewrite_runes f (runes (dropWhile key_char s')) = map_runs f (dropWhile key_char s')"
        using less Cons by (simp add: le_imp_less_Suc length_dropWhile_le)
      moreover have "key_rune [c]" using True by (simp add: key_rune_Cons)
      ultimately show ?thesis using True takeWhile_runes [of s'] by (simp add: Cons runes_key)
    next
      case False
      let ?n = "rune_width s"
      have ne: "\<not> key_rune (take ?n s)"
        using False rune_width_pos [of s] by (auto simp: Cons key_rune_Cons take_Cons')
      have "rewrite_runes f (runes (drop ?n s)) = map_runs f (drop ?n s)"
        using less Cons by simp
      moreover have "runes s = take ?n s # runes (drop ?n s)"
        using Cons by (subst runes.simps) simp
      moreover have "map_runs f (take ?n s @ drop ?n s) = take ?n s @ map_runs f (drop ?n s)"
        using rune_not_key [OF False, of s'] by (intro map_runs_not_key) (simp add: Cons)
      ultimately show ?thesis using ne by simp
    qed
  qed
qed

lemma replace_all_func_fragment: "replace_all_func fragment_chars f s = map_runs f s"
  by (simp add: replace_all_func_def replace_from_fragment rewrite_map_runs)

text \<open>The runs of a text whose runs were mapped.\<close>

lemma key_runs_not_key: "list_all (\<lambda>c. \<not> key_char c) w \<Longrightarrow> key_runs (w @ s) = key_runs s"
  by (induction w) simp_all

lemma key_runs_run:
  assumes "r \<noteq> []" and "list_all key_char r" and "s = [] \<or> \<not> key_char (hd s)"
  shows "key_runs (r @ s) = r # key_runs s"
proof -
  obtain c r' where r: "r = c # r'" using assms(1) by (cases r) auto
  have "takeWhile key_char (r' @ s) = r'" and "dropWhile key_char (r' @ s) = s"
    using assms(2,3) unfolding r by (induction r') (auto simp: takeWhile_eq_Nil_iff dropWhile_eq_self_iff)
  with assms(2) show ?thesis by (simp add: r)
qed

lemma redact_run_result:
  assumes "list_all key_char r"
  shows "(redact_run es r = r \<and> (r = ''REDACTED'' \<or> \<not> list_ex (fragment_incriminates r) es))
     \<or> redact_run es r = placeholder"
proof (cases "contains placeholder r \<and> 8 \<le> length r")
  case True
  have no: "CHR ''['' \<notin> set r" "CHR '']'' \<notin> set r"
    using assms by (auto simp: list_all_iff key_char_def word_char_def byte_in_def)
  have "placeholder = [] @ CHR ''['' # (''REDACTED'' @ CHR '']'' # [])" by (simp add: placeholder_def)
  then have "sublist r ([] @ CHR ''['' # (''REDACTED'' @ CHR '']'' # []))"
    using True by (simp only: contains_iff)
  then have "sublist r [] \<or> sublist r (''REDACTED'' @ CHR '']'' # [])"
    by (rule sublist_around_char [OF no(1)])
  moreover from True have "r \<noteq> []" by auto
  ultimately have "sublist r ''REDACTED''" using sublist_around_char [OF no(2), of "''REDACTED''" "[]"] by auto
  with True have "r = ''REDACTED''"
    by (auto simp: sublist_def) (auto simp: append_eq_Cons_conv Cons_eq_append_conv)
  with True show ?thesis by (simp add: redact_run_def)
next
  case False
  then show ?thesis by (auto simp: redact_run_def)
qed

lemma redact_fragments_runs:
  "set (key_runs (map_runs (redact_run es) s)) \<subseteq>
     {r. r = ''REDACTED'' \<or> \<not> list_ex (fragment_incriminates r) es} \<and>
   (s \<noteq> [] \<and> \<not> key_char (hd s) \<longrightarrow> \<not> key_char (hd (map_runs (redact_run es) s)))"
proof (induction "length s" arbitrary: s rule: less_induct)
  case less
  show ?case
  proof (cases s)
    case Nil
    then show ?thesis by simp
  next
    case (Cons c s')
    show ?thesis
    proof (cases "key_char c")
      case False
      with less [of s'] Cons show ?thesis by simp
    next
      case True
      define r where "r = takeWhile key_char (c # s')"
      define rest where "rest = dropWhile key_char s'"
      let ?m = "map_runs (redact_run es) rest"
      have r: "r \<noteq> []" "list_all key_char r"
        using True by (auto simp: r_def list_all_iff dest: set_takeWhileD)
      have len: "length rest < length s" by (simp add: rest_def Cons le_imp_less_Suc length_dropWhile_le)
      have hd_rest: "rest = [] \<or> \<not> key_char (hd rest)"
        unfolding rest_def using hd_dropWhile by blast
      then have sep: "?m = [] \<or> \<not> key_char (hd ?m)" using less [OF len] by auto
      have m: "map_runs (redact_run es) s = redact_run es r @ ?m"
        using True by (simp add: Cons r_def rest_def)
      from redact_run_result [OF r(2)]
      show ?thesis
      proof
        assume same: "redact_run es r = r \<and> (r = ''REDACTED'' \<or> \<not> list_ex (fragment_incriminates r) es)"
        then have "key_runs (map_runs (redact_run es) s) = r # key_runs ?m"
          using key_runs_run [OF r sep] m by simp
        with same less [OF len] True Cons show ?thesis by auto
      next
        assume "redact_run es r = placeholder"
        then have o: "map_runs (redact_run es) s = ''['' @ ''REDACTED'' @ '']'' @ ?m"
          using m by (simp add: placeholder_def)
        have "key_runs (''REDACTED'' @ '']'' @ ?m) = ''REDACTED'' # key_runs ('']'' @ ?m)"
          by (rule key_runs_run) (simp_all add: key_char_def word_char_def byte_in_def)
        moreover have "\<not> key_char CHR ''[''" "\<not> key_char CHR '']''"
          by (simp_all add: key_char_def word_char_def byte_in_def)
        ultimately have "key_runs (map_runs (redact_run es) s) = ''REDACTED'' # key_runs ?m"
          unfolding o using key_runs_not_key by simp
        with less [OF len] True Cons show ?thesis by auto
      qed
    qed
  qed
qed

subsection \<open>The contract\<close>

text \<open>
  What the code that builds error texts relies on: whatever text it redacts, a secret it
  names that can be hidden does not occur in the result.
\<close>

locale redactor =
  fixes redact :: "string \<Rightarrow> string list \<Rightarrow> string"
    and can_hide :: "string \<Rightarrow> bool"
  assumes hides: "s \<in> set secrets \<Longrightarrow> can_hide s \<Longrightarrow> \<not> contains (redact m secrets) s"
    and separator_outside: "can_hide s \<Longrightarrow> CHR ''['' \<notin> set s"
begin

text \<open>A secret cannot be spread over two redacted texts joined by a bracket.\<close>

lemma joined:
  assumes "s \<in> set secrets" and "can_hide s"
  shows "\<not> contains (redact m secrets @ CHR ''['' # redact m' secrets) s"
proof -
  have "\<not> sublist s (redact m secrets)" "\<not> sublist s (redact m' secrets)"
    using hides [OF assms] by (simp_all add: contains_iff)
  then show ?thesis
    using sublist_around_char [OF separator_outside [OF assms(2)]] unfolding contains_iff by blast
qed

end

interpretation rd: redactor redact_message hideable
  by unfold_locales (rule message_hides, assumption+, simp add: hideable_def)

text \<open>
  C3: no configured secret survives redaction. Whatever the message and the other secrets,
  a secret of at least four bytes that contains no bracket and is not a piece of the word
  REDACTED does not occur in the result of Message.
\<close>

theorem message_hides_secret:
  assumes "s \<in> set secrets" and "hideable s"
  shows "\<not> contains (redact_message msg secrets) s"
  using assms by (rule rd.hides)

theorem message_hides_secret_witness:
  "\<not> contains (redact_message ''Incorrect API key: hunter22'' [''abc'', ''hunter22'']) ''hunter22''"
  by (rule message_hides_secret) (simp_all add: hideable_def min_exact_len_def)

text \<open>
  What the fragment pass leaves: after it, a maximal run of key characters that is not the
  placeholder's own word is neither a piece of six or more bytes of a secret of twelve or more
  bytes, nor a prefix or suffix of four or more bytes of one.
\<close>

lemma fragments_redacted:
  assumes "s \<in> set secrets" and "12 \<le> length s"
    and "run \<in> set (key_runs (redact_fragments msg secrets))" and "run \<noteq> ''REDACTED''"
  shows "\<not> (6 \<le> length run \<and> contains s run)
    \<and> \<not> (4 \<le> length run \<and> (has_prefix s run \<or> has_suffix s run))"
proof -
  let ?es = "filter (\<lambda>s. min_fragment_secret_len \<le> length s) secrets"
  have e: "s \<in> set ?es" using assms(1,2) by (simp add: min_fragment_secret_len_def)
  then have "?es \<noteq> []" by (metis empty_iff list.set(1))
  then have "redact_fragments msg secrets = map_runs (redact_run ?es) msg"
    by (simp only: redact_fragments_def Let_def replace_all_func_fragment if_False)
  with assms(3,4) redact_fragments_runs [of ?es msg] have "\<not> list_ex (fragment_incriminates run) ?es"
    by auto
  with e have "\<not> fragment_incriminates run s" by (simp only: list_ex_iff) blast
  moreover have "has_prefix s run \<or> has_suffix s run \<Longrightarrow> contains s run"
    by (auto simp: has_prefix_iff has_suffix_iff contains_iff)
  ultimately show ?thesis
    by (auto simp: fragment_incriminates_def min_interior_fragment_len_def
        min_edge_fragment_len_def split: if_splits)
qed

text \<open>
  The comment on Message promises idempotence. A secret that is itself a piece of the
  placeholder breaks it: the second call redacts the first one's placeholder.
\<close>

lemma message_not_idempotent:
  "redact_message ''REDACTED'' [''REDACTED''] = ''[REDACTED]''"
  "redact_message ''[REDACTED]'' [''REDACTED''] = ''[[REDACTED]]''"
  by code_simp+

end
