(* ===== verification/Readers.thy ===== *)
theory Readers
  imports LlmTypes
begin

text \<open>
  Response bodies (\<open>llm/internal/httpclient/httpclient.go\<close>): what the library relies on in
  an \<open>io.Reader\<close> as the locale \<open>byte_reader\<close>, the size limit \<open>limitedBody\<close>,
  \<open>io.ReadAll\<close> and \<open>io.LimitReader\<close> over any such reader, and \<open>ReadErrorBody\<close>.
\<close>

subsection \<open>Readers\<close>

text \<open>
  The outcome of one \<open>Read\<close>: the bytes and the error, \<open>EofErr\<close> for \<open>io.EOF\<close>. The content
  of a reader is what reading it to the end delivers, with the error that ended it
  (\<open>None\<close> for a clean end).
\<close>

type_synonym read_result = "bytes \<times> go_error option"

definition end_error :: "go_error \<Rightarrow> go_error option" where
  "end_error e = (if e = EofErr then None else Some e)"

locale byte_reader =
  fixes read :: "nat \<Rightarrow> 'r \<Rightarrow> read_result \<times> 'r"
    and content :: "'r \<Rightarrow> bytes"
    and endings :: "'r \<Rightarrow> go_error option set"
    and work :: "'r \<Rightarrow> nat"
  assumes read_fits: "0 < n \<Longrightarrow> read n r = ((b, e), r') \<Longrightarrow> length b \<le> n"
    and read_more: "0 < n \<Longrightarrow> read n r = ((b, None), r') \<Longrightarrow>
      work r' < work r \<and> content r = b @ content r' \<and> endings r' \<subseteq> endings r"
    and read_last: "0 < n \<Longrightarrow> read n r = ((b, Some f), r') \<Longrightarrow>
      content r = b \<and> end_error f \<in> endings r"

text \<open>
  The transport's body: the reads it will deliver, each with the error that comes with it,
  and \<open>io.EOF\<close> after them. A read shorter than the data leaves the rest for the next.
\<close>

type_synonym raw_body = "read_result list"

fun raw_read :: "nat \<Rightarrow> raw_body \<Rightarrow> read_result \<times> raw_body" where
  "raw_read n [] = (([], Some EofErr), [])"
| "raw_read n ((b, e) # r) =
     (if length b \<le> n then ((b, e), case e of None \<Rightarrow> r | Some _ \<Rightarrow> [([], e)])
      else ((take n b, None), (drop n b, e) # r))"

fun raw_content :: "raw_body \<Rightarrow> bytes" where
  "raw_content [] = []"
| "raw_content ((b, None) # r) = b @ raw_content r"
| "raw_content ((b, Some e) # r) = b"

fun raw_ending :: "raw_body \<Rightarrow> go_error option" where
  "raw_ending [] = None"
| "raw_ending ((b, None) # r) = raw_ending r"
| "raw_ending ((b, Some e) # r) = end_error e"

fun raw_work :: "raw_body \<Rightarrow> nat" where
  "raw_work [] = 0"
| "raw_work ((b, e) # r) = Suc (length b + raw_work r)"

lemma raw_cut: "raw_content ((drop n b, e) # r) = drop n (raw_content ((b, e) # r)) \<and>
    take n (raw_content ((b, e) # r)) = take n b \<and> raw_ending ((drop n b, e) # r) = raw_ending ((b, e) # r)"
  if "n < length b"
  using that by (cases e) simp_all

interpretation raw: byte_reader raw_read raw_content "\<lambda>r. {raw_ending r}" raw_work
proof unfold_locales
  fix n :: nat and r r' :: raw_body and b e
  show "raw_read n r = ((b, e), r') \<Longrightarrow> length b \<le> n"
    by (cases r) (auto split: if_splits)
next
  fix n :: nat and r r' :: raw_body and b
  assume n: "0 < n" and rd: "raw_read n r = ((b, None), r')"
  then obtain c f q where r: "r = (c, f) # q" by (cases r) auto
  show "raw_work r' < raw_work r \<and> raw_content r = b @ raw_content r' \<and> {raw_ending r'} \<subseteq> {raw_ending r}"
  proof (cases "length c \<le> n")
    case True
    with rd r show ?thesis by (cases f) auto
  next
    case False
    with rd r have "b = take n c" "r' = (drop n c, f) # q" by auto
    with n r False show ?thesis by (cases f) auto
  qed
next
  fix n :: nat and r r' :: raw_body and b f
  show "raw_read n r = ((b, Some f), r') \<Longrightarrow> raw_content r = b \<and> end_error f \<in> {raw_ending r}"
    by (cases r) (auto simp: end_error_def split: if_splits)
qed

subsection \<open>The size limit\<close>

text \<open>\<open>limitedBody\<close> over a body \<open>lb_rc\<close> read by \<open>rd\<close>.\<close>

record 'r limited_body =
  lb_rc :: 'r
  lb_remaining :: int
  lb_max :: int

definition over_limit :: "int \<Rightarrow> go_error" where
  "over_limit mx = PlainErr (''response body exceeds the '' @ itoa mx
     @ ''-byte limit (see Options.MaxResponseBytes)'')"

definition limited_read ::
  "(nat \<Rightarrow> 'r \<Rightarrow> read_result \<times> 'r) \<Rightarrow> nat \<Rightarrow> 'r limited_body \<Rightarrow> read_result \<times> 'r limited_body" where
  "limited_read rd n b =
     (if lb_remaining b \<le> 0 then
        (let ((p, e), rc) = rd 1 (lb_rc b); b' = b\<lparr>lb_rc := rc\<rparr>
         in if p \<noteq> [] then (([], Some (over_limit (lb_max b))), b') else (([], e), b'))
      else
        (let k = (if int n > lb_remaining b then nat (lb_remaining b) else n);
             ((p, e), rc) = rd k (lb_rc b)
         in ((p, e), b\<lparr>lb_rc := rc, lb_remaining := lb_remaining b - int (length p)\<rparr>)))"

definition limit_body :: "int \<Rightarrow> 'r \<Rightarrow> 'r limited_body" where
  "limit_body mx rc = \<lparr>lb_rc = rc, lb_remaining = mx, lb_max = mx\<rparr>"

subsection \<open>\<open>io.LimitReader\<close>\<close>

definition limit_reader_read ::
  "(nat \<Rightarrow> 'r \<Rightarrow> read_result \<times> 'r) \<Rightarrow> nat \<Rightarrow> 'r \<times> int \<Rightarrow> read_result \<times> ('r \<times> int)" where
  "limit_reader_read rd n l =
     (let (r, left) = l
      in if left \<le> 0 then (([], Some EofErr), l)
         else let k = (if int n > left then nat left else n); ((p, e), r') = rd k r
              in ((p, e), (r', left - int (length p))))"

subsection \<open>\<open>io.ReadAll\<close>\<close>

text \<open>
  Read until an error, into a buffer with room for at least one byte: \<open>room\<close> is how much more
  than one the buffer has free when it holds a given number of bytes. The result is what was
  read and the error other than \<open>io.EOF\<close>; \<open>None\<close> stands for a read loop that never ends.
\<close>

partial_function (option) read_all ::
  "(nat \<Rightarrow> 'r \<Rightarrow> read_result \<times> 'r) \<Rightarrow> (nat \<Rightarrow> nat) \<Rightarrow> bytes \<Rightarrow> 'r \<Rightarrow> (bytes \<times> go_error option) option" where
  "read_all rd room acc r =
     (let ((b, e), r') = rd (Suc (room (length acc))) r
      in case e of
           None \<Rightarrow> read_all rd room (acc @ b) r'
         | Some f \<Rightarrow> Some (acc @ b, end_error f))"

context byte_reader begin

lemma read_all_delivers:
  "\<exists>e. read_all read room acc r = Some (acc @ content r, e) \<and> e \<in> endings r"
proof (induction "work r" arbitrary: acc r rule: less_induct)
  case less
  obtain b e r' where rd: "read (Suc (room (length acc))) r = ((b, e), r')"
    by (metis prod.collapse)
  show ?case
  proof (cases e)
    case None
    with rd have m: "work r' < work r" "content r = b @ content r'" "endings r' \<subseteq> endings r"
      using read_more [of "Suc (room (length acc))" r b r'] by simp_all
    from less [OF m(1), of "acc @ b"] m rd None show ?thesis
      by (subst read_all.simps) auto
  next
    case (Some f)
    with rd have "content r = b" "end_error f \<in> endings r"
      using read_last [of "Suc (room (length acc))" r b f r'] by simp_all
    with rd Some show ?thesis by (subst read_all.simps) simp
  qed
qed

end

subsection \<open>Limits are readers\<close>

definition limited_content :: "('r \<Rightarrow> bytes) \<Rightarrow> 'r limited_body \<Rightarrow> bytes" where
  "limited_content cn b = take (nat (lb_remaining b)) (cn (lb_rc b))"

definition limited_endings ::
  "('r \<Rightarrow> bytes) \<Rightarrow> ('r \<Rightarrow> go_error option set) \<Rightarrow> 'r limited_body \<Rightarrow> go_error option set" where
  "limited_endings cn en b =
     (if nat (lb_remaining b) < length (cn (lb_rc b)) then {Some (over_limit (lb_max b))} else en (lb_rc b))"

definition limit_reader_content :: "('r \<Rightarrow> bytes) \<Rightarrow> 'r \<times> int \<Rightarrow> bytes" where
  "limit_reader_content cn l = take (nat (snd l)) (cn (fst l))"

definition limit_reader_endings ::
  "('r \<Rightarrow> bytes) \<Rightarrow> ('r \<Rightarrow> go_error option set) \<Rightarrow> 'r \<times> int \<Rightarrow> go_error option set" where
  "limit_reader_endings cn en l =
     (if nat (snd l) \<le> length (cn (fst l)) then {None} else {})
     \<union> (if length (cn (fst l)) \<le> nat (snd l) then en (fst l) else {})"

context byte_reader begin

lemma read_capped:
  assumes "read (if int n > m then nat m else n) r = ((p, e), r')" and "0 < m" and "0 < n"
  shows "int (length p) \<le> m \<and> length p \<le> n"
    and "e = None \<Longrightarrow> work r' < work r \<and> content r = p @ content r' \<and> endings r' \<subseteq> endings r"
    and "e = Some f \<Longrightarrow> content r = p \<and> end_error f \<in> endings r"
proof -
  let ?k = "if int n > m then nat m else n"
  have k: "0 < ?k" using assms(2,3) by simp
  show "int (length p) \<le> m \<and> length p \<le> n"
    using read_fits [OF k assms(1)] assms(2) by (auto split: if_splits)
  show "e = None \<Longrightarrow> work r' < work r \<and> content r = p @ content r' \<and> endings r' \<subseteq> endings r"
    using read_more [OF k] assms(1) by simp
  show "e = Some f \<Longrightarrow> content r = p \<and> end_error f \<in> endings r"
    using read_last [OF k] assms(1) by simp
qed

lemma limited_read_step:
  assumes n: "0 < n" and rd: "limited_read read n b = ((p, e), b')"
  shows "length p \<le> n"
    and "e = None \<Longrightarrow> work (lb_rc b') < work (lb_rc b) \<and>
      limited_content content b = p @ limited_content content b' \<and>
      limited_endings content endings b' \<subseteq> limited_endings content endings b"
    and "e = Some f \<Longrightarrow> limited_content content b = p \<and> end_error f \<in> limited_endings content endings b"
proof -
  have "length p \<le> n \<and>
    (e = None \<longrightarrow> work (lb_rc b') < work (lb_rc b) \<and>
      limited_content content b = p @ limited_content content b' \<and>
      limited_endings content endings b' \<subseteq> limited_endings content endings b) \<and>
    (\<forall>f. e = Some f \<longrightarrow> limited_content content b = p \<and> end_error f \<in> limited_endings content endings b)"
  proof (cases "lb_remaining b \<le> 0")
    case True
    obtain q g rc where probe: "read 1 (lb_rc b) = ((q, g), rc)" by (metis prod.collapse)
    have q: "q \<noteq> [] \<Longrightarrow> content (lb_rc b) \<noteq> []"
      using probe read_more [of 1 "lb_rc b" q rc] read_last [of 1 "lb_rc b" q _ rc] by (cases g) auto
    from True rd probe have "p = []" "b' = b\<lparr>lb_rc := rc\<rparr>"
      "e = (if q \<noteq> [] then Some (over_limit (lb_max b)) else g)"
      by (auto simp: limited_read_def Let_def split: if_splits)
    with True q probe read_more [of 1 "lb_rc b" q rc] read_last [of 1 "lb_rc b" q _ rc] show ?thesis
      by (auto simp: limited_content_def limited_endings_def end_error_def over_limit_def)
  next
    case False
    let ?k = "if int n > lb_remaining b then nat (lb_remaining b) else n"
    obtain q g rc where inner: "read ?k (lb_rc b) = ((q, g), rc)" by (metis prod.collapse)
    from False rd inner have eqs: "q = p" "g = e"
      "b' = b\<lparr>lb_rc := rc, lb_remaining := lb_remaining b - int (length p)\<rparr>"
      by (auto simp: limited_read_def Let_def split: if_splits)
    note step = read_capped [OF inner [unfolded eqs(1,2)] _ n]
    show ?thesis
      using step(1) step(2) step(3) False
      by (auto simp: eqs(3) limited_content_def limited_endings_def nat_diff_distrib')
  qed
  then show "length p \<le> n"
    and "e = None \<Longrightarrow> work (lb_rc b') < work (lb_rc b) \<and>
      limited_content content b = p @ limited_content content b' \<and>
      limited_endings content endings b' \<subseteq> limited_endings content endings b"
    and "e = Some f \<Longrightarrow> limited_content content b = p \<and> end_error f \<in> limited_endings content endings b"
    by blast+
qed

lemma limit_reader_step:
  assumes n: "0 < n" and rd: "limit_reader_read read n l = ((p, e), l')"
  shows "length p \<le> n"
    and "e = None \<Longrightarrow> work (fst l') < work (fst l) \<and>
      limit_reader_content content l = p @ limit_reader_content content l' \<and>
      limit_reader_endings content endings l' \<subseteq> limit_reader_endings content endings l"
    and "e = Some f \<Longrightarrow> limit_reader_content content l = p \<and>
      end_error f \<in> limit_reader_endings content endings l"
proof -
  obtain r left where l: "l = (r, left)" by (cases l)
  have "length p \<le> n \<and>
    (e = None \<longrightarrow> work (fst l') < work (fst l) \<and>
      limit_reader_content content l = p @ limit_reader_content content l' \<and>
      limit_reader_endings content endings l' \<subseteq> limit_reader_endings content endings l) \<and>
    (\<forall>f. e = Some f \<longrightarrow> limit_reader_content content l = p \<and>
      end_error f \<in> limit_reader_endings content endings l)"
  proof (cases "left \<le> 0")
    case True
    with rd l show ?thesis
      by (auto simp: limit_reader_read_def limit_reader_content_def limit_reader_endings_def end_error_def)
  next
    case False
    let ?k = "if int n > left then nat left else n"
    obtain q g r' where inner: "read ?k r = ((q, g), r')" by (metis prod.collapse)
    from False rd inner l have eqs: "q = p" "g = e" "l' = (r', left - int (length p))"
      by (auto simp: limit_reader_read_def Let_def split: if_splits)
    note step = read_capped [OF inner [unfolded eqs(1,2)] _ n]
    show ?thesis
      using step(1) step(2) step(3) False
      by (auto simp: l eqs(3) limit_reader_content_def limit_reader_endings_def nat_diff_distrib' split: if_splits)
  qed
  then show "length p \<le> n"
    and "e = None \<Longrightarrow> work (fst l') < work (fst l) \<and>
      limit_reader_content content l = p @ limit_reader_content content l' \<and>
      limit_reader_endings content endings l' \<subseteq> limit_reader_endings content endings l"
    and "e = Some f \<Longrightarrow> limit_reader_content content l = p \<and>
      end_error f \<in> limit_reader_endings content endings l"
    by blast+
qed

end

text \<open>The transport's body behind its size limit, and \<open>io.LimitReader\<close> over that.\<close>

interpretation lim: byte_reader "limited_read raw_read" "limited_content raw_content"
    "limited_endings raw_content (\<lambda>r. {raw_ending r})" "\<lambda>b. raw_work (lb_rc b)"
  by unfold_locales
    (rule raw.limited_read_step(1), assumption+, rule raw.limited_read_step(2), assumption+, rule refl,
     rule raw.limited_read_step(3), assumption+, rule refl)

interpretation errbody: byte_reader "limit_reader_read (limited_read raw_read)"
    "limit_reader_content (limited_content raw_content)"
    "limit_reader_endings (limited_content raw_content)
       (limited_endings raw_content (\<lambda>r. {raw_ending r}))" "\<lambda>l. raw_work (lb_rc (fst l))"
  by unfold_locales
    (rule lim.limit_reader_step(1), assumption+, rule lim.limit_reader_step(2), assumption+, rule refl,
     rule lim.limit_reader_step(3), assumption+, rule refl)

subsection \<open>\<open>ReadErrorBody\<close>\<close>

definition max_error_body :: int where
  "max_error_body = 65536"

definition read_error_body :: "(nat \<Rightarrow> nat) \<Rightarrow> raw_body limited_body \<Rightarrow> bytes option" where
  "read_error_body room b =
     map_option fst (read_all (limit_reader_read (limited_read raw_read)) room [] (b, max_error_body))"

text \<open>
  the response size limit never truncates silently. Reading a body through limitedBody to
  the end, however the transport cuts it into reads, returns all of it and its own error when
  it has at most max bytes; a longer one yields its first max bytes and an error that names
  the limit, never a clean end.
\<close>

theorem limited_body_exact:
  "read_all (limited_read raw_read) room [] (limit_body mx body) =
     (if nat mx < length (raw_content body)
      then Some (take (nat mx) (raw_content body), Some (over_limit mx))
      else Some (raw_content body, raw_ending body))"
  using lim.read_all_delivers [of room "[]" "limit_body mx body"]
  by (auto simp: limit_body_def limited_content_def limited_endings_def split: if_splits)

text \<open>
  ReadErrorBody terminates and keeps exactly the first 64 KiB of what the limited body
  delivers, a read error keeping whatever arrived before it.
\<close>

theorem read_error_body_prefix:
  "read_error_body room (limit_body mx body) =
     Some (take (min 65536 (nat mx)) (raw_content body))"
  using errbody.read_all_delivers [of room "[]" "(limit_body mx body, max_error_body)"]
  by (auto simp: read_error_body_def limit_reader_content_def limited_content_def limit_body_def
      max_error_body_def take_take)

end
