(* ===== verification/HttpClient.thy ===== *)
theory HttpClient
  imports Readers
begin

text \<open>
  The HTTP transport stack (\<open>llm/internal/httpclient/retry.go\<close>, \<open>httpclient.go\<close>): retries
  with backoff, per-attempt timeouts, header injection, the response size limit, and the
  client that \<open>New\<close> builds from them.

  The network, the clock and the caller's context are the environment \<open>env\<close>, over a state of
  its own that every operation passes on. The values the code asks it for are its fields.
\<close>

subsection \<open>Requests, responses and the environment\<close>

type_synonym headers = "(string \<times> string) list"

text \<open>\<open>http.Header.Get\<close> and \<open>Set\<close>: names are compared in canonical form.\<close>

definition header_get :: "headers \<Rightarrow> string \<Rightarrow> string" where
  "header_get h k =
     (case find (\<lambda>p. to_lower (fst p) = to_lower k) h of None \<Rightarrow> [] | Some p \<Rightarrow> snd p)"

definition header_set :: "string \<Rightarrow> string \<Rightarrow> headers \<Rightarrow> headers" where
  "header_set k v h = filter (\<lambda>p. to_lower (fst p) \<noteq> to_lower k) h @ [(k, v)]"

text \<open>
  A request body is what reading it gives: its bytes, or the error \<open>io.ReadAll\<close> meets.
  \<open>rq_budget\<close> is the timer a per-attempt context carries.
\<close>

record http_request =
  rq_method :: string
  rq_url :: string
  rq_headers :: headers
  rq_body :: "(go_error + bytes) option"
  rq_budget :: "int option"

record http_response =
  rs_status :: int
  rs_headers :: headers
  rs_body :: raw_body
  rs_limit :: "int option"
  rs_closed :: bool
  rs_cancel_on_close :: bool

text \<open>The transport at the bottom of the stack: the default one, or the caller's.\<close>

datatype base_transport = DefaultTransport | CallerTransport

text \<open>
  \<open>env_send\<close> is a base transport's RoundTrip; \<open>env_fired\<close> whether the timer of the attempt
  just made had fired when it was stopped; \<open>env_ctx_err\<close> the caller's \<open>Context.Err\<close>;
  \<open>env_wait\<close> the select of \<open>sleep\<close>: \<open>None\<close> when the timer won, and the context's error when
  it was done first; \<open>env_until\<close> is \<open>http.ParseTime\<close> followed by \<open>time.Until\<close>, in
  nanoseconds.
\<close>

record 'w env =
  env_send :: "base_transport \<Rightarrow> http_request \<Rightarrow> 'w \<Rightarrow> (go_error + http_response) \<times> 'w"
  env_fired :: "'w \<Rightarrow> bool"
  env_ctx_err :: "'w \<Rightarrow> go_error option"
  env_wait :: "int \<Rightarrow> 'w \<Rightarrow> go_error option \<times> 'w"
  env_until :: "string \<Rightarrow> 'w \<Rightarrow> int option"

record retry_event =
  ev_attempt :: int
  ev_status :: int
  ev_err :: "go_error option"
  ev_wait :: int

record http_retry =
  hr_max_retries :: int
  hr_initial_backoff :: int
  hr_max_backoff :: int
  hr_disabled :: bool
  hr_per_attempt :: int

definition err_budget_exhausted :: go_error where
  "err_budget_exhausted = PlainErr ''retry budget exhausted''"

text \<open>What happened during a round trip, in order.\<close>

datatype retry_log =
    Sent http_request "go_error + http_response"
  | Notified retry_event
  | Slept int

subsection \<open>Durations\<close>

text \<open>\<open>time.Duration.String\<close> for the timeouts of error messages.\<close>

definition pad_zeros :: "nat \<Rightarrow> string \<Rightarrow> string" where
  "pad_zeros n s = replicate (n - length s) CHR ''0'' @ s"

definition fraction_str :: "nat \<Rightarrow> nat \<Rightarrow> string" where
  "fraction_str v prec =
     (let ds = rev (dropWhile (\<lambda>c. c = CHR ''0'') (rev (pad_zeros prec (nat_str (v mod 10 ^ prec)))))
      in if ds = [] then [] else CHR ''.'' # ds)"

definition duration_str :: "int \<Rightarrow> string" where
  "duration_str d =
     (let u = nat (abs d); sign = (if d < 0 then ''-'' else []) in
      if u = 0 then ''0s''
      else if u < 1000 then sign @ nat_str u @ ''ns''
      else if u < 1000000 then
        sign @ nat_str (u div 1000) @ fraction_str u 3 @ [CHR 0xC2, CHR 0xB5] @ ''s''
      else if u < 1000000000 then sign @ nat_str (u div 1000000) @ fraction_str u 6 @ ''ms''
      else
        (let secs = u div 1000000000; mins = secs div 60; hours = mins div 60
         in sign @ (if 0 < hours then nat_str hours @ ''h'' else [])
              @ (if 0 < mins then nat_str (mins mod 60) @ ''m'' else [])
              @ nat_str (secs mod 60) @ fraction_str u 9 @ ''s''))"

definition cap_duration :: "int \<Rightarrow> int \<Rightarrow> int" where
  "cap_duration d ceiling = (if d > ceiling then ceiling else d)"

definition parse_retry_after :: "'w env \<Rightarrow> 'w \<Rightarrow> string \<Rightarrow> int" where
  "parse_retry_after E w value =
     (if value = [] then 0
      else case atoi value of
             Some seconds \<Rightarrow> wrap64 (seconds * second)
           | None \<Rightarrow> (case env_until E value w of Some d \<Rightarrow> d | None \<Rightarrow> 0))"

text \<open>
  \<open>sleep\<close> with the \<open>Context.Err\<close> its callers read after it reported false: a context that is
  done has an error, and keeps it.
\<close>

definition go_sleep :: "'w env \<Rightarrow> int \<Rightarrow> 'w \<Rightarrow> go_error option \<times> 'w" where
  "go_sleep E d w = (if d \<le> 0 then (env_ctx_err E w, w) else env_wait E d w)"

subsection \<open>\<open>roundTripWithTimeout\<close>\<close>

text \<open>\<open>inner\<close> is the wrapped RoundTripper.\<close>

type_synonym 'w round_tripper = "http_request \<Rightarrow> 'w \<Rightarrow> (go_error + http_response) \<times> 'w"

definition attempt_timeout :: "int \<Rightarrow> go_error" where
  "attempt_timeout t = WrapErr (''per-attempt timeout after '' @ duration_str t @ '': '') DeadlineErr"

definition round_trip_with_timeout ::
  "'w env \<Rightarrow> 'w round_tripper \<Rightarrow> int \<Rightarrow> 'w round_tripper" where
  "round_trip_with_timeout E inner timeout req w =
     (if timeout \<le> 0 then inner req w
      else
        (let (res, w') = inner (req\<lparr>rq_budget := Some timeout\<rparr>) w;
             timed_out = env_fired E w'
         in case res of
              Inl e \<Rightarrow>
                (if timed_out \<and> env_ctx_err E w' = None then (Inl (attempt_timeout timeout), w')
                 else (Inl e, w'))
            | Inr resp \<Rightarrow>
                (if timed_out then
                   (case env_ctx_err E w' of
                      None \<Rightarrow> (Inl (attempt_timeout timeout), w')
                    | Some e \<Rightarrow> (Inl e, w'))
                 else (Inr (resp\<lparr>rs_cancel_on_close := True\<rparr>), w'))))"

subsection \<open>\<open>RetryTransport.RoundTrip\<close>\<close>

definition retryable_status :: "int \<Rightarrow> bool" where
  "retryable_status st = (st \<in> {429, 500, 502, 503, 504, 529})"

definition start_backoff :: "http_retry \<Rightarrow> int" where
  "start_backoff c = (if hr_initial_backoff c \<le> 0 then 2 * second else hr_initial_backoff c)"

definition backoff_ceiling :: "http_retry \<Rightarrow> int" where
  "backoff_ceiling c = (if hr_max_backoff c \<le> 0 then 60 * second else hr_max_backoff c)"

definition next_backoff :: "http_retry \<Rightarrow> int \<Rightarrow> int" where
  "next_backoff c backoff = cap_duration (wrap64 (backoff * 2)) (backoff_ceiling c)"

text \<open>
  What the loop does with the outcome of an attempt: return, or report the status and error to
  \<open>OnRetry\<close>, sleep for the given time and go on.
\<close>

datatype verdict =
    Return "go_error + http_response"
  | Again int "go_error option" int

definition verdict_on ::
  "'w env \<Rightarrow> http_retry \<Rightarrow> int \<Rightarrow> int \<Rightarrow> 'w \<Rightarrow> go_error + http_response \<Rightarrow> verdict" where
  "verdict_on E c attempt backoff w res =
     (case res of
        Inl e \<Rightarrow> if attempt = hr_max_retries c then Return (Inl e) else Again 0 (Some e) backoff
      | Inr resp \<Rightarrow>
          if rs_status resp = 429 then
            (if attempt = hr_max_retries c then Return (Inr (resp\<lparr>rs_closed := True\<rparr>))
             else let after = parse_retry_after E w (header_get (rs_headers resp) ''Retry-After'')
                  in Again 429 None (if 0 < after then after else backoff))
          else if rs_status resp \<in> {500, 502, 503, 504, 529} then
            (if attempt = hr_max_retries c then Return (Inr (resp\<lparr>rs_closed := True\<rparr>))
             else Again (rs_status resp) None backoff)
          else Return (Inr resp))"

text \<open>
  The loop, from a given attempt: the result, what happened (\<open>OnRetry\<close> is a \<open>Notified\<close>
  entry, whether or not a callback is set), and the state of the environment. The body was
  read before the loop; each attempt gets a fresh reader over it.
\<close>

function retry_loop ::
  "'w env \<Rightarrow> http_retry \<Rightarrow> 'w round_tripper \<Rightarrow> http_request \<Rightarrow> bytes option \<Rightarrow> int \<Rightarrow> int \<Rightarrow> 'w
     \<Rightarrow> (go_error + http_response) \<times> retry_log list \<times> 'w" where
  "retry_loop E c inner req body attempt backoff w =
     (if attempt > hr_max_retries c then (Inl err_budget_exhausted, [], w)
      else case env_ctx_err E w of
        Some e \<Rightarrow> (Inl e, [], w)
      | None \<Rightarrow>
          (let req' = (case body of None \<Rightarrow> req | Some b \<Rightarrow> req\<lparr>rq_body := Some (Inr b)\<rparr>);
               (res, w1) = round_trip_with_timeout E inner (hr_per_attempt c) req' w
           in case verdict_on E c attempt backoff w1 res of
                Return r \<Rightarrow> (r, [Sent req' res], w1)
              | Again status err wait \<Rightarrow>
                  (let note = [Sent req' res,
                               Notified \<lparr>ev_attempt = attempt + 1, ev_status = status, ev_err = err,
                                         ev_wait = wait\<rparr>,
                               Slept wait];
                       (stopped, w2) = go_sleep E wait w1
                   in case stopped of
                        Some e \<Rightarrow> (Inl e, note, w2)
                      | None \<Rightarrow>
                          (let (r, l, w3) = retry_loop E c inner req' body (attempt + 1)
                                 (next_backoff c backoff) w2
                           in (r, note @ l, w3)))))"
  by pat_completeness auto
termination
  by (relation "measure (\<lambda>(E, c, inner, req, body, attempt, backoff, w). nat (hr_max_retries c + 1 - attempt))")
     auto

declare retry_loop.simps [simp del]

definition retry_round_trip ::
  "'w env \<Rightarrow> http_retry \<Rightarrow> 'w round_tripper \<Rightarrow> http_request \<Rightarrow> 'w
     \<Rightarrow> (go_error + http_response) \<times> retry_log list \<times> 'w" where
  "retry_round_trip E c inner req w =
     (if hr_disabled c \<or> hr_max_retries c \<le> 0 then
        (let (r, w') = round_trip_with_timeout E inner (hr_per_attempt c) req w
         in (r, [Sent req r], w'))
      else case rq_body req of
             Some (Inl e) \<Rightarrow> (Inl e, [], w)
           | Some (Inr b) \<Rightarrow> retry_loop E c inner req (Some b) 0 (start_backoff c) w
           | None \<Rightarrow> retry_loop E c inner req None 0 (start_backoff c) w)"

subsection \<open>What the retry loop promises\<close>

fun is_sent :: "retry_log \<Rightarrow> bool" where
  "is_sent (Sent q r) = True"
| "is_sent _ = False"

definition attempts :: "retry_log list \<Rightarrow> nat" where
  "attempts l = length (filter is_sent l)"

text \<open>Where an error of the caller's context can come from.\<close>

definition ctx_error :: "'w env \<Rightarrow> go_error \<Rightarrow> bool" where
  "ctx_error E e \<longleftrightarrow> (\<exists>w. env_ctx_err E w = Some e) \<or> (\<exists>d w. fst (env_wait E d w) = Some e)"

lemma go_sleep_ctx_error: "go_sleep E d w = (Some e, w') \<Longrightarrow> ctx_error E e"
  by (auto simp: go_sleep_def ctx_error_def split: if_splits) (metis fst_conv)

text \<open>
  Induction over the iterations of the loop: a property of the attempt number, the backoff and
  the outcome holds if it holds where the loop ends and is passed back by each retry.
\<close>

lemma same_request: "\<forall>x. body = Some x \<longrightarrow> rq_body req = Some (Inr x) \<Longrightarrow>
    (case body of None \<Rightarrow> req | Some x \<Rightarrow> req\<lparr>rq_body := Some (Inr x)\<rparr>) = req"
  by (cases req) (auto split: option.split)

lemma verdict_again: "verdict_on E c k b w x = Again st er d \<Longrightarrow> k \<noteq> hr_max_retries c"
  by (auto simp: verdict_on_def Let_def split: sum.splits if_splits)

text \<open>One iteration, seen from its result.\<close>

lemma retry_loop_cases:
  assumes "retry_loop E c inner req body k b w = (res, log, w')" and "k \<le> hr_max_retries c"
    and body: "\<forall>x. body = Some x \<longrightarrow> rq_body req = Some (Inr x)"
  obtains (ctx) e where "ctx_error E e" "res = Inl e" "log = []"
  | (return) x w1 where "verdict_on E c k b w1 x = Return res" "log = [Sent req x]"
  | (stopped) x w1 st er d e where "verdict_on E c k b w1 x = Again st er d" "ctx_error E e" "res = Inl e"
      "log = [Sent req x, Notified \<lparr>ev_attempt = k + 1, ev_status = st, ev_err = er, ev_wait = d\<rparr>, Slept d]"
  | (retry) x w1 st er d l w2 where "verdict_on E c k b w1 x = Again st er d" "k < hr_max_retries c"
      "retry_loop E c inner req body (k + 1) (next_backoff c b) w2 = (res, l, w')"
      "log = [Sent req x, Notified \<lparr>ev_attempt = k + 1, ev_status = st, ev_err = er, ev_wait = d\<rparr>, Slept d] @ l"
proof (cases "env_ctx_err E w")
  case (Some e)
  then have "ctx_error E e" by (auto simp: ctx_error_def)
  with assms(1,2) Some ctx show thesis by (simp add: retry_loop.simps)
next
  case None
  obtain x w1 where x: "round_trip_with_timeout E inner (hr_per_attempt c) req w = (x, w1)"
    by (metis prod.collapse)
  have same: "(case body of None \<Rightarrow> req | Some x \<Rightarrow> req\<lparr>rq_body := Some (Inr x)\<rparr>) = req"
    using body by (rule same_request)
  note step = assms(1) [unfolded retry_loop.simps [of E c inner req body k b w] Let_def same]
  show thesis
  proof (cases "verdict_on E c k b w1 x")
    case (Return r)
    with step None x assms(2) have "r = res" "log = [Sent req x]" by (simp_all add: Let_def)
    with Return return show thesis by blast
  next
    case (Again st er d)
    obtain stop w2 where sl: "go_sleep E d w1 = (stop, w2)" by (metis prod.collapse)
    have less: "k < hr_max_retries c" using verdict_again [OF Again] assms(2) by simp
    show thesis
    proof (cases stop)
      case (Some e)
      with step None x assms(2) Again sl have "res = Inl e"
        "log = [Sent req x, Notified \<lparr>ev_attempt = k + 1, ev_status = st, ev_err = er, ev_wait = d\<rparr>, Slept d]"
        by (simp_all add: Let_def)
      with stopped Again go_sleep_ctx_error [of E d w1 e w2] sl Some show thesis by blast
    next
      case N: None
      obtain r l w3 where rec: "retry_loop E c inner req body (k + 1) (next_backoff c b) w2 = (r, l, w3)"
        by (metis prod.collapse)
      with step None x assms(2) Again sl N have "r = res" "w3 = w'"
        "log = [Sent req x, Notified \<lparr>ev_attempt = k + 1, ev_status = st, ev_err = er, ev_wait = d\<rparr>, Slept d] @ l"
        by (simp_all add: Let_def)
      with retry Again less rec show thesis by blast
    qed
  qed
qed

lemma retry_loop_induct [consumes 3, case_names ctx return stopped retry]:
  assumes run: "retry_loop E c inner req body k b w = (res, log, w')"
    and k: "k \<le> hr_max_retries c"
    and body: "\<forall>x. body = Some x \<longrightarrow> rq_body req = Some (Inr x)"
    and ctx: "\<And>k b e. k \<le> hr_max_retries c \<Longrightarrow> ctx_error E e \<Longrightarrow> P k b (Inl e) []"
    and return: "\<And>k b w r x. k \<le> hr_max_retries c \<Longrightarrow> verdict_on E c k b w x = Return r \<Longrightarrow> P k b r [Sent req x]"
    and stopped: "\<And>k b w x st er d e. k \<le> hr_max_retries c \<Longrightarrow> verdict_on E c k b w x = Again st er d \<Longrightarrow> ctx_error E e \<Longrightarrow>
      P k b (Inl e) [Sent req x, Notified \<lparr>ev_attempt = k + 1, ev_status = st, ev_err = er, ev_wait = d\<rparr>, Slept d]"
    and retry: "\<And>k b w x st er d r l. k < hr_max_retries c \<Longrightarrow> verdict_on E c k b w x = Again st er d \<Longrightarrow>
      P (k + 1) (next_backoff c b) r l \<Longrightarrow>
      P k b r ([Sent req x, Notified \<lparr>ev_attempt = k + 1, ev_status = st, ev_err = er, ev_wait = d\<rparr>, Slept d] @ l)"
  shows "P k b res log"
  using run k body
proof (induction "nat (hr_max_retries c - k)" arbitrary: k b w log rule: less_induct)
  case less
  from less.prems show ?case
  proof (cases rule: retry_loop_cases)
    case (ctx e)
    with less.prems(2) assms(4) show ?thesis by simp
  next
    case (return x w1)
    with less.prems(2) assms(5) show ?thesis by simp
  next
    case (stopped x w1 st er d e)
    with less.prems(2) assms(6) show ?thesis by simp
  next
    case (retry x w1 st er d l w2)
    have "P (k + 1) (next_backoff c b) res l"
      using retry(2,3) less.prems(3) by (intro less.hyps) auto
    with retry assms(7) show ?thesis by simp
  qed
qed

lemma attempts_simps [simp]:
  "attempts [] = 0"
  "attempts (Sent q r # l) = Suc (attempts l)"
  "attempts (Notified ev # l) = attempts l"
  "attempts (Slept d # l) = attempts l"
  by (simp_all add: attempts_def)

lemma verdict_return:
  "verdict_on E c k b w x = Return r \<Longrightarrow>
    (case x of
       Inl e \<Rightarrow> k = hr_max_retries c \<and> r = Inl e
     | Inr resp \<Rightarrow> if retryable_status (rs_status resp)
         then k = hr_max_retries c \<and> r = Inr (resp\<lparr>rs_closed := True\<rparr>) else r = Inr resp)"
  by (auto simp: verdict_on_def Let_def retryable_status_def split: sum.splits if_splits)

definition settled :: "'w env \<Rightarrow> http_retry \<Rightarrow> http_request \<Rightarrow> int \<Rightarrow> go_error + http_response \<Rightarrow> retry_log list \<Rightarrow> bool" where
  "settled E c req k r l \<longleftrightarrow>
     (case r of
        Inl e \<Rightarrow> ctx_error E e \<or>
          (l \<noteq> [] \<and> last l = Sent req (Inl e) \<and> int (attempts l) + k = hr_max_retries c + 1)
      | Inr resp \<Rightarrow> (\<exists>x. l \<noteq> [] \<and> last l = Sent req (Inr x) \<and>
          (if retryable_status (rs_status x)
           then resp = x\<lparr>rs_closed := True\<rparr> \<and> int (attempts l) + k = hr_max_retries c + 1
           else resp = x)))"

lemma settled_retry:
  "settled E c req (k + 1) r l \<Longrightarrow> settled E c req k r ([Sent req x, Notified ev, Slept d] @ l)"
  by (auto simp: settled_def split: sum.splits)

lemma retry_loop_settles:
  assumes "retry_loop E c inner req body k b w = (res, log, w')" and "k \<le> hr_max_retries c"
    and "\<forall>x. body = Some x \<longrightarrow> rq_body req = Some (Inr x)"
  shows "int (attempts log) + k \<le> hr_max_retries c + 1 \<and> (\<forall>q x. Sent q x \<in> set log \<longrightarrow> q = req)
    \<and> settled E c req k res log"
  using assms
proof (induction rule: retry_loop_induct)
  case (ctx k b e)
  then show ?case by (simp add: settled_def)
next
  case (return k b w r x)
  then show ?case
    using verdict_return [OF return(2)] by (auto simp: settled_def split: sum.splits if_splits)
next
  case (stopped k b w x st er d e)
  then show ?case by (simp add: settled_def)
next
  case (retry k b w x st er d r l)
  then have "settled E c req (k + 1) r l" by simp
  then show ?case using retry settled_retry by auto
qed

lemma verdict_wait:
  "verdict_on E c k b w x = Again st er d \<Longrightarrow> d = b \<or> (st = 429 \<and> 0 < d)"
  by (auto simp: verdict_on_def Let_def split: sum.splits if_splits)

lemma retry_loop_waits:
  assumes "retry_loop E c inner req body k b w = (res, log, w')" and "k \<le> hr_max_retries c"
    and "\<forall>x. body = Some x \<longrightarrow> rq_body req = Some (Inr x)"
  shows "Notified ev \<in> set log \<Longrightarrow> k < ev_attempt ev \<and> ev_attempt ev \<le> hr_max_retries c \<and>
    (ev_wait ev = (next_backoff c ^^ nat (ev_attempt ev - k - 1)) b \<or> (ev_status ev = 429 \<and> 0 < ev_wait ev))"
  using assms
proof (induction rule: retry_loop_induct)
  case (stopped k b w x st er d e)
  then show ?case using verdict_wait [OF stopped(2)] verdict_again [OF stopped(2)] by auto
next
  case (retry k b w x st er d r l)
  show ?case
  proof (cases "Notified ev \<in> set l")
    case True
    with retry have *: "k + 1 < ev_attempt ev" "ev_attempt ev \<le> hr_max_retries c"
      "ev_wait ev = (next_backoff c ^^ nat (ev_attempt ev - (k + 1) - 1)) (next_backoff c b)
        \<or> (ev_status ev = 429 \<and> 0 < ev_wait ev)" by blast+
    then have "nat (ev_attempt ev - k - 1) = Suc (nat (ev_attempt ev - (k + 1) - 1))" by simp
    with * show ?thesis by (simp only: funpow_Suc_right o_apply) auto
  next
    case False
    with retry have "ev = \<lparr>ev_attempt = k + 1, ev_status = st, ev_err = er, ev_wait = d\<rparr>" by auto
    with retry(1) verdict_wait [OF retry(2)] show ?thesis by auto
  qed
qed auto

text \<open>The backoff doubles up to its ceiling.\<close>

lemma next_backoff_powers:
  assumes "0 < b" "b < 2 ^ 62" "0 < hr_max_backoff c" "hr_max_backoff c < 2 ^ 62"
  shows "(next_backoff c ^^ Suc n) b = min (hr_max_backoff c) (b * 2 ^ Suc n)"
proof -
  have step: "next_backoff c m = min (hr_max_backoff c) (m * 2)" if "0 < m" "m < 2 ^ 62" for m
    using that assms(3) wrap64_id [of "m * 2"]
    by (simp add: next_backoff_def cap_duration_def backoff_ceiling_def int64_def)
  show ?thesis
  proof (induction n)
    case 0
    then show ?case using step [OF assms(1,2)] by simp
  next
    case (Suc n)
    have pos: "0 < min (hr_max_backoff c) (b * 2 ^ Suc n)" using assms by simp
    then have "(next_backoff c ^^ Suc (Suc n)) b = min (hr_max_backoff c) (min (hr_max_backoff c) (b * 2 ^ Suc n) * 2)"
      using Suc step assms(4) by simp
    also have "\<dots> = min (hr_max_backoff c) (b * 2 ^ Suc (Suc n))"
      using assms(3) by (auto simp: min_def)
    finally show ?case .
  qed
qed

lemma retry_attempts_bounded':
  "case retry_round_trip E c inner req w of (res, log, w') \<Rightarrow>
     attempts log \<le> (if hr_disabled c \<or> hr_max_retries c \<le> 0 then 1 else Suc (nat (hr_max_retries c)))
     \<and> list_all (\<lambda>e. case e of Sent q x \<Rightarrow> q = req | _ \<Rightarrow> True) log"
proof -
  obtain res log w' where run: "retry_round_trip E c inner req w = (res, log, w')" by (metis prod.collapse)
  have all: "(\<forall>q x. Sent q x \<in> set log \<longrightarrow> q = req) \<Longrightarrow>
      list_all (\<lambda>e. case e of Sent q x \<Rightarrow> q = req | _ \<Rightarrow> True) log"
    by (auto simp: list_all_iff split: retry_log.split)
  show ?thesis
  proof (cases "hr_disabled c \<or> hr_max_retries c \<le> 0")
    case True
    with run show ?thesis by (auto simp: retry_round_trip_def split: prod.splits)
  next
    case False
    have loop: ?thesis if "retry_loop E c inner req body 0 b w = (res, log, w')"
      and "\<forall>x. body = Some x \<longrightarrow> rq_body req = Some (Inr x)" for body b
      using retry_loop_settles [OF that(1) _ that(2)] False all run by auto
    from run False loop show ?thesis
      by (auto simp: retry_round_trip_def split: option.splits sum.splits)
  qed
qed

text \<open>
  Retries are bounded, and replay the request. Whatever the upstream does, at most
  MaxRetries + 1 attempts are made (one when retries are off), and every attempt sends the very
  request the caller made, its body included.
\<close>

theorem retry_attempts_bounded:
  "case retry_round_trip E c inner req w of (res, log, w') \<Rightarrow>
     attempts log \<le> (if hr_disabled c \<or> hr_max_retries c \<le> 0 then 1 else Suc (nat (hr_max_retries c)))
     \<and> list_all (\<lambda>e. case e of Sent q x \<Rightarrow> q = req | _ \<Rightarrow> True) log"
  by (rule retry_attempts_bounded')

definition enabled :: "http_retry \<Rightarrow> bool" where
  "enabled c \<longleftrightarrow> \<not> hr_disabled c \<and> 0 < hr_max_retries c"

lemma enabled_loop:
  assumes "enabled c" and "retry_round_trip E c inner req w = (res, log, w')"
  obtains (unread) e where "rq_body req = Some (Inl e)" "res = Inl e" "log = []"
  | (loop) body where "retry_loop E c inner req body 0 (start_backoff c) w = (res, log, w')"
      "\<forall>x. body = Some x \<longrightarrow> rq_body req = Some (Inr x)"
  using assms by (auto simp: retry_round_trip_def enabled_def split: option.splits sum.splits)


text \<open>
  the backoff. With backoffs in a sane range, the wait reported before retry number n + 1 is
  the initial backoff for n = 1 and twice as much each time up to MaxBackoff, unless a 429
  response asked for another positive one; the attempt numbers reported lie between 1 and
  MaxRetries.
\<close>

theorem retry_backoff:
  assumes "enabled c" and "0 < hr_initial_backoff c" "hr_initial_backoff c < 2 ^ 62"
    and "0 < hr_max_backoff c" "hr_max_backoff c < 2 ^ 62"
    and "retry_round_trip E c inner req w = (res, log, w')" and "Notified ev \<in> set log"
  shows "1 \<le> ev_attempt ev \<and> ev_attempt ev \<le> hr_max_retries c \<and>
    (ev_wait ev = (if ev_attempt ev = 1 then hr_initial_backoff c
                   else min (hr_max_backoff c) (hr_initial_backoff c * 2 ^ nat (ev_attempt ev - 1)))
     \<or> (ev_status ev = 429 \<and> 0 < ev_wait ev))"
  using assms(1,6)
proof (cases rule: enabled_loop)
  case unread
  with assms(7) show ?thesis by simp
next
  case (loop body)
  have b: "start_backoff c = hr_initial_backoff c" using assms(2) by (simp add: start_backoff_def)
  have w: "0 < ev_attempt ev \<and> ev_attempt ev \<le> hr_max_retries c \<and>
    (ev_wait ev = (next_backoff c ^^ nat (ev_attempt ev - 1)) (hr_initial_backoff c)
     \<or> (ev_status ev = 429 \<and> 0 < ev_wait ev))"
    using retry_loop_waits [OF loop(1) _ loop(2) assms(7)] assms(1) b by (simp add: enabled_def)
  show ?thesis
  proof (cases "ev_attempt ev = 1")
    case True
    with w show ?thesis by simp
  next
    case False
    with w obtain n where n: "nat (ev_attempt ev - 1) = Suc n" by (cases "nat (ev_attempt ev - 1)") auto
    from w next_backoff_powers [OF assms(2,3,4,5), of n] False show ?thesis unfolding n by (simp del: funpow.simps)
  qed
qed

text \<open>A run against a scripted upstream: a 503, a 429 that asks for three seconds, and a 200.\<close>

definition scripted :: "(go_error + http_response) list env" where
  "scripted = \<lparr>
     env_send = (\<lambda>_ req w. case w of [] \<Rightarrow> (Inl (PlainErr ''connection refused''), []) | r # rs \<Rightarrow> (r, rs)),
     env_fired = (\<lambda>_. False), env_ctx_err = (\<lambda>_. None), env_wait = (\<lambda>d w. (None, w)),
     env_until = (\<lambda>_ _. None)\<rparr>"

definition response_with :: "int \<Rightarrow> headers \<Rightarrow> http_response" where
  "response_with st h = \<lparr>rs_status = st, rs_headers = h, rs_body = [], rs_limit = None,
     rs_closed = False, rs_cancel_on_close = False\<rparr>"

definition scripted_config :: http_retry where
  "scripted_config = \<lparr>hr_max_retries = 3, hr_initial_backoff = 90 * second, hr_max_backoff = 60 * second,
     hr_disabled = False, hr_per_attempt = 0\<rparr>"

definition scripted_request :: http_request where
  "scripted_request = \<lparr>rq_method = ''POST'', rq_url = ''https://host/v1'', rq_headers = [],
     rq_body = Some (Inr ''{}''), rq_budget = None\<rparr>"

definition scripted_log :: "retry_log list" where
  "scripted_log =
     [Sent scripted_request (Inr (response_with 503 [])),
      Notified \<lparr>ev_attempt = 1, ev_status = 503, ev_err = None, ev_wait = 90 * second\<rparr>, Slept (90 * second),
      Sent scripted_request (Inr (response_with 429 [(''Retry-After'', ''3'')])),
      Notified \<lparr>ev_attempt = 2, ev_status = 429, ev_err = None, ev_wait = 3 * second\<rparr>, Slept (3 * second),
      Sent scripted_request (Inr (response_with 200 []))]"

definition scripted_script :: "(go_error + http_response) list" where
  "scripted_script =
     [Inr (response_with 503 []), Inr (response_with 429 [(''Retry-After'', ''3'')]), Inr (response_with 200 [])]"

lemma scripted_run:
  "retry_round_trip scripted scripted_config (env_send scripted DefaultTransport) scripted_request scripted_script
   = (Inr (response_with 200 []), scripted_log, [])"
  by code_simp


theorem retry_backoff_witness:
  "1 \<le> (2 :: int) \<and> 2 \<le> hr_max_retries scripted_config \<and>
    (3 * second = (if (2 :: int) = 1 then hr_initial_backoff scripted_config
        else min (hr_max_backoff scripted_config) (hr_initial_backoff scripted_config * 2 ^ nat (2 - 1)))
     \<or> ((429 :: int) = 429 \<and> 0 < 3 * second))"
  using retry_backoff [OF _ _ _ _ _ scripted_run,
      of "\<lparr>ev_attempt = 2, ev_status = 429, ev_err = None, ev_wait = 3 * second\<rparr>"]
  by (simp add: enabled_def scripted_config_def scripted_log_def second_def)

text \<open>
  The comment on RetryConfig says that MaxBackoff caps individual backoffs. The first one is not
  capped: with an initial backoff of 90 seconds and a cap of 60, the first retry waits 90.
\<close>

lemma first_backoff_not_capped:
  "Slept (90 * second) \<in> set scripted_log" "hr_max_backoff scripted_config = 60 * second"
  by (simp_all add: scripted_log_def scripted_config_def)

lemma itoa_nonempty [simp]: "itoa n \<noteq> []"
  by (simp add: itoa_def)

text \<open>
  parseRetryAfter is exact for every number of seconds a duration can hold (up to
  9223372036, about 292 years).
\<close>

theorem retry_after_seconds:
  assumes "0 \<le> n" and "n \<le> 9223372036"
  shows "parse_retry_after E w (itoa n) = n * second"
proof -
  have "int64 n" using assms by (simp add: int64_def)
  moreover have "int64 (n * second)" using assms by (simp add: int64_def second_def)
  ultimately show ?thesis by (simp add: parse_retry_after_def atoi_itoa wrap64_id)
qed

theorem retry_after_seconds_witness:
  "parse_retry_after scripted [] (itoa 30) = 30 * second"
  by (rule retry_after_seconds) simp_all

text \<open>
  Beyond that the multiplication wraps: a server that asks for 18446744074 seconds is granted
  less than a third of one.
\<close>

lemma retry_after_wraps: "parse_retry_after E w (itoa 18446744074) = 290448384"
  by (simp add: parse_retry_after_def atoi_itoa int64_def wrap64_def second_def)

end
