(* ===== verification/Transport.thy ===== *)
theory Transport
  imports HttpClient
begin

text \<open>
  The transport stack and the client over it (\<open>llm/internal/httpclient/httpclient.go\<close>): header
  injection, the response limit, \<open>New\<close> and its helpers, and the request helpers \<open>DoJSON\<close> and
  \<open>DoSSERequest\<close>. The hard-cancel watchdog (\<open>hardcancel.go\<close>) acts on sockets only and is not
  modelled: \<open>withHardCancel\<close> leaves the request as it is.
\<close>

subsection \<open>The layers\<close>

datatype transport =
    BaseTransport base_transport
  | RetryTransport http_retry transport
  | HeaderTransport headers transport
  | LimitTransport int transport

text \<open>\<open>HeaderTransport.RoundTrip\<close>: the headers in the order the runtime visits the map.\<close>

definition inject_headers :: "headers \<Rightarrow> http_request \<Rightarrow> http_request" where
  "inject_headers hs req =
     req\<lparr>rq_headers := foldl (\<lambda>h (k, v). if header_get h k = [] then header_set k v h else h)
                         (rq_headers req) hs\<rparr>"

fun round_trip ::
  "'w env \<Rightarrow> transport \<Rightarrow> http_request \<Rightarrow> 'w \<Rightarrow> (go_error + http_response) \<times> retry_log list \<times> 'w" where
  "round_trip E (BaseTransport b) req w = (let (r, w') = env_send E b req w in (r, [Sent req r], w'))"
| "round_trip E (RetryTransport c t) req w =
     retry_round_trip E c (\<lambda>q u. let (r, l, u') = round_trip E t q u in (r, u')) req w"
| "round_trip E (HeaderTransport hs t) req w =
     (if hs = [] then round_trip E t req w else round_trip E t (inject_headers hs req) w)"
| "round_trip E (LimitTransport mx t) req w =
     (let (r, l, w') = round_trip E t req w
      in (map_sum id (\<lambda>resp. resp\<lparr>rs_limit := Some mx\<rparr>) r, l, w'))"

subsection \<open>\<open>New\<close>\<close>

text \<open>The redirect check of a client: \<open>None\<close> follows redirects, which is Go's default.\<close>

datatype redirect_check = RefuseRedirect | CallerRedirect

record http_client =
  hc_transport :: transport
  hc_redirect :: "redirect_check option"
  hc_timeout :: int

text \<open>The caller's \<open>http.Client\<close>: whether it has a transport and a redirect check, and its timeout.\<close>

record base_client =
  bc_has_transport :: bool
  bc_has_redirect :: bool
  bc_timeout :: int

definition default_timeout :: int where
  "default_timeout = 120 * second"

definition default_max_response_bytes :: int where
  "default_max_response_bytes = 268435456"

definition copy_client :: "base_client option \<Rightarrow> base_client" where
  "copy_client b =
     (case b of
        None \<Rightarrow> \<lparr>bc_has_transport = False, bc_has_redirect = False, bc_timeout = 0\<rparr>
      | Some c \<Rightarrow> c)"

definition base_transport_of :: "base_client option \<Rightarrow> base_transport" where
  "base_transport_of b =
     (case b of
        Some c \<Rightarrow> if bc_has_transport c then CallerTransport else DefaultTransport
      | None \<Rightarrow> DefaultTransport)"

definition retry_wanted :: "http_retry \<Rightarrow> bool" where
  "retry_wanted c = ((\<not> hr_disabled c \<and> hr_max_retries c > 0) \<or> hr_per_attempt c > 0)"

definition build_transport :: "transport \<Rightarrow> headers \<Rightarrow> http_retry \<Rightarrow> int \<Rightarrow> transport" where
  "build_transport t0 hs retry max_response =
     (let t1 = (if retry_wanted retry then RetryTransport retry t0 else t0);
          t2 = (if hs \<noteq> [] then HeaderTransport hs t1 else t1);
          mx = (if max_response \<le> 0 then default_max_response_bytes else max_response)
      in LimitTransport mx t2)"

definition resolve_timeout :: "int \<Rightarrow> int \<Rightarrow> int" where
  "resolve_timeout timeout existing =
     (if timeout > 0 then timeout else if existing = 0 then default_timeout else existing)"

definition new_http_client ::
  "base_client option \<Rightarrow> headers \<Rightarrow> http_retry \<Rightarrow> int \<Rightarrow> int \<Rightarrow> http_client" where
  "new_http_client base hs retry timeout max_response =
     (let out = copy_client base
      in \<lparr>hc_transport = build_transport (BaseTransport (base_transport_of base)) hs retry max_response,
          hc_redirect = Some (if bc_has_redirect out then CallerRedirect else RefuseRedirect),
          hc_timeout = resolve_timeout timeout (bc_timeout out)\<rparr>)"

definition refuse_redirect :: "int option \<Rightarrow> string \<Rightarrow> go_error" where
  "refuse_redirect response_status host =
     PlainErr (''refusing to follow HTTP '' @ itoa (case response_status of None \<Rightarrow> 0 | Some st \<Rightarrow> st)
       @ '' redirect to host '' @ go_quote host)"

subsection \<open>\<open>DoJSON\<close> and \<open>DoSSERequest\<close>\<close>

text \<open>
  Their environment: \<open>net/http\<close> itself, as the outcome of \<open>http.NewRequestWithContext\<close> for a
  method and URL, \<open>Client.Do\<close>, and the buffer growth of \<open>io.ReadAll\<close>.
\<close>

record 'w http_api =
  api_new_request_err :: "string \<Rightarrow> string \<Rightarrow> go_error option"
  api_do :: "http_request \<Rightarrow> 'w \<Rightarrow> (go_error + http_response) \<times> 'w"
  api_room :: "nat \<Rightarrow> nat"

text \<open>A response body behind its limit; the client always sets one.\<close>

definition body_limit :: "http_response \<Rightarrow> int" where
  "body_limit resp = (case rs_limit resp of Some mx \<Rightarrow> mx | None \<Rightarrow> int (length (raw_content (rs_body resp))))"

definition read_body :: "(nat \<Rightarrow> nat) \<Rightarrow> http_response \<Rightarrow> (bytes \<times> go_error option) option" where
  "read_body room resp =
     read_all (limited_read raw_read) room [] (limit_body (body_limit resp) (rs_body resp))"

text \<open>
  \<open>headers\<close> in the order the runtime visits the map; the request body is \<open>None\<close> for a nil
  \<open>reqBody\<close> and otherwise the outcome of \<open>json.Marshal\<close>.
\<close>

definition request_for ::
  "string \<Rightarrow> string \<Rightarrow> headers \<Rightarrow> headers \<Rightarrow> bytes option \<Rightarrow> http_request" where
  "request_for method url initial hs body =
     \<lparr>rq_method = method, rq_url = url,
      rq_headers = foldl (\<lambda>h (k, v). header_set k v h) initial hs,
      rq_body = map_option Inr body, rq_budget = None\<rparr>"

record json_result =
  jr_status :: int
  jr_body :: "bytes option"
  jr_err :: "go_error option"

definition json_failure :: "go_error \<Rightarrow> json_result" where
  "json_failure e = \<lparr>jr_status = 0, jr_body = None, jr_err = Some e\<rparr>"

text \<open>
  \<open>decode\<close> is \<open>json.Unmarshal\<close> into \<open>dest\<close>: \<open>None\<close> when \<open>dest\<close> is nil. The outer \<open>option\<close> of
  the result is \<open>None\<close> only if reading the body never ends.
\<close>

definition do_json ::
  "'w http_api \<Rightarrow> string \<Rightarrow> string \<Rightarrow> headers \<Rightarrow> (go_error + bytes) option \<Rightarrow>
     (bytes \<Rightarrow> go_error + 'd) option \<Rightarrow> 'w \<Rightarrow> (json_result \<times> 'd option) option \<times> 'w" where
  "do_json A method url hs body decode w =
     (case body of
        Some (Inl e) \<Rightarrow> (Some (json_failure (WrapErr ''marshal request: '' e), None), w)
      | _ \<Rightarrow>
        let data = (case body of Some (Inr b) \<Rightarrow> Some b | _ \<Rightarrow> None)
        in case api_new_request_err A method url of
          Some e \<Rightarrow> (Some (json_failure (WrapErr ''create request: '' e), None), w)
        | None \<Rightarrow>
            (let initial = (if data = None then [] else [(''Content-Type'', ''application/json'')]);
                 (res, w') = api_do A (request_for method url initial hs data) w
             in (case res of
                   Inl e \<Rightarrow> Some (json_failure (WrapErr ''send request: '' e), None)
                 | Inr resp \<Rightarrow>
                     if rs_status resp < 200 \<or> 300 \<le> rs_status resp then
                       map_option (\<lambda>b. (\<lparr>jr_status = rs_status resp, jr_body = Some b, jr_err = None\<rparr>, None))
                         (read_error_body (api_room A) (limit_body (body_limit resp) (rs_body resp)))
                     else
                       (case read_body (api_room A) resp of
                          None \<Rightarrow> None
                        | Some (b, Some e) \<Rightarrow> Some (json_failure (WrapErr ''read response: '' e), None)
                        | Some (b, None) \<Rightarrow>
                            (case decode of
                               None \<Rightarrow> Some (\<lparr>jr_status = rs_status resp, jr_body = Some b, jr_err = None\<rparr>, None)
                             | Some f \<Rightarrow>
                                 (case f b of
                                    Inl e \<Rightarrow> Some (\<lparr>jr_status = rs_status resp, jr_body = Some b,
                                               jr_err = Some (WrapErr ''decode response: '' e)\<rparr>, None)
                                  | Inr d \<Rightarrow> Some (\<lparr>jr_status = rs_status resp, jr_body = Some b,
                                               jr_err = None\<rparr>, Some d)))),
                 w')))"

definition do_sse_request ::
  "'w http_api \<Rightarrow> string \<Rightarrow> string \<Rightarrow> headers \<Rightarrow> (go_error + bytes) option \<Rightarrow> 'w
     \<Rightarrow> (go_error + http_response) \<times> 'w" where
  "do_sse_request A method url hs body w =
     (case body of
        Some (Inl e) \<Rightarrow> (Inl (WrapErr ''marshal request: '' e), w)
      | _ \<Rightarrow>
        let data = (case body of Some (Inr b) \<Rightarrow> Some b | _ \<Rightarrow> None)
        in case api_new_request_err A method url of
          Some e \<Rightarrow> (Inl (WrapErr ''create request: '' e), w)
        | None \<Rightarrow> api_do A (request_for method url [] hs data) w)"

subsection \<open>What the stack promises\<close>

lemma header_get_set: "header_get (header_set k v h) k' = (if to_lower k' = to_lower k then v else header_get h k')"
proof -
  have "find (\<lambda>p. to_lower (fst p) = to_lower k') (filter (\<lambda>p. to_lower (fst p) \<noteq> to_lower k) h @ [(k, v)])
    = (if to_lower k' = to_lower k then Some (k, v) else find (\<lambda>p. to_lower (fst p) = to_lower k') h)"
    by (induction h) auto
  then show ?thesis by (simp add: header_get_def header_set_def)
qed

lemma inject_get:
  "header_get (foldl (\<lambda>h (k, v). if header_get h k = [] then header_set k v h else h) h hs) k =
     (if header_get h k \<noteq> [] then header_get h k
      else case find (\<lambda>p. to_lower (fst p) = to_lower k \<and> snd p \<noteq> []) hs of
             Some p \<Rightarrow> snd p | None \<Rightarrow> [])"
proof (induction hs arbitrary: h)
  case (Cons p hs)
  obtain k' v where p: "p = (k', v)" by (cases p)
  have same: "to_lower k' = to_lower k \<Longrightarrow> header_get h k' = header_get h k"
    by (simp add: header_get_def)
  show ?case using same by (simp add: p Cons.IH header_get_set)
qed simp

text \<open>
  custom headers never override. After HeaderTransport, a header the request already had
  keeps its value; one it lacked has the first non-empty value configured for it, whatever the
  order the map is visited in, or none.
\<close>

theorem inject_headers_spec:
  "header_get (rq_headers (inject_headers hs req)) k =
     (if header_get (rq_headers req) k \<noteq> [] then header_get (rq_headers req) k
      else case find (\<lambda>p. to_lower (fst p) = to_lower k \<and> snd p \<noteq> []) hs of
             Some p \<Rightarrow> snd p | None \<Rightarrow> [])"
  by (simp add: inject_headers_def inject_get)

lemma base_or_retry:
  "case round_trip E (if retry_wanted c then RetryTransport c (BaseTransport b) else BaseTransport b) req w of
     (res, log, w') \<Rightarrow>
       attempts log \<le> (if hr_disabled c \<or> hr_max_retries c \<le> 0 then 1 else Suc (nat (hr_max_retries c)))
       \<and> list_all (\<lambda>e. case e of Sent q x \<Rightarrow> q = req | _ \<Rightarrow> True) log"
proof (cases "retry_wanted c")
  case True
  then show ?thesis
    by (simp only: round_trip.simps if_True) (rule retry_attempts_bounded')
next
  case False
  then show ?thesis by (simp split: prod.splits)
qed

lemma new_client_round_trip':
  "case round_trip E (hc_transport (new_http_client base hs c timeout mx)) req w of
     (res, log, w') \<Rightarrow>
       attempts log \<le> (if hr_disabled c \<or> hr_max_retries c \<le> 0 then 1 else Suc (nat (hr_max_retries c)))
       \<and> list_all (\<lambda>e. case e of Sent q x \<Rightarrow> q = (if hs = [] then req else inject_headers hs req) | _ \<Rightarrow> True) log
       \<and> (case res of
            Inl e \<Rightarrow> True
          | Inr resp \<Rightarrow> rs_limit resp = Some (if mx \<le> 0 then 268435456 else mx))"
proof -
  let ?t = "if retry_wanted c then RetryTransport c (BaseTransport (base_transport_of base))
    else BaseTransport (base_transport_of base)"
  let ?req = "if hs = [] then req else inject_headers hs req"
  obtain res log w' where run: "round_trip E ?t ?req w = (res, log, w')" by (metis prod.collapse)
  have "hc_transport (new_http_client base hs c timeout mx) =
      LimitTransport (if mx \<le> 0 then 268435456 else mx) (if hs \<noteq> [] then HeaderTransport hs ?t else ?t)"
    by (simp add: new_http_client_def build_transport_def Let_def default_max_response_bytes_def)
  then have "round_trip E (hc_transport (new_http_client base hs c timeout mx)) req w =
      (map_sum id (\<lambda>resp. resp\<lparr>rs_limit := Some (if mx \<le> 0 then 268435456 else mx)\<rparr>) res, log, w')"
    using run by (cases "hs = []") simp_all
  moreover note base_or_retry [where E = E and c = c and w = w and b = "base_transport_of base" and req = ?req,
      unfolded run prod.case]
  ultimately show ?thesis by (cases res) simp_all
qed

text \<open>
  the client New builds, on any round trip: at most MaxRetries + 1 attempts reach the base
  transport (one when retries are off), each carrying the request with the custom headers
  injected, and every response that comes back is limited to the configured number of bytes,
  or to the default of 256 MiB.
\<close>

theorem new_client_round_trip:
  "case round_trip E (hc_transport (new_http_client base hs c timeout mx)) req w of
     (res, log, w') \<Rightarrow>
       attempts log \<le> (if hr_disabled c \<or> hr_max_retries c \<le> 0 then 1 else Suc (nat (hr_max_retries c)))
       \<and> list_all (\<lambda>e. case e of Sent q x \<Rightarrow> q = (if hs = [] then req else inject_headers hs req) | _ \<Rightarrow> True) log
       \<and> (case res of
            Inl e \<Rightarrow> True
          | Inr resp \<Rightarrow> rs_limit resp = Some (if mx \<le> 0 then 268435456 else mx))"
  by (rule new_client_round_trip')

lemma read_body_result:
  "read_body room resp =
     Some (if nat (body_limit resp) < length (raw_content (rs_body resp))
           then (take (nat (body_limit resp)) (raw_content (rs_body resp)), Some (over_limit (body_limit resp)))
           else (raw_content (rs_body resp), raw_ending (rs_body resp)))"
  using lim.read_all_delivers [of room "[]" "limit_body (body_limit resp) (rs_body resp)"]
  by (auto simp: read_body_def limit_body_def limited_content_def limited_endings_def split: if_splits)

lemma error_body_result:
  "read_error_body room (limit_body mx body) = Some (take (min 65536 (nat mx)) (raw_content body))"
  using errbody.read_all_delivers [of room "[]" "(limit_body mx body, max_error_body)"]
  by (auto simp: read_error_body_def limit_reader_content_def limited_content_def limit_body_def
      max_error_body_def take_take)


definition one_response :: "http_response \<Rightarrow> unit http_api" where
  "one_response resp = \<lparr>api_new_request_err = (\<lambda>_ _. None), api_do = (\<lambda>_ w. (Inr resp, w)),
     api_room = (\<lambda>_. 511)\<rparr>"

definition short_response :: http_response where
  "short_response = \<lparr>rs_status = 200, rs_headers = [], rs_body = [(''{'', None), (''}'', Some EofErr)],
     rs_limit = Some 10, rs_closed = False, rs_cancel_on_close = False\<rparr>"


end
