(* ===== verification/Extensions.thy ===== *)
theory Extensions
  imports LlmTypes
begin

text \<open>
  Provider extensions: the \<open>Extension\<close> types of the Anthropic and OpenAI packages
  (\<open>anthropic/cachecontrol.go\<close>, \<open>openai/extension.go\<close>), the helpers that attach them to a
  request, and how each provider finds its own.
\<close>

record anthropic_extension =
  ax_cache_tools_through :: int
  ax_cache_system :: bool
  ax_extended_thinking :: bool
  ax_budget_tokens :: int

text \<open>Extra body fields keep the order the runtime visits the map in; a value is whatever
  \<open>json.Marshal\<close> makes of it, or its error.\<close>

type_synonym extra_fields = "(string \<times> (go_error + bytes)) list"

record openai_extension =
  ox_embedding_dimensions :: int
  ox_responses_api :: "bool option"
  ox_extra_body :: extra_fields

text \<open>
  The dynamic type of a \<open>ProviderExtension\<close>: the two structs, a pointer to the OpenAI one
  (nil or not), another provider's with its name, and a nil interface.
\<close>

datatype extension =
    AnthropicExt anthropic_extension
  | OpenAIExt openai_extension
  | OpenAIExtPtr "openai_extension option"
  | OtherExt string
  | NilExt

text \<open>\<open>ProviderName\<close>. A nil entry has none; \<open>FindExtension\<close> requires that there is no such
  entry, and OpenAI's lookup skips it.\<close>

fun ext_name :: "extension \<Rightarrow> string" where
  "ext_name (AnthropicExt e) = ''anthropic''"
| "ext_name (OpenAIExt e) = ''openai''"
| "ext_name (OpenAIExtPtr p) = ''openai''"
| "ext_name (OtherExt n) = n"
| "ext_name NilExt = []"

fun as_anthropic :: "extension \<Rightarrow> anthropic_extension option" where
  "as_anthropic (AnthropicExt e) = Some e"
| "as_anthropic _ = None"

definition anthropic_ext :: "extension chat_request \<Rightarrow> anthropic_extension option" where
  "anthropic_ext req = find_extension ext_name as_anthropic (req_extensions req) ''anthropic''"

text \<open>OpenAI's \<open>findExtension\<close>.\<close>

fun openai_ext :: "extension list \<Rightarrow> openai_extension option" where
  "openai_ext [] = None"
| "openai_ext (NilExt # es) = openai_ext es"
| "openai_ext (OpenAIExtPtr None # es) = openai_ext es"
| "openai_ext (OpenAIExtPtr (Some e) # es) = Some e"
| "openai_ext (OpenAIExt e # es) = Some e"
| "openai_ext (AnthropicExt e # es) = openai_ext es"
| "openai_ext (OtherExt n # es) = openai_ext es"

subsection \<open>The Anthropic helpers\<close>

fun mutate_first :: "(anthropic_extension \<Rightarrow> anthropic_extension) \<Rightarrow> extension list \<Rightarrow> extension list option" where
  "mutate_first f [] = None"
| "mutate_first f (AnthropicExt e # es) = Some (AnthropicExt (f e) # es)"
| "mutate_first f (e # es) = map_option ((#) e) (mutate_first f es)"

definition fresh_anthropic :: anthropic_extension where
  "fresh_anthropic = \<lparr>ax_cache_tools_through = -1, ax_cache_system = False,
     ax_extended_thinking = False, ax_budget_tokens = 0\<rparr>"

definition with_anthropic_extension ::
  "extension chat_request \<Rightarrow> (anthropic_extension \<Rightarrow> anthropic_extension) \<Rightarrow> extension chat_request" where
  "with_anthropic_extension req f =
     (case mutate_first f (req_extensions req) of
        Some es \<Rightarrow> req\<lparr>req_extensions := es\<rparr>
      | None \<Rightarrow> req\<lparr>req_extensions := req_extensions req @ [AnthropicExt (f fresh_anthropic)]\<rparr>)"

definition with_tool_caching :: "extension chat_request \<Rightarrow> extension chat_request" where
  "with_tool_caching req =
     (if req_tools req = [] then req
      else with_anthropic_extension req
             (\<lambda>e. e\<lparr>ax_cache_tools_through := int (length (req_tools req)) - 1\<rparr>))"

definition with_system_caching :: "extension chat_request \<Rightarrow> extension chat_request" where
  "with_system_caching req = with_anthropic_extension req (\<lambda>e. e\<lparr>ax_cache_system := True\<rparr>)"

definition with_extended_thinking :: "extension chat_request \<Rightarrow> int \<Rightarrow> extension chat_request" where
  "with_extended_thinking req budget =
     with_anthropic_extension req (\<lambda>e. e\<lparr>ax_extended_thinking := True, ax_budget_tokens := budget\<rparr>)"

lemma mutate_first_find:
  "case mutate_first f es of
     Some es' \<Rightarrow> \<exists>e. find_extension ext_name as_anthropic es ''anthropic'' = Some e \<and>
       find_extension ext_name as_anthropic es' ''anthropic'' = Some (f e)
   | None \<Rightarrow> find_extension ext_name as_anthropic es ''anthropic'' = None"
  by (induction f es rule: mutate_first.induct) (auto split: option.splits)

lemma find_extension_append:
  "find_extension nm as_t (xs @ ys) p =
     (case find_extension nm as_t xs p of Some t \<Rightarrow> Some t | None \<Rightarrow> find_extension nm as_t ys p)"
  by (induction xs) (auto split: option.splits)

text \<open>
  the Anthropic helpers compose. Whatever extensions a request carries already, the
  extension FindExtension finds after a helper is the one it found before (or a fresh one with
  caching off) with that helper's change applied, so no helper undoes another's.
\<close>

theorem with_extension_finds:
  "anthropic_ext (with_anthropic_extension req f) =
     Some (f (case anthropic_ext req of Some e \<Rightarrow> e | None \<Rightarrow> fresh_anthropic))"
  using mutate_first_find [of "req_extensions req" f]
  by (auto simp: with_anthropic_extension_def anthropic_ext_def find_extension_append split: option.splits)

end
