(* ===== verification/ProviderBase.thy ===== *)
theory ProviderBase
  imports Encodings Redact Transport Extensions Registry
begin

text \<open>
  What the provider packages have in common, which each of them writes out for itself: the
  construction of a client from its options (\<open>New\<close>), the checks after \<open>DoJSON\<close>, the error a
  non-2xx response becomes, and the capability tables.
\<close>

subsection \<open>\<open>New\<close>\<close>

text \<open>
  \<open>parse_err\<close> is the error \<open>url.Parse\<close> reports for a text it refuses.
\<close>

definition base_url_error :: "(string \<Rightarrow> go_error) \<Rightarrow> string \<Rightarrow> string \<Rightarrow> url_error \<Rightarrow> go_error" where
  "base_url_error parse_err name base e =
     (case e of
        BadUrl \<Rightarrow> WrapErr (''invalid '' @ name @ '' base URL: '') (parse_err (trim_suffix (trim_space base) ''/''))
      | BadScheme s \<Rightarrow> PlainErr (name @ '' base URL must use http or https scheme, got: '' @ go_quote s)
      | NoHost \<Rightarrow> PlainErr (name @ '' base URL must include a host''))"

definition retry_settings :: "'x client_options \<Rightarrow> http_retry" where
  "retry_settings opts = \<lparr>hr_max_retries = max_retries (opt_retry opts),
     hr_initial_backoff = initial_backoff (opt_retry opts), hr_max_backoff = max_backoff (opt_retry opts),
     hr_disabled = retry_disabled (opt_retry opts), hr_per_attempt = opt_per_attempt_timeout opts\<rparr>"

record 'x client_setup =
  su_opts :: "'x client_options"
  su_base_url :: string
  su_http :: http_client

text \<open>\<open>base\<close> is \<open>Options.HTTPClient\<close>; the options have their defaults by now.\<close>

definition setup_client ::
  "(string \<Rightarrow> go_error) \<Rightarrow> string \<Rightarrow> string \<Rightarrow> base_client option \<Rightarrow> 'x client_options \<Rightarrow>
     go_error + 'x client_setup" where
  "setup_client parse_err name default_url base opts =
     (case (if opt_base_url opts = [] then Inr default_url else validate_base_url (opt_base_url opts)) of
        Inl e \<Rightarrow> Inl (base_url_error parse_err name (opt_base_url opts) e)
      | Inr url \<Rightarrow>
          Inr \<lparr>su_opts = opts, su_base_url = url,
               su_http = new_http_client base (opt_custom_headers opts) (retry_settings opts)
                 (opt_request_timeout opts) (opt_max_response_bytes opts)\<rparr>)"

text \<open>\<open>read_file\<close> is the file system.\<close>

definition provider_new ::
  "(string \<Rightarrow> bytes option) \<Rightarrow> (string \<Rightarrow> go_error) \<Rightarrow> string \<Rightarrow> string \<Rightarrow> base_client option \<Rightarrow>
     'x client_options \<Rightarrow> go_error + 'x client_setup" where
  "provider_new read_file parse_err name default_url base opts0 =
     setup_client parse_err name default_url base (with_defaults read_file opts0)"

text \<open>Voyage and TypeSafe also take the key from the environment, and refuse to be without one.\<close>

definition keyed_new ::
  "(string \<Rightarrow> bytes option) \<Rightarrow> (string \<Rightarrow> string) \<Rightarrow> (string \<Rightarrow> go_error) \<Rightarrow> string \<Rightarrow> string \<Rightarrow> go_error \<Rightarrow>
     string \<Rightarrow> base_client option \<Rightarrow> 'x client_options \<Rightarrow> go_error + 'x client_setup" where
  "keyed_new read_file getenv parse_err name env_var no_key default_url base opts0 =
     (let opts1 = with_defaults read_file opts0;
          opts = (if opt_api_key opts1 = [] then opts1\<lparr>opt_api_key := getenv env_var\<rparr> else opts1)
      in if opt_api_key opts = [] then Inl no_key else setup_client parse_err name default_url base opts)"

subsection \<open>After \<open>DoJSON\<close>\<close>

text \<open>
  The three checks after every call: \<open>None\<close> when the decoded response is to be used.
\<close>

definition check_status ::
  "(int \<Rightarrow> bytes \<Rightarrow> go_error) \<Rightarrow> (int \<Rightarrow> go_error \<Rightarrow> go_error) \<Rightarrow> json_result \<Rightarrow> go_error option" where
  "check_status map_error decode_error jr =
     (case (if jr_status jr = 0 then jr_err jr else None) of
        Some e \<Rightarrow> Some e
      | None \<Rightarrow>
          if jr_status jr < 200 \<or> 300 \<le> jr_status jr then
            Some (map_error (jr_status jr) (case jr_body jr of None \<Rightarrow> [] | Some b \<Rightarrow> b))
          else map_option (decode_error (jr_status jr)) (jr_err jr))"

definition provider_err :: "string \<Rightarrow> sentinel \<Rightarrow> string \<Rightarrow> go_error" where
  "provider_err provider e msg = ProviderErr \<lparr>pe_err = e, pe_status = 0, pe_message = msg, pe_provider = provider\<rparr>"

definition decode_failure :: "string \<Rightarrow> int \<Rightarrow> go_error \<Rightarrow> go_error" where
  "decode_failure provider status e =
     ProviderErr \<lparr>pe_err = ErrProviderError, pe_status = status,
       pe_message = ''response could not be decoded: '' @ error_text e, pe_provider = provider\<rparr>"

text \<open>
  \<open>mapError\<close>: the provider's own words, redacted, or the status when it has none.
\<close>

definition http_error ::
  "(int \<Rightarrow> sentinel) \<Rightarrow> string \<Rightarrow> string list \<Rightarrow> string \<Rightarrow> int \<Rightarrow> go_error" where
  "http_error sentinel_of provider secrets upstream status =
     (let m = redact_message upstream secrets
      in ProviderErr \<lparr>pe_err = sentinel_of status, pe_status = status,
           pe_message = (if m = [] then ''HTTP '' @ itoa status else m), pe_provider = provider\<rparr>)"

text \<open>
  The same in Voyage and TypeSafe, which report every failure of the call as their own error,
  redacted. The message comes before the status is known to be good.
\<close>

definition keyed_message :: "string \<Rightarrow> string \<Rightarrow> string \<Rightarrow> int \<Rightarrow> string" where
  "keyed_message provider key upstream status =
     (let detail = redact_message upstream [key]; line = provider @ '': HTTP '' @ itoa status
      in if detail = [] then line else line @ '': '' @ detail)"

definition keyed_check ::
  "string \<Rightarrow> string \<Rightarrow> (int \<Rightarrow> sentinel) \<Rightarrow> (bytes \<Rightarrow> string) \<Rightarrow> json_result \<Rightarrow> go_error option" where
  "keyed_check provider key sentinel_of detail_of jr =
     (case jr_err jr of
        Some e \<Rightarrow>
          Some (ProviderErr \<lparr>pe_err = ErrProviderError, pe_status = jr_status jr,
            pe_message = redact_message (error_text e) [key], pe_provider = provider\<rparr>)
      | None \<Rightarrow>
          if jr_status jr < 200 \<or> 300 \<le> jr_status jr then
            Some (ProviderErr \<lparr>pe_err = sentinel_of (jr_status jr), pe_status = jr_status jr,
              pe_message = keyed_message provider key
                (detail_of (case jr_body jr of None \<Rightarrow> [] | Some b \<Rightarrow> b)) (jr_status jr),
              pe_provider = provider\<rparr>)
          else None)"

subsection \<open>Capability tables\<close>

text \<open>The loop over the map, in whatever order \<open>entries\<close> lists it.\<close>

fun best_prefix ::
  "string \<Rightarrow> (string \<times> capability list) list \<Rightarrow> int \<Rightarrow> capability list \<Rightarrow> int \<times> capability list" where
  "best_prefix m [] best caps = (best, caps)"
| "best_prefix m ((p, cs) # rest) best caps =
     (if has_prefix m p \<and> int (length p) > best then best_prefix m rest (int (length p)) cs
      else best_prefix m rest best caps)"

definition lookup_capabilities :: "(string \<times> capability list) list \<Rightarrow> string \<Rightarrow> capability list" where
  "lookup_capabilities entries m =
     (let (best, caps) = best_prefix m entries (-1) []
      in if best \<ge> 0 then caps else [CapChat, CapStreaming])"

text \<open>A listed model: its id, capabilities and dimensions.\<close>

definition model_entry :: "string \<Rightarrow> capability list \<Rightarrow> int \<Rightarrow> model_info" where
  "model_entry i caps dims = \<lparr>mi_id = i, mi_context = 0, mi_max_output = 0, mi_dimensions = dims,
     mi_caps = caps, mi_deprecated = False\<rparr>"

text \<open>
  \<open>ListModels\<close>, which every provider derives from \<open>ListModelsWithMetadata\<close>, and \<open>Ping\<close>, which most
  derive from \<open>ListModels\<close>.
\<close>

definition model_names :: "go_error + model_info list \<Rightarrow> go_error + string list" where
  "model_names infos = (case infos of Inl e \<Rightarrow> Inl e | Inr ms \<Rightarrow> Inr (map mi_id ms))"

definition ping_by_listing :: "go_error + string list \<Rightarrow> go_error option" where
  "ping_by_listing names = (case names of Inl e \<Rightarrow> Some e | Inr ns \<Rightarrow> None)"

lemma best_prefix_bounds:
  "best \<le> fst (best_prefix m es best caps) \<and>
   (best_prefix m es best caps = (best, caps) \<or>
     (\<exists>p cs. (p, cs) \<in> set es \<and> has_prefix m p \<and> best_prefix m es best caps = (int (length p), cs))) \<and>
   (\<forall>p cs. (p, cs) \<in> set es \<and> has_prefix m p \<longrightarrow> int (length p) \<le> fst (best_prefix m es best caps))"
proof (induction m es best caps rule: best_prefix.induct)
  case (1 m best caps)
  then show ?case by simp
next
  case (2 m p cs rest best caps)
  show ?case
  proof (cases "has_prefix m p \<and> int (length p) > best")
    case True
    with "2.IH"(1) show ?thesis by fastforce
  next
    case False
    with "2.IH"(2) show ?thesis by fastforce
  qed
qed

lemma check_status_None:
  "check_status f g jr = None \<longleftrightarrow> 200 \<le> jr_status jr \<and> jr_status jr < 300 \<and> jr_err jr = None"
  by (auto simp: check_status_def split: option.splits)

lemma keyed_check_None:
  "keyed_check provider key f g jr = None \<longleftrightarrow> 200 \<le> jr_status jr \<and> jr_status jr < 300 \<and> jr_err jr = None"
  by (auto simp: keyed_check_def split: option.splits)

subsection \<open>What every client gets\<close>

lemma provider_new_settings:
  assumes "provider_new fs parse_err name url base opts = Inr su"
  shows "su_opts su = with_defaults fs opts"
    and "hc_transport (su_http su) = hc_transport (new_http_client base (opt_custom_headers (su_opts su))
           (retry_settings (su_opts su)) (opt_request_timeout (su_opts su)) (opt_max_response_bytes (su_opts su)))"
  using assms by (auto simp: provider_new_def setup_client_def split: sum.splits)

text \<open>How often a request is attempted at most, by the retry options.\<close>

definition attempts_allowed :: "'x client_options \<Rightarrow> nat" where
  "attempts_allowed opts =
     (if retry_disabled (opt_retry opts) then 1
      else if max_retries (opt_retry opts) = 0 then 6 else Suc (nat (max_retries (opt_retry opts))))"

lemma new_client_settings:
  assumes "provider_new fs parse_err name url base opts = Inr su"
    and "round_trip E (hc_transport (su_http su)) req w = (res, log, w')"
  shows "attempts log \<le> (if retry_disabled (opt_retry opts) then 1
       else if max_retries (opt_retry opts) = 0 then 6 else Suc (nat (max_retries (opt_retry opts))))
    \<and> (case res of Inl e \<Rightarrow> True
        | Inr resp \<Rightarrow> rs_limit resp = Some (if opt_max_response_bytes opts \<le> 0 then 268435456
                                             else opt_max_response_bytes opts))"
proof -
  have same: "opt_max_response_bytes (with_defaults fs opts) = opt_max_response_bytes opts"
    "opt_retry (with_defaults fs opts) = default_retry (opt_retry opts)"
    by (simp_all add: with_defaults_def Let_def split: option.split)
  note t = provider_new_settings [OF assms(1)]
  from assms(2) new_client_round_trip' [where E = E and base = base and hs = "opt_custom_headers (su_opts su)"
      and c = "retry_settings (su_opts su)" and timeout = "opt_request_timeout (su_opts su)"
      and mx = "opt_max_response_bytes (su_opts su)" and req = req and w = w]
  show ?thesis
    unfolding t(2) by (auto simp: t(1) same retry_settings_def default_retry_def split: if_splits sum.splits)
qed

text \<open>
  What a caller configures is what a client does. Through the whole stack New builds, a
  request is attempted once when retries are disabled, at most six times by default, and at
  most Retry.MaxRetries + 1 times otherwise, and its response is limited to MaxResponseBytes
  (256 MiB by default).
\<close>

theorem new_client_keeps_settings:
  assumes "provider_new fs parse_err name url base opts = Inr su"
    and "round_trip E (hc_transport (su_http su)) req w = (res, log, w')"
  shows "attempts log \<le> (if retry_disabled (opt_retry opts) then 1
       else if max_retries (opt_retry opts) = 0 then 6 else Suc (nat (max_retries (opt_retry opts))))
    \<and> (case res of Inl e \<Rightarrow> True
        | Inr resp \<Rightarrow> rs_limit resp = Some (if opt_max_response_bytes opts \<le> 0 then 268435456
                                             else opt_max_response_bytes opts))"
  using assms by (rule new_client_settings)

definition local_options :: "unit client_options" where
  "local_options = key_file_options\<lparr>opt_base_url := ''http://localhost:8080/'', opt_max_response_bytes := 10\<rparr>"

definition down :: "unit env" where
  "down = \<lparr>env_send = (\<lambda>b q w. (Inl EofErr, ())), env_fired = (\<lambda>_. False), env_ctx_err = (\<lambda>_. None),
     env_wait = (\<lambda>d w. (None, ())), env_until = (\<lambda>v w. None)\<rparr>"

theorem new_client_keeps_settings_witness:
  "case provider_new (\<lambda>_. None) PlainErr ''ollama'' ''http://localhost:11434'' None local_options of
     Inl e \<Rightarrow> False
   | Inr su \<Rightarrow> su_base_url su = ''http://localhost:8080''
       \<and> attempts (fst (snd (round_trip down (hc_transport (su_http su)) (request_for ''GET'' ''u'' [] [] None) ()))) \<le> 6"
proof -
  have v: "validate_base_url ''http://localhost:8080/'' = Inr ''http://localhost:8080''" by code_simp
  have o: "opt_base_url (with_defaults (\<lambda>_. None) local_options) = ''http://localhost:8080/''"
    by (simp add: local_options_def with_defaults_def Let_def key_file_options_def)
  obtain su where su: "provider_new (\<lambda>_. None) PlainErr ''ollama'' ''http://localhost:11434'' None local_options = Inr su"
      "su_base_url su = ''http://localhost:8080''"
    by (auto simp: provider_new_def setup_client_def o v)
  obtain res log w' where rt: "round_trip down (hc_transport (su_http su)) (request_for ''GET'' ''u'' [] [] None) () = (res, log, w')"
    by (metis prod.collapse)
  from new_client_keeps_settings [OF su(1) rt] have "attempts log \<le> 6"
    by (simp add: local_options_def key_file_options_def)
  with su rt show ?thesis by simp
qed

text \<open>An error carries its status, the sentinel of its status, and no secret.\<close>

lemma http_error_hides:
  assumes "s \<in> set secrets" and "hideable s" and "\<not> contains (''HTTP '' @ itoa status) s"
  shows "case http_error sentinel_of provider secrets upstream status of
      ProviderErr pe \<Rightarrow> \<not> contains (pe_message pe) s \<and> pe_status pe = status \<and> pe_err pe = sentinel_of status
    | _ \<Rightarrow> False"
  using rd.hides [of s secrets upstream] assms by (simp add: http_error_def Let_def)

lemma keyed_check_hides:
  assumes "hideable key" and "CHR '' '' \<notin> set key"
    and "\<not> contains (provider @ '': HTTP '' @ itoa (jr_status jr) @ '':'') key"
    and "keyed_check provider key sentinel_of detail_of jr = Some e"
  shows "case e of ProviderErr pe \<Rightarrow> \<not> contains (pe_message pe) key \<and> pe_status pe = jr_status jr | _ \<Rightarrow> False"
proof -
  have hidden: "\<not> contains (redact_message m [key]) key" for m using rd.hides [of key "[key]" m] assms(1) by simp
  let ?line = "provider @ '': HTTP '' @ itoa (jr_status jr)"
  have "\<not> sublist key (?line @ '':'')" using assms(3) by (simp add: contains_iff)
  then have line: "\<not> sublist key ?line" by (meson sublist_append_rightI sublist_order.order.trans)
  have "\<not> contains (keyed_message provider key m (jr_status jr)) key" for m
    using sublist_around_char [OF assms(2), of "?line @ '':''" "redact_message m [key]"] hidden [of m] line
      \<open>\<not> sublist key (?line @ '':'')\<close>
    by (auto simp: keyed_message_def Let_def contains_iff)
  with hidden assms(4) show ?thesis by (auto simp: keyed_check_def split: option.splits if_splits)
qed

end
