(* ===== verification/AnthropicWire.thy ===== *)
theory AnthropicWire
  imports ProviderBase Assembly
begin

text \<open>
  The Anthropic provider's wire structs and conversions
  (\<open>llm/provider/anthropic/anthropic.go\<close>): messages and blocks to the wire, responses and
  stream events from it, model capabilities. JSON text is \<open>encoding/json\<close>'s business: the
  structs are what it encodes and decodes. An optional struct with one string field
  (\<open>cache_control\<close>, \<open>output_config\<close>) is a \<open>string option\<close>.
\<close>

subsection \<open>Wire structs\<close>

record a_source =
  as_type :: string
  as_media_type :: string
  as_data :: bytes
  as_url :: string

record a_block =
  ab_type :: string
  ab_text :: string
  ab_id :: string
  ab_name :: string
  ab_input :: bytes
  ab_source :: "a_source option"
  ab_title :: string
  ab_tool_use_id :: string
  ab_content :: string
  ab_is_error :: bool
  ab_thinking :: "string option"
  ab_signature :: string
  ab_data :: string
  ab_cache :: "string option"

record a_message =
  am_role :: string
  am_content :: "a_block list"

record a_system =
  sb_type :: string
  sb_text :: string
  sb_cache :: "string option"

record a_tool =
  at_name :: string
  at_description :: string
  at_schema :: bytes
  at_cache :: "string option"

record a_tool_choice =
  atc_type :: string
  atc_name :: string

record a_thinking =
  ath_type :: string
  ath_budget :: "int option"

record a_request =
  ar_model :: string
  ar_messages :: "a_message list"
  ar_max_tokens :: int
  ar_temperature :: "f64 option"
  ar_system :: "a_system list"
  ar_tools :: "a_tool list"
  ar_tool_choice :: "a_tool_choice option"
  ar_stop :: "string list"
  ar_thinking :: "a_thinking option"
  ar_effort :: "string option"
  ar_cache :: "string option"
  ar_stream :: bool

record a_usage =
  au_input :: int
  au_output :: int
  au_cache_creation :: int
  au_cache_read :: int

record a_response =
  ap_content :: "a_block list"
  ap_stop_reason :: string
  ap_usage :: a_usage

definition wire_block :: "string \<Rightarrow> a_block" where
  "wire_block t = \<lparr>ab_type = t, ab_text = [], ab_id = [], ab_name = [], ab_input = [],
     ab_source = None, ab_title = [], ab_tool_use_id = [], ab_content = [], ab_is_error = False,
     ab_thinking = None, ab_signature = [], ab_data = [], ab_cache = None\<rparr>"

subsection \<open>To the wire\<close>

definition url_source :: "string \<Rightarrow> a_source" where
  "url_source u = \<lparr>as_type = ''url'', as_media_type = [], as_data = [], as_url = u\<rparr>"

definition base64_source :: "string \<Rightarrow> bytes \<Rightarrow> a_source" where
  "base64_source mt d = \<lparr>as_type = ''base64'', as_media_type = mt, as_data = d, as_url = []\<rparr>"

definition convert_payload :: "content_block \<Rightarrow> a_block \<Rightarrow> a_block" where
  "convert_payload b out =
     (case cb_type b of
        BlockText \<Rightarrow> out\<lparr>ab_text := cb_text b\<rparr>
      | BlockImage \<Rightarrow>
          (case cb_image b of
             None \<Rightarrow> out
           | Some i \<Rightarrow> out\<lparr>ab_source := Some (if img_url i \<noteq> [] then url_source (img_url i)
                                            else base64_source (img_media_type i) (img_data i))\<rparr>)
      | BlockDocument \<Rightarrow>
          (case cb_document b of
             None \<Rightarrow> out
           | Some d \<Rightarrow> out\<lparr>ab_source := Some (if doc_url d \<noteq> [] then url_source (doc_url d)
                                            else base64_source (doc_media_type d) (doc_data d)),
                           ab_title := doc_filename d\<rparr>)
      | BlockToolUse \<Rightarrow>
          (case cb_tool_use b of
             None \<Rightarrow> out
           | Some t \<Rightarrow> out\<lparr>ab_id := tu_id t, ab_name := tu_name t, ab_input := tu_input t\<rparr>)
      | BlockToolResult \<Rightarrow>
          out\<lparr>ab_tool_use_id := cb_tool_use_id b, ab_content := cb_text b, ab_is_error := cb_is_error b\<rparr>
      | BlockThinking \<Rightarrow>
          (case cb_thinking b of
             None \<Rightarrow> out\<lparr>ab_thinking := Some []\<rparr>
           | Some t \<Rightarrow> out\<lparr>ab_thinking := Some (th_text t), ab_signature := th_signature t\<rparr>)
      | BlockRedactedThinking \<Rightarrow>
          (case cb_thinking b of None \<Rightarrow> out | Some t \<Rightarrow> out\<lparr>ab_data := th_data t\<rparr>)
      | BlockOther s \<Rightarrow> out)"

definition convert_block :: "content_block \<Rightarrow> a_block" where
  "convert_block b =
     (let out = convert_payload b (wire_block (block_type_str (cb_type b)))
      in case cb_cache_control b of
           None \<Rightarrow> out
         | Some cc \<Rightarrow> out\<lparr>ab_cache := Some (cc_type cc)\<rparr>)"

definition convert_message :: "message \<Rightarrow> a_message" where
  "convert_message m =
     \<lparr>am_role = (case msg_role m of RoleAssistant \<Rightarrow> ''assistant'' | _ \<Rightarrow> ''user''),
      am_content = map convert_block (msg_content m)\<rparr>"

definition convert_messages :: "'x chat_request \<Rightarrow> a_message list" where
  "convert_messages req = map convert_message (req_messages req)"

subsection \<open>From the wire\<close>

definition normalize_stop_reason :: "string \<Rightarrow> stop_reason" where
  "normalize_stop_reason s =
     (if s = ''end_turn'' then StopReasonEndTurn
      else if s = ''max_tokens'' then StopReasonMaxTokens
      else if s = ''stop_sequence'' then StopReasonStopSequence
      else if s = ''tool_use'' then StopReasonToolUse
      else StopReasonEndTurn)"

definition parse_block :: "a_block \<Rightarrow> content_block option" where
  "parse_block b =
     (if ab_type b = ''text'' then Some ((blank_block BlockText)\<lparr>cb_text := ab_text b\<rparr>)
      else if ab_type b = ''tool_use'' then
        Some ((blank_block BlockToolUse)\<lparr>cb_tool_use :=
          Some \<lparr>tu_id = ab_id b, tu_name = ab_name b, tu_input = ab_input b, tu_signature = []\<rparr>\<rparr>)
      else if ab_type b = ''thinking'' then
        Some ((blank_block BlockThinking)\<lparr>cb_thinking :=
          Some \<lparr>th_text = (case ab_thinking b of None \<Rightarrow> [] | Some t \<Rightarrow> t),
                th_signature = ab_signature b, th_data = []\<rparr>\<rparr>)
      else if ab_type b = ''redacted_thinking'' then
        Some ((blank_block BlockRedactedThinking)\<lparr>cb_thinking :=
          Some \<lparr>th_text = [], th_signature = [], th_data = ab_data b\<rparr>\<rparr>)
      else None)"

definition parse_usage :: "a_usage \<Rightarrow> token_usage" where
  "parse_usage u = \<lparr>us_prompt = au_input u, us_completion = au_output u,
     us_total = wrap64 (au_input u + au_output u),
     us_cache_creation = au_cache_creation u, us_cache_read = au_cache_read u\<rparr>"

definition parse_chat_response :: "a_response \<Rightarrow> chat_response" where
  "parse_chat_response r = \<lparr>resp_content = List.map_filter parse_block (ap_content r),
     resp_stop = normalize_stop_reason (ap_stop_reason r), resp_usage = parse_usage (ap_usage r)\<rparr>"

subsection \<open>Model capabilities\<close>

definition anthropic_model_capabilities :: "(string \<times> capability list) list" where
  "anthropic_model_capabilities =
     [(''claude-3-5-sonnet'', [CapChat, CapTools, CapVision, CapStreaming]),
      (''claude-3-5-haiku'', [CapChat, CapTools, CapStreaming]),
      (''claude-3-opus'', [CapChat, CapTools, CapVision, CapStreaming]),
      (''claude-3-sonnet'', [CapChat, CapTools, CapVision, CapStreaming]),
      (''claude-3-haiku'', [CapChat, CapTools, CapVision, CapStreaming])]"

subsection \<open>The event stream\<close>

record a_stream_block =
  asb_type :: string
  asb_id :: string
  asb_name :: string
  asb_thinking :: string
  asb_signature :: string
  asb_data :: string

record a_delta =
  ad_type :: string
  ad_text :: string
  ad_partial_json :: string
  ad_thinking :: string
  ad_signature :: string
  ad_stop_reason :: string

text \<open>\<open>ae_message\<close> is the event's message, if any, with its usage, if any.\<close>

record a_event =
  ae_type :: string
  ae_block :: "a_stream_block option"
  ae_delta :: "a_delta option"
  ae_message :: "a_usage option option"
  ae_usage :: "int option"

text \<open>The four counters of the reading goroutine; together they are an \<open>a_usage\<close>.\<close>

definition no_tokens :: a_usage where
  "no_tokens = \<lparr>au_input = 0, au_output = 0, au_cache_creation = 0, au_cache_read = 0\<rparr>"

text \<open>One event: the counters, and the chunks sent.\<close>

definition stream_delta :: "a_delta \<Rightarrow> chunk list" where
  "stream_delta d =
     (if ad_type d = ''text_delta'' then
        (if ad_text d \<noteq> [] then [(blank_chunk ChunkText)\<lparr>ck_text := ad_text d\<rparr>] else [])
      else if ad_type d = ''input_json_delta'' then
        (if ad_partial_json d \<noteq> [] then [(blank_chunk ChunkToolUseDelta)\<lparr>ck_partial := ad_partial_json d\<rparr>] else [])
      else if ad_type d = ''thinking_delta'' then
        (if ad_thinking d \<noteq> [] then
           [(blank_chunk ChunkThinkingDelta)
              \<lparr>ck_thinking := Some \<lparr>th_text = ad_thinking d, th_signature = [], th_data = []\<rparr>\<rparr>] else [])
      else if ad_type d = ''signature_delta'' then
        (if ad_signature d \<noteq> [] then
           [(blank_chunk ChunkThinkingDelta)
              \<lparr>ck_thinking := Some \<lparr>th_text = [], th_signature = ad_signature d, th_data = []\<rparr>\<rparr>] else [])
      else [])"

definition stream_start :: "a_stream_block \<Rightarrow> chunk list" where
  "stream_start b =
     (if asb_type b = ''tool_use'' then
        [(blank_chunk ChunkToolUseStart)\<lparr>ck_tool_use :=
           Some \<lparr>tu_id = asb_id b, tu_name = asb_name b, tu_input = [], tu_signature = []\<rparr>\<rparr>]
      else if asb_type b = ''thinking'' \<or> asb_type b = ''redacted_thinking'' then
        [(blank_chunk ChunkThinkingStart)\<lparr>ck_thinking :=
           Some \<lparr>th_text = asb_thinking b, th_signature = asb_signature b, th_data = asb_data b\<rparr>\<rparr>]
      else [])"

definition stream_event :: "a_usage \<Rightarrow> a_event \<Rightarrow> a_usage \<times> chunk list" where
  "stream_event u e =
     (if ae_type e = ''message_start'' then
        (case ae_message e of
           Some (Some v) \<Rightarrow> (u\<lparr>au_input := au_input v, au_cache_creation := au_cache_creation v,
                               au_cache_read := au_cache_read v\<rparr>, [])
         | _ \<Rightarrow> (u, []))
      else if ae_type e = ''content_block_start'' then
        (case ae_block e of None \<Rightarrow> (u, []) | Some b \<Rightarrow> (u, stream_start b))
      else if ae_type e = ''content_block_delta'' then
        (case ae_delta e of None \<Rightarrow> (u, []) | Some d \<Rightarrow> (u, stream_delta d))
      else if ae_type e = ''message_delta'' then
        (case ae_usage e of None \<Rightarrow> (u, []) | Some n \<Rightarrow> (u\<lparr>au_output := n\<rparr>, []))
      else if ae_type e = ''message_stop'' then
        (u, [(blank_chunk ChunkDone)\<lparr>ck_usage := Some (parse_usage u)\<rparr>])
      else (u, []))"

text \<open>
  The goroutine: over the data lines the scanner yields, then its error. \<open>decode\<close> is
  \<open>json.Unmarshal\<close> into the event. The result is the chunks sent and the error sent; each done
  chunk's usage is also added to the client's.
\<close>

fun stream_loop ::
  "(string \<Rightarrow> go_error + a_event) \<Rightarrow> go_error option \<Rightarrow> a_usage \<Rightarrow> string list \<Rightarrow> chunk list \<times> go_error option" where
  "stream_loop decode scan_err u [] = ([], map_option (WrapErr ''read stream: '') scan_err)"
| "stream_loop decode scan_err u (d # ds) =
     (if d = ''[DONE]'' then ([], map_option (WrapErr ''read stream: '') scan_err)
      else case decode d of
             Inl e \<Rightarrow> ([], Some (WrapErr ''decode stream event: '' e))
           | Inr ev \<Rightarrow>
               (let (u', cs) = stream_event u ev; (rest, err) = stream_loop decode scan_err u' ds
                in (cs @ rest, err)))"

subsection \<open>Replaying what was received\<close>

text \<open>A block as Anthropic returns it: only the fields of its own type are set.\<close>

definition as_received :: "a_block \<Rightarrow> bool" where
  "as_received b \<longleftrightarrow>
     (ab_type b = ''text'' \<and> b = (wire_block ''text'')\<lparr>ab_text := ab_text b\<rparr>) \<or>
     (ab_type b = ''tool_use'' \<and> b = (wire_block ''tool_use'')\<lparr>ab_id := ab_id b, ab_name := ab_name b, ab_input := ab_input b\<rparr>) \<or>
     (ab_type b = ''thinking'' \<and> ab_thinking b \<noteq> None \<and>
       b = (wire_block ''thinking'')\<lparr>ab_thinking := ab_thinking b, ab_signature := ab_signature b\<rparr>) \<or>
     (ab_type b = ''redacted_thinking'' \<and> b = (wire_block ''redacted_thinking'')\<lparr>ab_data := ab_data b\<rparr>)"

lemma replay_block:
  assumes "as_received b"
  shows "\<exists>c. parse_block b = Some c \<and> convert_block c = b"
  using assms unfolding as_received_def
proof (elim disjE conjE)
  assume t: "ab_type b = ''text''" "b = (wire_block ''text'')\<lparr>ab_text := ab_text b\<rparr>"
  from t(1) have "parse_block b = Some ((blank_block BlockText)\<lparr>cb_text := ab_text b\<rparr>)"
    by (simp add: parse_block_def)
  moreover have "convert_block ((blank_block BlockText)\<lparr>cb_text := ab_text b\<rparr>) = b"
    by (subst (2) t(2)) (simp add: convert_block_def convert_payload_def blank_block_def block_type_str_def)
  ultimately show ?thesis by blast
next
  assume t: "ab_type b = ''tool_use''"
    "b = (wire_block ''tool_use'')\<lparr>ab_id := ab_id b, ab_name := ab_name b, ab_input := ab_input b\<rparr>"
  let ?c = "(blank_block BlockToolUse)\<lparr>cb_tool_use :=
    Some \<lparr>tu_id = ab_id b, tu_name = ab_name b, tu_input = ab_input b, tu_signature = []\<rparr>\<rparr>"
  from t(1) have "parse_block b = Some ?c" by (simp add: parse_block_def)
  moreover have "convert_block ?c = b"
    by (subst (4) t(2)) (simp add: convert_block_def convert_payload_def blank_block_def block_type_str_def)
  ultimately show ?thesis by blast
next
  assume t: "ab_type b = ''thinking''" "ab_thinking b \<noteq> None"
    "b = (wire_block ''thinking'')\<lparr>ab_thinking := ab_thinking b, ab_signature := ab_signature b\<rparr>"
  from t(2) obtain x where x: "ab_thinking b = Some x" by auto
  let ?c = "(blank_block BlockThinking)\<lparr>cb_thinking :=
    Some \<lparr>th_text = x, th_signature = ab_signature b, th_data = []\<rparr>\<rparr>"
  from t(1) x have "parse_block b = Some ?c" by (simp add: parse_block_def)
  moreover have "convert_block ?c = b"
    by (subst (2) t(3)) (simp add: x convert_block_def convert_payload_def blank_block_def block_type_str_def)
  ultimately show ?thesis by blast
next
  assume t: "ab_type b = ''redacted_thinking''" "b = (wire_block ''redacted_thinking'')\<lparr>ab_data := ab_data b\<rparr>"
  let ?c = "(blank_block BlockRedactedThinking)\<lparr>cb_thinking :=
    Some \<lparr>th_text = [], th_signature = [], th_data = ab_data b\<rparr>\<rparr>"
  from t(1) have "parse_block b = Some ?c" by (simp add: parse_block_def)
  moreover have "convert_block ?c = b"
    by (subst (2) t(2)) (simp add: convert_block_def convert_payload_def blank_block_def block_type_str_def)
  ultimately show ?thesis by blast
qed

lemma replay_blocks:
  "list_all as_received bs \<Longrightarrow> map convert_block (List.map_filter parse_block bs) = bs"
proof (induction bs)
  case (Cons b bs)
  then obtain c where "parse_block b = Some c" "convert_block c = b" using replay_block [of b] by auto
  with Cons show ?case by (simp add: map_filter_simps)
qed (simp add: map_filter_simps)

text \<open>
  C5: a response is replayed exactly. Appending the content of a Chat response to the
  conversation as an assistant message sends back, block for block, what Anthropic returned:
  text, tool calls with their arguments, thinking with its signature, and redacted data.
\<close>

theorem replay_exact:
  assumes "list_all as_received (ap_content r)"
  shows "convert_message (assistant_blocks (resp_content (parse_chat_response r)))
    = \<lparr>am_role = ''assistant'', am_content = ap_content r\<rparr>"
  using replay_blocks [OF assms]
  by (simp add: convert_message_def assistant_blocks_def parse_chat_response_def)

theorem replay_exact_witness:
  "convert_message (assistant_blocks (resp_content (parse_chat_response
      \<lparr>ap_content = [(wire_block ''thinking'')\<lparr>ab_thinking := Some [], ab_signature := ''s''\<rparr>,
                    (wire_block ''tool_use'')\<lparr>ab_id := ''t'', ab_name := ''f'', ab_input := ''{}''\<rparr>],
       ap_stop_reason = ''tool_use'', ap_usage = no_tokens\<rparr>)))
   = \<lparr>am_role = ''assistant'', am_content =
       [(wire_block ''thinking'')\<lparr>ab_thinking := Some [], ab_signature := ''s''\<rparr>,
        (wire_block ''tool_use'')\<lparr>ab_id := ''t'', ab_name := ''f'', ab_input := ''{}''\<rparr>]\<rparr>"
  by (subst replay_exact) (simp_all add: as_received_def wire_block_def)

subsection \<open>Longest prefix\<close>

text \<open>
  capability lookup does not depend on map order. In whatever order the runtime visits the
  prefixes, a model gets the capabilities of the longest prefix its name has in the table, and
  chat and streaming when it has none.
\<close>

theorem lookup_longest_prefix:
  assumes "go_map entries"
  shows "(\<forall>p cs. (p, cs) \<in> set entries \<and> has_prefix m p \<and>
        (\<forall>(q, ds) \<in> set entries. has_prefix m q \<longrightarrow> length q \<le> length p)
          \<longrightarrow> lookup_capabilities entries m = cs)
    \<and> ((\<forall>(p, cs) \<in> set entries. \<not> has_prefix m p) \<longrightarrow>
         lookup_capabilities entries m = [CapChat, CapStreaming])"
proof -
  obtain n caps where r: "best_prefix m entries (-1) [] = (n, caps)" by (metis prod.collapse)
  note b = best_prefix_bounds [of "-1" m entries "[]", unfolded r]
  have longest: "lookup_capabilities entries m = cs"
    if p: "(p, cs) \<in> set entries" "has_prefix m p"
      and long: "\<forall>(q, ds) \<in> set entries. has_prefix m q \<longrightarrow> length q \<le> length p" for p cs
  proof -
    from b p have n: "int (length p) \<le> n" by auto
    then have "(n, caps) \<noteq> (-1, [])" by auto
    with b obtain q ds where q: "(q, ds) \<in> set entries" "has_prefix m q" "n = int (length q)" "caps = ds"
      by auto
    with long n have "length q = length p" by force
    with q(2) p(2) have "q = p" by (simp add: has_prefix_take)
    with q p(1) assms have "ds = cs" by (auto simp: go_map_def dest: eq_key_imp_eq_value)
    with r q n show ?thesis by (simp add: lookup_capabilities_def)
  qed
  moreover have "lookup_capabilities entries m = [CapChat, CapStreaming]"
    if "\<forall>(p, cs) \<in> set entries. \<not> has_prefix m p"
    using b r that by (auto simp: lookup_capabilities_def)
  ultimately show ?thesis by blast
qed

theorem lookup_longest_prefix_witness:
  "lookup_capabilities anthropic_model_capabilities ''claude-3-5-haiku-20241022''
     = [CapChat, CapTools, CapStreaming]"
proof -
  have "go_map anthropic_model_capabilities" by (simp add: go_map_def anthropic_model_capabilities_def)
  from lookup_longest_prefix [OF this, THEN conjunct1, THEN spec, THEN spec, THEN mp,
      of "''claude-3-5-haiku''" "[CapChat, CapTools, CapStreaming]" "''claude-3-5-haiku-20241022''"]
  show ?thesis by (simp add: anthropic_model_capabilities_def)
qed

subsection \<open>Streaming and not streaming\<close>

text \<open>How Anthropic streams a block: a start event and deltas of its fragments.\<close>

definition blank_event :: "string \<Rightarrow> a_event" where
  "blank_event t = \<lparr>ae_type = t, ae_block = None, ae_delta = None, ae_message = None, ae_usage = None\<rparr>"

definition start_event :: "string \<Rightarrow> string \<Rightarrow> string \<Rightarrow> string \<Rightarrow> a_event" where
  "start_event t i n d = (blank_event ''content_block_start'')\<lparr>ae_block := Some
     \<lparr>asb_type = t, asb_id = i, asb_name = n, asb_thinking = [], asb_signature = [], asb_data = d\<rparr>\<rparr>"

definition blank_delta :: "string \<Rightarrow> a_delta" where
  "blank_delta t = \<lparr>ad_type = t, ad_text = [], ad_partial_json = [], ad_thinking = [],
     ad_signature = [], ad_stop_reason = []\<rparr>"

definition delta_event :: "a_delta \<Rightarrow> a_event" where
  "delta_event d = (blank_event ''content_block_delta'')\<lparr>ae_delta := Some d\<rparr>"

fun block_events :: "emission \<Rightarrow> a_event list" where
  "block_events (EmitText fs) =
     start_event ''text'' [] [] [] # map (\<lambda>f. delta_event ((blank_delta ''text_delta'')\<lparr>ad_text := f\<rparr>)) fs"
| "block_events (EmitTool t fs) =
     start_event ''tool_use'' (tu_id t) (tu_name t) []
       # map (\<lambda>f. delta_event ((blank_delta ''input_json_delta'')\<lparr>ad_partial_json := f\<rparr>)) fs"
| "block_events (EmitThinking fs sig) =
     start_event ''thinking'' [] [] []
       # map (\<lambda>f. delta_event ((blank_delta ''thinking_delta'')\<lparr>ad_thinking := f\<rparr>)) fs
       @ [delta_event ((blank_delta ''signature_delta'')\<lparr>ad_signature := sig\<rparr>)]"
| "block_events (EmitRedacted d) = [start_event ''redacted_thinking'' [] [] d]"

definition message_events :: "a_usage \<Rightarrow> emission list \<Rightarrow> a_event list" where
  "message_events u es =
     [(blank_event ''message_start'')\<lparr>ae_message := Some (Some u)\<rparr>]
     @ concat (map block_events es)
     @ [(blank_event ''message_delta'')\<lparr>ae_usage := Some (au_output u)\<rparr>, blank_event ''message_stop'']"

text \<open>The same blocks in a response that is not streamed.\<close>

fun unary_block :: "emission \<Rightarrow> a_block" where
  "unary_block (EmitText fs) = (wire_block ''text'')\<lparr>ab_text := concat fs\<rparr>"
| "unary_block (EmitTool t fs) =
     (wire_block ''tool_use'')\<lparr>ab_id := tu_id t, ab_name := tu_name t, ab_input := concat fs\<rparr>"
| "unary_block (EmitThinking fs sig) =
     (wire_block ''thinking'')\<lparr>ab_thinking := Some (concat fs), ab_signature := sig\<rparr>"
| "unary_block (EmitRedacted d) = (wire_block ''redacted_thinking'')\<lparr>ab_data := d\<rparr>"

text \<open>No fragment is empty, a thinking block is signed, a tool call carries no signature.\<close>

fun streamable :: "emission \<Rightarrow> bool" where
  "streamable (EmitText fs) = ([] \<notin> set fs)"
| "streamable (EmitTool t fs) = ([] \<notin> set fs \<and> tu_signature t = [])"
| "streamable (EmitThinking fs sig) = ([] \<notin> set fs \<and> sig \<noteq> [])"
| "streamable (EmitRedacted d) = True"

fun event_chunks :: "a_usage \<Rightarrow> a_event list \<Rightarrow> chunk list" where
  "event_chunks u [] = []"
| "event_chunks u (e # es) = snd (stream_event u e) @ event_chunks (fst (stream_event u e)) es"

lemma stream_loop_events:
  assumes "map decode ds = map Inr evs" and "''[DONE]'' \<notin> set ds"
  shows "stream_loop decode None u ds = (event_chunks u evs, None)"
  using assms
proof (induction evs arbitrary: ds u)
  case (Cons e evs)
  then obtain d ds' where ds: "ds = d # ds'" "decode d = Inr e" by auto
  moreover have "d \<noteq> ''[DONE]''" using Cons.prems(2) ds(1) by auto
  moreover have "stream_loop decode None v ds' = (event_chunks v evs, None)" for v
    using Cons ds by simp
  ultimately show ?case by (simp add: case_prod_unfold Let_def)
qed simp

lemma stream_delta_makers:
  "f \<noteq> [] \<Longrightarrow> stream_delta ((blank_delta ''text_delta'')\<lparr>ad_text := f\<rparr>) = [text_chunk f]"
  "f \<noteq> [] \<Longrightarrow> stream_delta ((blank_delta ''input_json_delta'')\<lparr>ad_partial_json := f\<rparr>) = [tool_delta_chunk f]"
  "f \<noteq> [] \<Longrightarrow> stream_delta ((blank_delta ''thinking_delta'')\<lparr>ad_thinking := f\<rparr>) = [thinking_delta_chunk f []]"
  "f \<noteq> [] \<Longrightarrow> stream_delta ((blank_delta ''signature_delta'')\<lparr>ad_signature := f\<rparr>) = [thinking_delta_chunk [] f]"
  by (simp_all add: stream_delta_def blank_delta_def chunk_makers)

lemma stream_event_makers:
  "stream_event u (delta_event d) = (u, stream_delta d)"
  "stream_event u (start_event ''text'' [] [] []) = (u, [])"
  "stream_event u (start_event ''tool_use'' i n []) =
     (u, [tool_start_chunk \<lparr>tu_id = i, tu_name = n, tu_input = [], tu_signature = []\<rparr>])"
  "stream_event u (start_event ''thinking'' [] [] []) = (u, [thinking_start_chunk zero_thinking])"
  "stream_event u (start_event ''redacted_thinking'' [] [] x) =
     (u, [thinking_start_chunk \<lparr>th_text = [], th_signature = [], th_data = x\<rparr>])"
  by (simp_all add: stream_event_def start_event_def delta_event_def blank_event_def stream_start_def
      chunk_makers zero_thinking_def)

lemma deltas_chunks:
  "(\<And>f. f \<in> set fs \<Longrightarrow> stream_delta (mk f) = [ck f]) \<Longrightarrow>
    event_chunks u (map (\<lambda>f. delta_event (mk f)) fs @ evs) = map ck fs @ event_chunks u evs"
  by (induction fs) (simp_all add: stream_event_makers)

lemma block_event_chunks:
  assumes "streamable e"
  shows "event_chunks u (block_events e @ evs) = emitted_chunks e @ event_chunks u evs"
proof (cases e)
  case (EmitText fs)
  then have "f \<in> set fs \<Longrightarrow> f \<noteq> []" for f using assms by auto
  then show ?thesis
    by (simp add: EmitText stream_event_makers deltas_chunks [where ck = text_chunk] stream_delta_makers)
next
  case (EmitTool t fs)
  then have "f \<in> set fs \<Longrightarrow> f \<noteq> []" for f using assms by auto
  moreover have "t\<lparr>tu_input := []\<rparr> = \<lparr>tu_id = tu_id t, tu_name = tu_name t, tu_input = [], tu_signature = []\<rparr>"
    using assms EmitTool by (cases t) simp
  ultimately show ?thesis
    by (simp add: EmitTool stream_event_makers deltas_chunks [where ck = tool_delta_chunk] stream_delta_makers)
next
  case (EmitThinking fs sig)
  then have "f \<in> set fs \<Longrightarrow> f \<noteq> []" and "sig \<noteq> []" for f using assms by auto
  then show ?thesis
    by (simp add: EmitThinking stream_event_makers stream_delta_makers
        deltas_chunks [where ck = "\<lambda>f. thinking_delta_chunk f []"])
next
  case (EmitRedacted d)
  then show ?thesis by (simp add: stream_event_makers)
qed

lemma blocks_event_chunks:
  "list_all streamable es \<Longrightarrow>
    event_chunks u (concat (map block_events es) @ evs) = concat (map emitted_chunks es) @ event_chunks u evs"
  by (induction es) (simp_all add: block_event_chunks)

lemma message_event_chunks:
  assumes "list_all streamable es"
  shows "event_chunks no_tokens (message_events u es) = concat (map emitted_chunks es) @ [done_chunk (parse_usage u)]"
proof -
  have "event_chunks no_tokens (message_events u es)
    = event_chunks (u\<lparr>au_output := 0\<rparr>) (concat (map block_events es)
       @ [(blank_event ''message_delta'')\<lparr>ae_usage := Some (au_output u)\<rparr>, blank_event ''message_stop''])"
    by (cases u) (simp add: message_events_def stream_event_def blank_event_def no_tokens_def)
  also have "\<dots> = concat (map emitted_chunks es) @ [done_chunk (parse_usage u)]"
    using assms by (simp add: blocks_event_chunks) (simp add: stream_event_def blank_event_def chunk_makers)
  finally show ?thesis .
qed

lemma parse_unary: "streamable e \<Longrightarrow> parse_block (unary_block e) = Some (emitted_block e)"
  by (cases e) (auto simp: parse_block_def wire_block_def text_block_def tool_use_block_def
      thinking_block_def blank_block_def intro!: tool_use.equality)

lemma parse_unaries:
  "list_all streamable es \<Longrightarrow> List.map_filter parse_block (map unary_block es) = map emitted_block es"
  by (induction es) (simp_all add: map_filter_simps parse_unary)


definition demo_blocks :: "emission list" where
  "demo_blocks = [EmitThinking [''pl'', ''an''] ''sig'', EmitText [''Hi'', ''!'']]"

definition demo_usage :: a_usage where
  "demo_usage = \<lparr>au_input = 3, au_output = 2, au_cache_creation = 0, au_cache_read = 0\<rparr>"

definition demo_lines :: "string list" where
  "demo_lines = [''0'', ''1'', ''2'', ''3'', ''4'', ''5'', ''6'', ''7'', ''8'', ''9'']"

definition demo_decode :: "string \<Rightarrow> go_error + a_event" where
  "demo_decode d =
     (case map_of (zip demo_lines (message_events demo_usage demo_blocks)) d of
        Some e \<Rightarrow> Inr e | None \<Rightarrow> Inl EofErr)"


text \<open>
  An error event in the middle of a stream (Anthropic sends one when it is overloaded) is not
  a case of the loop: it is dropped, the stream ends with no done chunk and no error, and
  Collect returns the partial response as if it were complete.
\<close>

lemma error_event_dropped:
  "ae_type e = ''error'' \<Longrightarrow> stream_event u e = (u, [])"
  "stream_loop (\<lambda>d. if d = ''t'' then Inr (delta_event ((blank_delta ''text_delta'')\<lparr>ad_text := ''par''\<rparr>))
                    else Inr (blank_event ''error'')) None no_tokens [''t'', ''e'']
   = ([text_chunk ''par''], None)"
  by (simp_all add: stream_event_def delta_event_def blank_event_def stream_delta_def blank_delta_def
      chunk_makers)

end
