(* ===== verification/SendLoop.thy ===== *)
theory SendLoop
  imports LlmTypes
begin

text \<open>
  What the adjust-and-resend loops of the providers rely on (the loops of \<open>Chat\<close> and
  \<open>ChatStream\<close> in \<open>anthropic.go\<close> and \<open>sendWithAdjustments\<close> in \<open>openai/adapt.go\<close>): one pass
  sends a request and either finishes or asks for another pass, which it does only below a
  limit. A loop with such a pass returns, after at most as many sends as the limit.
\<close>

locale send_loop =
  fixes pass :: "nat \<Rightarrow> 's \<Rightarrow> 'r + 's"
    and loop :: "nat \<Rightarrow> 's \<Rightarrow> 'r option"
    and limit :: nat
    and sent :: "'s \<Rightarrow> nat"
    and sent_result :: "'r \<Rightarrow> nat"
  assumes unfold: "loop n s = (case pass n s of Inl r \<Rightarrow> Some r | Inr s' \<Rightarrow> loop (Suc n) s')"
    and again: "n \<le> limit \<Longrightarrow> pass n s = Inr s' \<Longrightarrow> n < limit \<and> sent s' = Suc (sent s)"
    and finish: "pass n s = Inl r \<Longrightarrow> sent_result r \<le> Suc (sent s)"
begin

lemma returns:
  assumes "n \<le> limit"
  shows "\<exists>r. loop n s = Some r \<and> sent_result r \<le> sent s + Suc (limit - n)"
  using assms
proof (induction "limit - n" arbitrary: n s)
  case 0
  show ?case
  proof (cases "pass n s")
    case (Inl r)
    with unfold [of n s] finish [OF Inl] show ?thesis by auto
  next
    case (Inr s')
    with again [OF 0(2)] 0 show ?thesis by fastforce
  qed
next
  case (Suc k)
  show ?case
  proof (cases "pass n s")
    case (Inl r)
    with unfold [of n s] finish [OF Inl] show ?thesis by auto
  next
    case (Inr s')
    with again [OF Suc.prems] have s': "sent s' = Suc (sent s)" by blast
    from Suc.hyps(2) have "k = limit - Suc n" "Suc n \<le> limit" by auto
    with Suc.hyps(1) obtain r where "loop (Suc n) s' = Some r" "sent_result r \<le> sent s' + Suc (limit - Suc n)"
      by blast
    with unfold [of n s] Inr s' Suc.hyps(2) show ?thesis by auto
  qed
qed

text \<open>What every pass keeps holds of the result.\<close>

lemma keeps:
  assumes "loop n s = Some r" and "n \<le> limit" and "P n s"
    and step: "\<And>n s s'. P n s \<Longrightarrow> pass n s = Inr s' \<Longrightarrow> P (Suc n) s'"
    and out: "\<And>n s r. P n s \<Longrightarrow> pass n s = Inl r \<Longrightarrow> Q r"
  shows "Q r"
  using assms(1-3)
proof (induction "limit - n" arbitrary: n s rule: less_induct)
  case less
  show ?case
  proof (cases "pass n s")
    case (Inl q)
    with less.prems(1,3) unfold [of n s] out show ?thesis by auto
  next
    case (Inr s')
    with again [OF less.prems(2)] have "n < limit" by blast
    then have "limit - Suc n < limit - n" "Suc n \<le> limit" by auto
    with less.hyps [of "Suc n" s'] less.prems Inr unfold [of n s] step show ?thesis by auto
  qed
qed

text \<open>What a pass costs at most, the loop costs at most once per send.\<close>

lemma budget:
  assumes "loop n s = Some r" and "n \<le> limit"
    and step: "\<And>n s s'. pass n s = Inr s' \<Longrightarrow> cost s' \<le> cost s + b"
    and out: "\<And>n s r. pass n s = Inl r \<Longrightarrow> cost_result r \<le> cost s + (b :: nat)"
  shows "cost_result r \<le> cost s + b * Suc (limit - n)"
  using assms(1,2)
proof (induction "limit - n" arbitrary: n s rule: less_induct)
  case less
  show ?case
  proof (cases "pass n s")
    case (Inl q)
    with less.prems(1) unfold [of n s] out [OF Inl] show ?thesis by auto
  next
    case (Inr s')
    with again [OF less.prems(2)] have below: "n < limit" by blast
    then have "limit - Suc n < limit - n" "Suc n \<le> limit" by auto
    with less.hyps [of "Suc n" s'] less.prems Inr unfold [of n s]
    have "cost_result r \<le> cost s' + b * Suc (limit - Suc n)" by auto
    with step [OF Inr] below show ?thesis by (simp add: Suc_diff_Suc)
  qed
qed

end

end
