(* ===== verification/AnthropicChat.thy ===== *)
theory AnthropicChat
  imports AnthropicWire Redact Transport SendLoop
begin

text \<open>
  The Anthropic client (\<open>llm/provider/anthropic/anthropic.go\<close>, \<open>adapt.go\<close>): building a
  request, adjusting it to what the model has rejected, the send loops of \<open>Chat\<close> and
  \<open>ChatStream\<close>, and error mapping. A client's mutex makes each access to its learned state
  atomic; a call is modelled here as running alone, and with others in \<open>SharedClient\<close>.
\<close>

unbundle bit_operations_syntax

record a_client =
  ac_api_key :: string
  ac_model :: string
  ac_base_url :: string
  ac_opts :: "extension client_options"
  ac_usage :: token_usage
  ac_drop_temperature :: bool
  ac_rejected_thinking :: "string list"
  ac_rejected_effort :: "string list"
  ac_drop_auto_caching :: bool
  ac_log :: "(string \<times> string) list"

text \<open>What \<open>json.Unmarshal\<close> makes of an error body: whether it succeeded, and the fields.\<close>

record a_error =
  aer_ok :: bool
  aer_message :: string
  aer_type :: string

definition provider_name :: string where
  "provider_name = ''anthropic''"

definition anthropic_new ::
  "(string \<Rightarrow> bytes option) \<Rightarrow> (string \<Rightarrow> go_error) \<Rightarrow> base_client option \<Rightarrow> extension client_options \<Rightarrow>
     go_error + a_client \<times> http_client" where
  "anthropic_new read_file parse_err base opts0 =
     map_sum id (\<lambda>su. (\<lparr>ac_api_key = opt_api_key (su_opts su), ac_model = opt_model (su_opts su),
                       ac_base_url = su_base_url su, ac_opts = su_opts su, ac_usage = zero_usage,
                       ac_drop_temperature = False, ac_rejected_thinking = [], ac_rejected_effort = [],
                       ac_drop_auto_caching = False, ac_log = []\<rparr>, su_http su))
       (provider_new read_file parse_err provider_name ''https://api.anthropic.com/v1'' base opts0)"

subsection \<open>Usage and request checks\<close>

definition add_usage :: "a_client \<Rightarrow> token_usage \<Rightarrow> a_client" where
  "add_usage c u = c\<lparr>ac_usage := usage_add (ac_usage c) u\<rparr>"

definition reset_usage :: "a_client \<Rightarrow> a_client" where
  "reset_usage c = c\<lparr>ac_usage := zero_usage\<rparr>"

definition anthropic_headers :: "a_client \<Rightarrow> headers" where
  "anthropic_headers c =
     [(''Content-Type'', ''application/json''), (''anthropic-version'', ''2023-06-01''),
      (''anthropic-beta'', ''prompt-caching-2024-07-31,pdfs-2024-09-25'')]
     @ (if ac_api_key c \<noteq> [] then [(''x-api-key'', ac_api_key c)] else [])"

definition check_request :: "a_client \<Rightarrow> extension chat_request \<Rightarrow> go_error option" where
  "check_request c req =
     (case effective_effort req (opt_effort (ac_opts c)) of
        Inl pe \<Rightarrow> Some (ProviderErr (pe\<lparr>pe_provider := provider_name\<rparr>))
      | Inr _ \<Rightarrow>
          (case effective_caching req (opt_caching (ac_opts c)) of
             Inl pe \<Rightarrow> Some (ProviderErr (pe\<lparr>pe_provider := provider_name\<rparr>))
           | Inr _ \<Rightarrow> None))"

definition auto_caching :: "a_client \<Rightarrow> extension chat_request \<Rightarrow> bool" where
  "auto_caching c req =
     (case effective_caching req (opt_caching (ac_opts c)) of
        Inr CachingAuto \<Rightarrow> \<not> ac_drop_auto_caching c
      | _ \<Rightarrow> False)"

subsection \<open>Building a request\<close>

definition effort_level :: "effort \<Rightarrow> string option" where
  "effort_level e =
     (case e of
        EffortMinimal \<Rightarrow> Some ''low''
      | EffortLow \<Rightarrow> Some ''low''
      | EffortMedium \<Rightarrow> Some ''medium''
      | EffortHigh \<Rightarrow> Some ''high''
      | EffortXHigh \<Rightarrow> Some ''xhigh''
      | EffortMax \<Rightarrow> Some ''max''
      | _ \<Rightarrow> None)"

definition set_reasoning_effort :: "a_client \<Rightarrow> extension chat_request \<Rightarrow> a_request \<Rightarrow> a_request" where
  "set_reasoning_effort c req a =
     (case effective_effort req (opt_effort (ac_opts c)) of
        Inl _ \<Rightarrow> a
      | Inr e \<Rightarrow>
          if e = EffortDefault then a
          else
            (let ty = (if e = EffortNone then ''disabled'' else ''adaptive'');
                 a1 = (if ar_thinking a = None \<and> ty \<notin> set (ac_rejected_thinking c)
                       then a\<lparr>ar_thinking := Some \<lparr>ath_type = ty, ath_budget = None\<rparr>\<rparr> else a)
             in case effort_level e of
                  Some l \<Rightarrow> if l \<notin> set (ac_rejected_effort c) then a1\<lparr>ar_effort := Some l\<rparr> else a1
                | None \<Rightarrow> a1))"

text \<open>A \<open>float64\<close> equals 1 exactly when it is the pattern of 1.\<close>

definition apply_reasoning_effort :: "a_client \<Rightarrow> extension chat_request \<Rightarrow> a_request \<Rightarrow> a_request" where
  "apply_reasoning_effort c req a =
     (let a1 = set_reasoning_effort c req a
      in case (ar_thinking a1, ar_temperature a1) of
           (Some t, Some f) \<Rightarrow>
             if ath_type t = ''adaptive'' \<and> f \<noteq> f64_one then a1\<lparr>ar_temperature := None\<rparr> else a1
         | _ \<Rightarrow> a1)"

definition block_markers :: "a_request \<Rightarrow> nat" where
  "block_markers a =
     length (filter (\<lambda>t. at_cache t \<noteq> None) (ar_tools a))
     + length (filter (\<lambda>s. sb_cache s \<noteq> None) (ar_system a))
     + sum_list (map (\<lambda>m. length (filter (\<lambda>b. ab_cache b \<noteq> None) (am_content m))) (ar_messages a))"

definition max_cache_breakpoints :: nat where
  "max_cache_breakpoints = 4"

definition convert_tool_choice :: "tool_choice \<Rightarrow> a_tool_choice" where
  "convert_tool_choice tc =
     (case tc_mode tc of
        ToolChoiceAuto \<Rightarrow> \<lparr>atc_type = ''auto'', atc_name = []\<rparr>
      | ToolChoiceNone \<Rightarrow> \<lparr>atc_type = ''auto'', atc_name = []\<rparr>
      | ToolChoiceRequired \<Rightarrow> \<lparr>atc_type = ''any'', atc_name = []\<rparr>
      | ToolChoiceSpecific \<Rightarrow> \<lparr>atc_type = ''tool'', atc_name = tc_name tc\<rparr>
      | ToolChoiceOther _ \<Rightarrow> \<lparr>atc_type = [], atc_name = []\<rparr>)"

definition json_directive :: "response_format \<Rightarrow> string option" where
  "json_directive rf =
     (case rf_type rf of
        ResponseFormatJSON \<Rightarrow> Some ''Respond ONLY with valid JSON. No prose, no markdown fences.''
      | ResponseFormatJSONSchema \<Rightarrow>
          Some (''Respond ONLY with valid JSON conforming to this schema:'' @ [CHR 0x0A] @ rf_schema rf
            @ [CHR 0x0A] @ ''No prose, no markdown fences.'')
      | _ \<Rightarrow> None)"

definition plain_system :: "string \<Rightarrow> a_system" where
  "plain_system t = \<lparr>sb_type = ''text'', sb_text = t, sb_cache = None\<rparr>"

definition mark_last :: "a_system list \<Rightarrow> a_system list" where
  "mark_last ss = (if ss = [] then [] else butlast ss @ [(last ss)\<lparr>sb_cache := Some ''ephemeral''\<rparr>])"

definition convert_tools :: "a_client \<Rightarrow> extension chat_request \<Rightarrow> a_tool list" where
  "convert_tools c req =
     map (\<lambda>t. \<lparr>at_name = tool_name t,
               at_description = effective_tool_description t
                 (use_compact_descriptions req (ac_base_url c)),
               at_schema = tool_schema t, at_cache = None\<rparr>) (req_tools req)"

definition mark_tool :: "int \<Rightarrow> a_tool list \<Rightarrow> a_tool list" where
  "mark_tool i ts =
     (if 0 \<le> i \<and> i < int (length ts)
      then ts[nat i := (ts ! nat i)\<lparr>at_cache := Some ''ephemeral''\<rparr>] else ts)"

text \<open>\<open>buildChatRequest\<close>, in the order of the code: the fields up to the extension,\<close>

definition base_request :: "a_client \<Rightarrow> extension chat_request \<Rightarrow> bool \<Rightarrow> a_request" where
  "base_request c req stream =
     \<lparr>ar_model = ac_model c, ar_messages = convert_messages req,
      ar_max_tokens = (case req_max_tokens req of Some n \<Rightarrow> n
         | None \<Rightarrow> (case opt_max_tokens (ac_opts c) of Some n \<Rightarrow> n | None \<Rightarrow> 4096)),
      ar_temperature = (if ac_drop_temperature c then None
         else if req_temperature req \<noteq> None then req_temperature req
         else opt_temperature (ac_opts c)),
      ar_system = (if req_system req \<noteq> [] then [plain_system (req_system req)] else []),
      ar_tools = (case anthropic_ext req of None \<Rightarrow> convert_tools c req
         | Some x \<Rightarrow> mark_tool (ax_cache_tools_through x) (convert_tools c req)),
      ar_tool_choice = None, ar_stop = [],
      ar_thinking = (case anthropic_ext req of None \<Rightarrow> None
         | Some x \<Rightarrow> if ax_extended_thinking x
             then Some \<lparr>ath_type = ''enabled'', ath_budget = Some (ax_budget_tokens x)\<rparr> else None),
      ar_effort = None, ar_cache = None, ar_stream = stream\<rparr>"

text \<open>the response format's directive and the marker on the last system block,\<close>

definition finish_system :: "extension chat_request \<Rightarrow> a_system list \<Rightarrow> a_system list" where
  "finish_system req ss =
     (let ss' = (case Option.bind (req_format req) json_directive of
                   None \<Rightarrow> ss | Some d \<Rightarrow> ss @ [plain_system d])
      in case anthropic_ext req of
           Some x \<Rightarrow> if ax_cache_system x then mark_last ss' else ss'
         | None \<Rightarrow> ss')"

text \<open>and the top-level cache marker.\<close>

definition add_auto_cache :: "a_client \<Rightarrow> extension chat_request \<Rightarrow> a_request \<Rightarrow> a_request" where
  "add_auto_cache c req a =
     (if auto_caching c req \<and> block_markers a < max_cache_breakpoints
      then a\<lparr>ar_cache := Some ''ephemeral''\<rparr> else a)"

definition build_chat_request :: "a_client \<Rightarrow> extension chat_request \<Rightarrow> bool \<Rightarrow> a_request" where
  "build_chat_request c req stream =
     (let a = apply_reasoning_effort c req (base_request c req stream)
      in add_auto_cache c req
           (a\<lparr>ar_tool_choice := map_option convert_tool_choice (req_tool_choice req),
              ar_system := finish_system req (ar_system a),
              ar_stop := req_stop req\<rparr>))"

subsection \<open>Adjusting to a rejection\<close>

definition temperature_rejections :: "string list" where
  "temperature_rejections = [''deprecated'', ''not supported'', ''unsupported'', ''not allowed'', ''not accepted'']"

definition rejects_temperature :: "string \<Rightarrow> bool" where
  "rejects_temperature msg =
     (let m = to_lower msg
      in contains m ''temperature'' \<and> list_ex (\<lambda>p. contains m p) temperature_rejections)"

definition is_thinking_block :: "a_block \<Rightarrow> bool" where
  "is_thinking_block b = (ab_type b = ''thinking'' \<or> ab_type b = ''redacted_thinking'')"

definition has_thinking_blocks :: "a_request \<Rightarrow> bool" where
  "has_thinking_blocks a = list_ex (\<lambda>m. list_ex is_thinking_block (am_content m)) (ar_messages a)"

fun strip_messages :: "a_message list \<Rightarrow> a_message list" where
  "strip_messages [] = []"
| "strip_messages (m # ms) =
     (let kept = filter (\<lambda>b. \<not> is_thinking_block b) (am_content m)
      in if kept = [] \<and> am_content m \<noteq> [] then strip_messages ms
         else m\<lparr>am_content := kept\<rparr> # strip_messages ms)"

definition strip_thinking_blocks :: "a_request \<Rightarrow> a_request" where
  "strip_thinking_blocks a = a\<lparr>ar_messages := strip_messages (ar_messages a)\<rparr>"

definition temperature_rejected_for_thinking :: "a_request \<Rightarrow> string \<Rightarrow> bool" where
  "temperature_rejected_for_thinking sent msg =
     (case ar_thinking sent of
        None \<Rightarrow> False
      | Some t \<Rightarrow> ath_type t = ''enabled'' \<or> contains msg ''thinking'')"

text \<open>The adjustments a call records; the constants' values name them in the log.\<close>

datatype adjustment =
    AdjustTemperature
  | AdjustThinking
  | AdjustEffort
  | AdjustCaching
  | AdjustCachingThisCall
  | AdjustThinkingBlocks

definition log_adjustment :: "string \<Rightarrow> string \<Rightarrow> a_client \<Rightarrow> a_client" where
  "log_adjustment param action c = c\<lparr>ac_log := ac_log c @ [(param, action)]\<rparr>"

definition learn_drop_temperature :: "a_client \<Rightarrow> a_client" where
  "learn_drop_temperature c =
     (if ac_drop_temperature c then c
      else log_adjustment ''temperature'' ''omitted'' (c\<lparr>ac_drop_temperature := True\<rparr>))"

definition learn_drop_auto_caching :: "a_client \<Rightarrow> a_client" where
  "learn_drop_auto_caching c =
     (if ac_drop_auto_caching c then c
      else log_adjustment ''cache_control'' ''omitted'' (c\<lparr>ac_drop_auto_caching := True\<rparr>))"

definition learn_rejected_effort :: "string \<Rightarrow> a_client \<Rightarrow> a_client" where
  "learn_rejected_effort l c =
     (if l \<in> set (ac_rejected_effort c) then c
      else log_adjustment ''effort'' (''omitted '' @ l)
             (c\<lparr>ac_rejected_effort := l # ac_rejected_effort c\<rparr>))"

definition learn_rejected_thinking :: "string \<Rightarrow> a_client \<Rightarrow> a_client" where
  "learn_rejected_thinking t c =
     (if t \<in> set (ac_rejected_thinking c) then c
      else log_adjustment ''thinking'' (''omitted '' @ t)
             (c\<lparr>ac_rejected_thinking := t # ac_rejected_thinking c\<rparr>))"

text \<open>\<open>adaptToRejection\<close>: the adjustment, if there is one, and the client that learned it.\<close>

definition adapt_to_rejection ::
  "(bytes \<Rightarrow> a_error) \<Rightarrow> int \<Rightarrow> bytes \<Rightarrow> a_request \<Rightarrow> a_client \<Rightarrow> adjustment option \<times> a_client" where
  "adapt_to_rejection unmarshal status body sent c =
     (if status \<noteq> 400 then (None, c)
      else
       (let er = unmarshal body
        in if \<not> aer_ok er \<or> aer_type er \<noteq> ''invalid_request_error'' then (None, c)
           else
            (let msg = to_lower (aer_message er)
             in if contains msg ''invalid `signature`'' \<and> has_thinking_blocks sent then
                  (Some AdjustThinkingBlocks,
                   log_adjustment ''thinking blocks'' ''removed from history for this request'' c)
                else if ar_temperature sent \<noteq> None \<and> rejects_temperature msg then
                  (if temperature_rejected_for_thinking sent msg
                   then (Some AdjustTemperature, log_adjustment ''temperature'' ''omitted for this request'' c)
                   else (Some AdjustTemperature, learn_drop_temperature c))
                else if ar_effort sent \<noteq> None \<and> contains msg ''effort'' \<and> \<not> contains msg ''thinking.type'' then
                  (Some AdjustEffort, learn_rejected_effort (the (ar_effort sent)) c)
                else if ar_cache sent \<noteq> None \<and> contains msg ''cache_control'' then
                  (if 0 < block_markers sent
                   then (Some AdjustCachingThisCall, log_adjustment ''cache_control'' ''omitted for this request'' c)
                   else (Some AdjustCaching, learn_drop_auto_caching c))
                else (case ar_thinking sent of
                        Some t \<Rightarrow>
                          if ath_type t \<noteq> ''enabled'' \<and> contains msg ''thinking''
                             \<and> \<not> contains msg ''temperature'' \<and> \<not> contains msg ''block''
                          then (Some AdjustThinking, learn_rejected_thinking (ath_type t) c)
                          else (None, c)
                      | None \<Rightarrow> (None, c)))))"

definition omit_for_call :: "adjustment list \<Rightarrow> a_request \<Rightarrow> a_request" where
  "omit_for_call applied a0 =
     (let a1 = (if AdjustTemperature \<in> set applied then a0\<lparr>ar_temperature := None\<rparr> else a0);
          a2 = (if AdjustCachingThisCall \<in> set applied then a1\<lparr>ar_cache := None\<rparr> else a1)
      in if AdjustThinkingBlocks \<in> set applied then strip_thinking_blocks a2 else a2)"

definition confirm_adjustments :: "adjustment list \<Rightarrow> a_client \<Rightarrow> a_client" where
  "confirm_adjustments applied c =
     (if AdjustCachingThisCall \<in> set applied then learn_drop_auto_caching c else c)"

definition anthropic_max_sends :: nat where
  "anthropic_max_sends = 6"

text \<open>Whether to resend, with the adjustments applied and the client afterwards.\<close>

definition retry_after_rejection ::
  "(bytes \<Rightarrow> a_error) \<Rightarrow> int \<Rightarrow> bytes \<Rightarrow> a_request \<Rightarrow> adjustment list \<Rightarrow> nat \<Rightarrow> a_client
     \<Rightarrow> bool \<times> adjustment list \<times> a_client" where
  "retry_after_rejection unmarshal status body sent applied sends c =
     (case adapt_to_rejection unmarshal status body sent c of
        (None, c') \<Rightarrow> (False, applied, c')
      | (Some adj, c') \<Rightarrow>
          if adj \<in> set applied then (False, applied, c')
          else (sends < anthropic_max_sends, adj # applied, c'))"

subsection \<open>Errors\<close>

definition anthropic_sentinel :: "int \<Rightarrow> sentinel" where
  "anthropic_sentinel status =
     (if status = 401 \<or> status = 403 then ErrAuthentication
      else if status = 429 then ErrRateLimit
      else if status = 400 then ErrInvalidRequest
      else ErrProviderError)"

definition anthropic_map_error :: "(bytes \<Rightarrow> a_error) \<Rightarrow> a_client \<Rightarrow> int \<Rightarrow> bytes \<Rightarrow> go_error" where
  "anthropic_map_error unmarshal c status body =
     (let m = redact_message (aer_message (unmarshal body)) [ac_api_key c];
          msg = (if m = [] then ''HTTP '' @ itoa status else m)
      in ProviderErr \<lparr>pe_err = anthropic_sentinel status, pe_status = status, pe_message = msg,
                      pe_provider = provider_name\<rparr>)"

definition anthropic_decode_error :: "int \<Rightarrow> go_error \<Rightarrow> go_error" where
  "anthropic_decode_error status e =
     ProviderErr \<lparr>pe_err = ErrProviderError, pe_status = status,
       pe_message = ''response could not be decoded: '' @ error_text e, pe_provider = provider_name\<rparr>"

definition not_supported :: "string \<Rightarrow> go_error" where
  "not_supported msg = ProviderErr \<lparr>pe_err = ErrNotSupported, pe_status = 0, pe_message = msg,
     pe_provider = provider_name\<rparr>"

definition anthropic_embed :: go_error where
  "anthropic_embed = not_supported ''Anthropic does not support embeddings''"

definition anthropic_rerank :: go_error where
  "anthropic_rerank = not_supported ''Anthropic does not support reranking''"

definition anthropic_decide :: go_error where
  "anthropic_decide = not_supported ''Anthropic does not support decision models''"

definition anthropic_embed_multimodal :: go_error where
  "anthropic_embed_multimodal = not_supported ''Anthropic does not support multimodal embeddings''"

subsection \<open>\<open>Chat\<close>\<close>

text \<open>
  The state of a call between sends: the adjustments it has applied, the client, the requests
  it has sent, and the environment of \<open>post\<close>, which is \<open>httpclient.DoJSON\<close> on the encoded
  request with the response struct it decoded.
\<close>

record 'w a_call =
  cl_applied :: "adjustment list"
  cl_client :: a_client
  cl_sent :: "a_request list"
  cl_world :: 'w

type_synonym 'w a_post = "a_request \<Rightarrow> 'w \<Rightarrow> (json_result \<times> a_response) \<times> 'w"

text \<open>One pass of the loop of \<open>Chat\<close>.\<close>

definition chat_pass ::
  "(bytes \<Rightarrow> a_error) \<Rightarrow> 'w a_post \<Rightarrow> extension chat_request \<Rightarrow> nat \<Rightarrow> 'w a_call \<Rightarrow>
     ((go_error + chat_response) \<times> 'w a_call) + 'w a_call" where
  "chat_pass unmarshal post req sends s =
     (let c = cl_client s;
          a = omit_for_call (cl_applied s) (build_chat_request c req False);
          ((jr, resp), w) = post a (cl_world s);
          s1 = s\<lparr>cl_sent := cl_sent s @ [a], cl_world := w\<rparr>;
          status = jr_status jr;
          body = (case jr_body jr of None \<Rightarrow> [] | Some b \<Rightarrow> b)
      in case (if status = 0 then jr_err jr else None) of
           Some e \<Rightarrow> Inl (Inl e, s1)
         | None \<Rightarrow>
             if status < 200 \<or> 300 \<le> status then
               (case retry_after_rejection unmarshal status body a (cl_applied s) sends c of
                  (again, applied, c1) \<Rightarrow>
                    if again then Inr (s1\<lparr>cl_applied := applied, cl_client := c1\<rparr>)
                    else Inl (Inl (anthropic_map_error unmarshal c1 status body),
                              s1\<lparr>cl_applied := applied, cl_client := c1\<rparr>))
             else
               (let c1 = confirm_adjustments (cl_applied s) c
                in case jr_err jr of
                     Some e \<Rightarrow> Inl (Inl (anthropic_decode_error status e), s1\<lparr>cl_client := c1\<rparr>)
                   | None \<Rightarrow>
                       (let r = parse_chat_response resp
                        in Inl (Inr r, s1\<lparr>cl_client := add_usage c1 (resp_usage r)\<rparr>))))"

partial_function (option) chat_loop ::
  "(bytes \<Rightarrow> a_error) \<Rightarrow> 'w a_post \<Rightarrow> extension chat_request \<Rightarrow> nat \<Rightarrow> 'w a_call \<Rightarrow>
     ((go_error + chat_response) \<times> 'w a_call) option" where
  "chat_loop unmarshal post req sends s =
     (case chat_pass unmarshal post req sends s of
        Inl r \<Rightarrow> Some r
      | Inr s' \<Rightarrow> chat_loop unmarshal post req (Suc sends) s')"

definition fresh_call :: "a_client \<Rightarrow> 'w \<Rightarrow> 'w a_call" where
  "fresh_call c w = \<lparr>cl_applied = [], cl_client = c, cl_sent = [], cl_world = w\<rparr>"

definition anthropic_chat ::
  "(bytes \<Rightarrow> a_error) \<Rightarrow> 'w a_post \<Rightarrow> extension chat_request \<Rightarrow> a_client \<Rightarrow> 'w \<Rightarrow>
     ((go_error + chat_response) \<times> 'w a_call) option" where
  "anthropic_chat unmarshal post req c w =
     (case check_request c req of
        Some e \<Rightarrow> Some (Inl e, fresh_call c w)
      | None \<Rightarrow> chat_loop unmarshal post req 1 (fresh_call c w))"

subsection \<open>\<open>ChatStream\<close>\<close>

text \<open>
  One pass of the loop that opens the stream; \<open>open_sse\<close> is \<open>DoSSERequest\<close>, with the first
  64 KiB of the body of a response outside 2xx, and otherwise the response to stream from.
\<close>

type_synonym 'w a_open = "a_request \<Rightarrow> 'w \<Rightarrow> (go_error + int \<times> bytes) \<times> 'w"

definition open_pass ::
  "(bytes \<Rightarrow> a_error) \<Rightarrow> 'w a_open \<Rightarrow> extension chat_request \<Rightarrow> nat \<Rightarrow> 'w a_call \<Rightarrow>
     (go_error option \<times> 'w a_call) + 'w a_call" where
  "open_pass unmarshal open_sse req sends s =
     (let c = cl_client s;
          a = omit_for_call (cl_applied s) (build_chat_request c req True);
          (res, w) = open_sse a (cl_world s);
          s1 = s\<lparr>cl_sent := cl_sent s @ [a], cl_world := w\<rparr>
      in case res of
           Inl e \<Rightarrow> Inl (Some e, s1)
         | Inr (status, body) \<Rightarrow>
             if 200 \<le> status \<and> status < 300 then
               Inl (None, s1\<lparr>cl_client := confirm_adjustments (cl_applied s) c\<rparr>)
             else
               (case retry_after_rejection unmarshal status body a (cl_applied s) sends c of
                  (again, applied, c1) \<Rightarrow>
                    if again then Inr (s1\<lparr>cl_applied := applied, cl_client := c1\<rparr>)
                    else Inl (Some (anthropic_map_error unmarshal c1 status body),
                              s1\<lparr>cl_applied := applied, cl_client := c1\<rparr>)))"

partial_function (option) open_loop ::
  "(bytes \<Rightarrow> a_error) \<Rightarrow> 'w a_open \<Rightarrow> extension chat_request \<Rightarrow> nat \<Rightarrow> 'w a_call \<Rightarrow>
     (go_error option \<times> 'w a_call) option" where
  "open_loop unmarshal open_sse req sends s =
     (case open_pass unmarshal open_sse req sends s of
        Inl r \<Rightarrow> Some r
      | Inr s' \<Rightarrow> open_loop unmarshal open_sse req (Suc sends) s')"

definition anthropic_chat_stream ::
  "(bytes \<Rightarrow> a_error) \<Rightarrow> 'w a_open \<Rightarrow> extension chat_request \<Rightarrow> a_client \<Rightarrow> 'w \<Rightarrow>
     (go_error option \<times> 'w a_call) option" where
  "anthropic_chat_stream unmarshal open_sse req c w =
     (case check_request c req of
        Some e \<Rightarrow> Some (Some e, fresh_call c w)
      | None \<Rightarrow> open_loop unmarshal open_sse req 1 (fresh_call c w))"

subsection \<open>Listing models\<close>

record a_model_data =
  amd_id :: string
  amd_type :: string

text \<open>
  \<open>ListModelsWithMetadata\<close>: from the outcome of \<open>DoJSON\<close> on \<open>/models\<close> (with the list it decoded),
  with the capability table in the order the runtime visits it, and the caller's options.
\<close>

definition anthropic_list_models ::
  "(bytes \<Rightarrow> a_error) \<Rightarrow> (string \<times> capability list) list \<Rightarrow> a_client \<Rightarrow> json_result \<Rightarrow> a_model_data list
     \<Rightarrow> capability list option list \<Rightarrow> go_error + model_info list" where
  "anthropic_list_models unmarshal entries c jr ms opts =
     (let body = (case jr_body jr of None \<Rightarrow> [] | Some b \<Rightarrow> b)
      in case (if jr_status jr = 0 then jr_err jr else None) of
           Some e \<Rightarrow> Inl e
         | None \<Rightarrow>
             if jr_status jr < 200 \<or> 300 \<le> jr_status jr then
               Inl (anthropic_map_error unmarshal c (jr_status jr) body)
             else (case jr_err jr of
                     Some e \<Rightarrow> Inl (anthropic_decode_error (jr_status jr) e)
                   | None \<Rightarrow>
                       Inr (filter_model_infos
                              (map (\<lambda>m. \<lparr>mi_id = amd_id m, mi_context = 0, mi_max_output = 0, mi_dimensions = 0,
                                         mi_caps = lookup_capabilities entries (amd_id m), mi_deprecated = False\<rparr>)
                                (filter (\<lambda>m. amd_type m = ''model'') ms))
                              (list_models_config opts))))"

end
