(* ===== verification/AnthropicProps.thy ===== *)
theory AnthropicProps
  imports AnthropicChat
begin

text \<open>
  What the Anthropic client promises: its send loops return within \<open>maxSends\<close> requests, no
  request repeats what the model has just rejected, cache markers stay within the limit, and
  error texts hide the key.
\<close>

subsection \<open>What a built request carries\<close>

definition sent_effort :: "a_client \<Rightarrow> extension chat_request \<Rightarrow> string option" where
  "sent_effort c req =
     (case effective_effort req (opt_effort (ac_opts c)) of
        Inl _ \<Rightarrow> None
      | Inr e \<Rightarrow> (case effort_level e of
          Some l \<Rightarrow> if l \<in> set (ac_rejected_effort c) then None else Some l
        | None \<Rightarrow> None))"

definition ext_thinking :: "extension chat_request \<Rightarrow> a_thinking option" where
  "ext_thinking req =
     (case anthropic_ext req of
        None \<Rightarrow> None
      | Some x \<Rightarrow> if ax_extended_thinking x
          then Some \<lparr>ath_type = ''enabled'', ath_budget = Some (ax_budget_tokens x)\<rparr> else None)"

definition sent_thinking :: "a_client \<Rightarrow> extension chat_request \<Rightarrow> a_thinking option" where
  "sent_thinking c req =
     (case ext_thinking req of
        Some t \<Rightarrow> Some t
      | None \<Rightarrow>
          (case effective_effort req (opt_effort (ac_opts c)) of
             Inl _ \<Rightarrow> None
           | Inr e \<Rightarrow>
               if e = EffortDefault then None
               else let ty = (if e = EffortNone then ''disabled'' else ''adaptive'')
                    in if ty \<in> set (ac_rejected_thinking c) then None
                       else Some \<lparr>ath_type = ty, ath_budget = None\<rparr>))"

lemma set_effort_other:
  "ar_cache (set_reasoning_effort c req a) = ar_cache a"
  "ar_messages (set_reasoning_effort c req a) = ar_messages a"
  by (simp_all add: set_reasoning_effort_def Let_def split: sum.split option.split)

lemma apply_effort_select:
  "ar_effort (apply_reasoning_effort c req a) = ar_effort (set_reasoning_effort c req a)"
  "ar_thinking (apply_reasoning_effort c req a) = ar_thinking (set_reasoning_effort c req a)"
  "ar_cache (apply_reasoning_effort c req a) = ar_cache (set_reasoning_effort c req a)"
  "ar_messages (apply_reasoning_effort c req a) = ar_messages (set_reasoning_effort c req a)"
  by (simp_all add: apply_reasoning_effort_def Let_def split: option.split)

lemma set_effort_result:
  "ar_effort a = None \<Longrightarrow> ar_effort (set_reasoning_effort c req a) = sent_effort c req"
  by (auto simp: set_reasoning_effort_def sent_effort_def effort_level_def Let_def
      split: sum.split option.split effort.split)

lemma set_thinking_result:
  "ar_thinking a = ext_thinking req \<Longrightarrow> ar_thinking (set_reasoning_effort c req a) = sent_thinking c req"
  by (simp add: set_reasoning_effort_def sent_thinking_def Let_def split: sum.split option.split)

text \<open>The steps of \<open>buildChatRequest\<close> after the reasoning effort leave these fields alone.\<close>

lemma base_select:
  "ar_effort (base_request c req st) = None" "ar_thinking (base_request c req st) = ext_thinking req"
  "ar_cache (base_request c req st) = None"
  by (simp_all add: base_request_def ext_thinking_def)

lemma auto_cache_select:
  "ar_effort (add_auto_cache c req a) = ar_effort a"
  "ar_thinking (add_auto_cache c req a) = ar_thinking a"
  "ar_temperature (add_auto_cache c req a) = ar_temperature a"
  by (simp_all add: add_auto_cache_def)

lemma build_select:
  "ar_effort (build_chat_request c req st) = sent_effort c req"
  "ar_thinking (build_chat_request c req st) = sent_thinking c req"
  "\<not> auto_caching c req \<Longrightarrow> ar_cache (build_chat_request c req st) = None"
  by (simp_all add: build_chat_request_def Let_def auto_cache_select apply_effort_select base_select
      set_effort_result set_thinking_result)
     (simp add: add_auto_cache_def apply_effort_select set_effort_other base_select)

lemma strip_select:
  "ar_effort (strip_thinking_blocks a) = ar_effort a" "ar_thinking (strip_thinking_blocks a) = ar_thinking a"
  "ar_cache (strip_thinking_blocks a) = ar_cache a" "ar_temperature (strip_thinking_blocks a) = ar_temperature a"
  by (simp_all add: strip_thinking_blocks_def)

lemma omit_select:
  "ar_effort (omit_for_call ap a) = ar_effort a" "ar_thinking (omit_for_call ap a) = ar_thinking a"
  "ar_cache (omit_for_call ap a) = (if AdjustCachingThisCall \<in> set ap then None else ar_cache a)"
  "ar_temperature (omit_for_call ap a) = (if AdjustTemperature \<in> set ap then None else ar_temperature a)"
  by (simp_all add: omit_for_call_def Let_def strip_select)

lemma strip_messages_plain:
  "m \<in> set (strip_messages ms) \<Longrightarrow> b \<in> set (am_content m) \<Longrightarrow> \<not> is_thinking_block b"
  by (induction ms) (auto simp: Let_def split: if_splits)

lemma omit_no_thinking:
  "AdjustThinkingBlocks \<in> set ap \<Longrightarrow> \<not> has_thinking_blocks (omit_for_call ap a)"
  by (auto simp: has_thinking_blocks_def omit_for_call_def Let_def strip_thinking_blocks_def list_ex_iff
      dest: strip_messages_plain)

text \<open>What an adjustment is about.\<close>

fun carries :: "adjustment \<Rightarrow> a_request \<Rightarrow> bool" where
  "carries AdjustTemperature a = (ar_temperature a \<noteq> None)"
| "carries AdjustThinking a = (ar_thinking a \<noteq> None)"
| "carries AdjustEffort a = (ar_effort a \<noteq> None)"
| "carries AdjustCaching a = (ar_cache a \<noteq> None)"
| "carries AdjustCachingThisCall a = (ar_cache a \<noteq> None)"
| "carries AdjustThinkingBlocks a = has_thinking_blocks a"

lemmas learn_defs = learn_drop_temperature_def learn_drop_auto_caching_def learn_rejected_effort_def
  learn_rejected_thinking_def log_adjustment_def

text \<open>What the adjusted client knows, by the adjustment.\<close>

lemma adapt_cases:
  assumes "adapt_to_rejection um st body sent c = (Some adj, c')"
  obtains "adj = AdjustThinkingBlocks" "has_thinking_blocks sent"
  | "adj = AdjustTemperature" "ar_temperature sent \<noteq> None"
  | l where "adj = AdjustEffort" "ar_effort sent = Some l" "c' = learn_rejected_effort l c"
  | "adj = AdjustCachingThisCall" "ar_cache sent \<noteq> None"
  | "adj = AdjustCaching" "ar_cache sent \<noteq> None" "c' = learn_drop_auto_caching c"
  | t where "adj = AdjustThinking" "ar_thinking sent = Some t" "ath_type t \<noteq> ''enabled''"
      "c' = learn_rejected_thinking (ath_type t) c"
  using assms
  by (simp add: adapt_to_rejection_def Let_def split: if_splits option.splits)


definition demo_options :: "extension client_options" where
  "demo_options = \<lparr>opt_api_key = ''sk-ant-secret'', opt_api_key_file = [], opt_model = ''claude'',
     opt_base_url = [], opt_custom_headers = [], opt_max_tokens = Some 100, opt_temperature = Some 0,
     opt_effort = EffortHigh, opt_caching = CachingAuto, opt_extra_body = [], opt_request_timeout = 0,
     opt_per_attempt_timeout = 0, opt_max_response_bytes = 0,
     opt_retry = \<lparr>max_retries = 0, initial_backoff = 0, max_backoff = 0, retry_disabled = True\<rparr>,
     opt_extensions = []\<rparr>"

definition demo_client :: a_client where
  "demo_client = \<lparr>ac_api_key = ''sk-ant-secret'', ac_model = ''claude'',
     ac_base_url = ''https://api.anthropic.com/v1'', ac_opts = demo_options, ac_usage = zero_usage,
     ac_drop_temperature = False, ac_rejected_thinking = [], ac_rejected_effort = [],
     ac_drop_auto_caching = False, ac_log = []\<rparr>"

definition demo_request :: "extension chat_request" where
  "demo_request = \<lparr>req_messages = [user_text ''hi''], req_tools = [], req_system = [],
     req_max_tokens = None, req_temperature = None, req_extensions = [], req_format = None,
     req_tool_choice = None, req_stop = [], req_descriptions = ToolDescriptionDefault,
     req_effort = EffortDefault, req_caching = CachingDefault\<rparr>"

definition demo_error :: "bytes \<Rightarrow> a_error" where
  "demo_error b = \<lparr>aer_ok = True, aer_message = b, aer_type = ''invalid_request_error''\<rparr>"


subsection \<open>The send loops\<close>

lemma retry_again:
  "retry_after_rejection um st body sent ap n c = (True, ap', c') \<Longrightarrow> n < anthropic_max_sends"
  by (auto simp: retry_after_rejection_def split: prod.splits option.splits if_splits)

interpretation chat: send_loop "chat_pass unmarshal post req" "chat_loop unmarshal post req"
    anthropic_max_sends "\<lambda>s. length (cl_sent s)" "\<lambda>r. length (cl_sent (snd r))"
  for unmarshal post req
proof unfold_locales
  fix n s s' r
  show "chat_loop unmarshal post req n s =
      (case chat_pass unmarshal post req n s of Inl r \<Rightarrow> Some r | Inr s' \<Rightarrow> chat_loop unmarshal post req (Suc n) s')"
    by (rule chat_loop.simps)
  show "chat_pass unmarshal post req n s = Inr s' \<Longrightarrow>
      n < anthropic_max_sends \<and> length (cl_sent s') = Suc (length (cl_sent s))"
    by (auto simp: chat_pass_def Let_def dest: retry_again split: prod.splits option.splits if_splits)
  show "chat_pass unmarshal post req n s = Inl r \<Longrightarrow> length (cl_sent (snd r)) \<le> Suc (length (cl_sent s))"
    by (auto simp: chat_pass_def Let_def split: prod.splits option.splits if_splits)
qed

interpretation sse: send_loop "open_pass unmarshal open_sse req" "open_loop unmarshal open_sse req"
    anthropic_max_sends "\<lambda>s. length (cl_sent s)" "\<lambda>r. length (cl_sent (snd r))"
  for unmarshal open_sse req
proof unfold_locales
  fix n s s' r
  show "open_loop unmarshal open_sse req n s =
      (case open_pass unmarshal open_sse req n s of Inl r \<Rightarrow> Some r | Inr s' \<Rightarrow> open_loop unmarshal open_sse req (Suc n) s')"
    by (rule open_loop.simps)
  show "open_pass unmarshal open_sse req n s = Inr s' \<Longrightarrow>
      n < anthropic_max_sends \<and> length (cl_sent s') = Suc (length (cl_sent s))"
    by (auto simp: open_pass_def Let_def dest: retry_again split: prod.splits sum.splits if_splits)
  show "open_pass unmarshal open_sse req n s = Inl r \<Longrightarrow> length (cl_sent (snd r)) \<le> Suc (length (cl_sent s))"
    by (auto simp: open_pass_def Let_def split: prod.splits sum.splits if_splits)
qed

text \<open>
  C6: Chat always returns, having sent at most six requests, whatever the API answers; the same
  holds of opening a stream with ChatStream.
\<close>

theorem anthropic_sends_bounded:
  "(\<exists>res s. anthropic_chat unmarshal post req c w = Some (res, s) \<and> length (cl_sent s) \<le> 6) \<and>
   (\<exists>err s. anthropic_chat_stream unmarshal open_sse req c w = Some (err, s) \<and> length (cl_sent s) \<le> 6)"
proof -
  have "\<exists>r. chat_loop unmarshal post req 1 (fresh_call c w) = Some r \<and> length (cl_sent (snd r)) \<le> 6"
    using chat.returns [of 1 unmarshal post req "fresh_call c w"]
    by (simp add: anthropic_max_sends_def fresh_call_def)
  moreover have "\<exists>r. open_loop unmarshal open_sse req 1 (fresh_call c w) = Some r \<and> length (cl_sent (snd r)) \<le> 6"
    using sse.returns [of 1 unmarshal open_sse req "fresh_call c w"]
    by (simp add: anthropic_max_sends_def fresh_call_def)
  ultimately show ?thesis
    by (auto simp: anthropic_chat_def anthropic_chat_stream_def split: option.split) (auto simp: fresh_call_def)
qed

subsection \<open>Cache markers, temperature, usage and errors\<close>

lemma length_filter_twice: "length (filter P (filter Q xs)) \<le> length (filter P xs)"
  by (induction xs) auto

lemma strip_markers:
  "sum_list (map (\<lambda>m. length (filter (\<lambda>b. ab_cache b \<noteq> None) (am_content m))) (strip_messages ms))
    \<le> sum_list (map (\<lambda>m. length (filter (\<lambda>b. ab_cache b \<noteq> None) (am_content m))) ms)"
proof (induction ms)
  case (Cons m ms)
  note length_filter_twice [of "\<lambda>b. ab_cache b \<noteq> None" "\<lambda>b. \<not> is_thinking_block b" "am_content m"]
  with Cons show ?case by (simp add: Let_def del: filter_filter)
qed simp

lemma omit_markers: "block_markers (omit_for_call ap a) \<le> block_markers a"
  using strip_markers [of "ar_messages a"]
  by (simp add: omit_for_call_def Let_def strip_thinking_blocks_def block_markers_def)

lemma auto_cache_limit: "ar_cache a = None \<Longrightarrow>
    ar_cache (add_auto_cache c req a) = None \<or> Suc (block_markers (add_auto_cache c req a)) \<le> 4"
  by (auto simp: add_auto_cache_def max_cache_breakpoints_def block_markers_def)

text \<open>
  C11: the automatic cache marker never takes a request over Anthropic's limit: a request that
  carries the top-level marker, as built or with what the call has dropped, marks at most three
  blocks besides.
\<close>

theorem auto_cache_within_limit:
  "ar_cache (omit_for_call applied (build_chat_request c req stream)) = None \<or>
   Suc (block_markers (omit_for_call applied (build_chat_request c req stream))) \<le> 4"
proof -
  have "ar_cache (build_chat_request c req stream) = None \<or> Suc (block_markers (build_chat_request c req stream)) \<le> 4"
    unfolding build_chat_request_def Let_def
    by (rule auto_cache_limit) (simp add: apply_effort_select set_effort_other base_select)
  with omit_markers [of applied "build_chat_request c req stream"] show ?thesis
    by (auto simp: omit_select)
qed

text \<open>
  a request with adaptive thinking carries no temperature but 1, which is what Anthropic
  requires, whether the temperature came from the request or the client.
\<close>

theorem adaptive_without_temperature:
  "\<not> (\<exists>t f. ar_thinking (build_chat_request c req stream) = Some t \<and> ath_type t = ''adaptive'' \<and>
        ar_temperature (build_chat_request c req stream) = Some f \<and> f \<noteq> f64_one)"
  by (auto simp: build_chat_request_def Let_def auto_cache_select apply_reasoning_effort_def split: option.splits if_splits)

lemma learn_usage:
  "ac_usage (learn_drop_temperature c) = ac_usage c" "ac_usage (learn_drop_auto_caching c) = ac_usage c"
  "ac_usage (learn_rejected_effort l c) = ac_usage c" "ac_usage (learn_rejected_thinking l c) = ac_usage c"
  "ac_usage (log_adjustment p x c) = ac_usage c"
  by (simp_all add: learn_defs)

lemma confirm_usage: "ac_usage (confirm_adjustments ap c) = ac_usage c"
  by (simp add: confirm_adjustments_def learn_usage)

lemma adapt_usage: "adapt_to_rejection um st body sent c = (adj, c') \<Longrightarrow> ac_usage c' = ac_usage c"
  by (auto simp: adapt_to_rejection_def Let_def learn_usage split: if_splits option.splits)

lemma retry_usage: "retry_after_rejection um st body sent ap n c = (again, ap', c') \<Longrightarrow> ac_usage c' = ac_usage c"
  by (auto simp: retry_after_rejection_def dest: adapt_usage split: prod.splits option.splits if_splits)

text \<open>
  token accounting. A Chat call that succeeds adds its response's usage to the client's
  total exactly once, however many rejected requests it took, and one that fails adds nothing.
\<close>

theorem chat_usage_counted_once:
  "case anthropic_chat unmarshal post req c w of
     None \<Rightarrow> False
   | Some (Inl e, s) \<Rightarrow> ac_usage (cl_client s) = ac_usage c
   | Some (Inr resp, s) \<Rightarrow> ac_usage (cl_client s) = usage_add (ac_usage c) (resp_usage resp)"
proof -
  let ?Q = "\<lambda>r :: (go_error + chat_response) \<times> 'a a_call. case r of
      (Inl e, s) \<Rightarrow> ac_usage (cl_client s) = ac_usage c
    | (Inr resp, s) \<Rightarrow> ac_usage (cl_client s) = usage_add (ac_usage c) (resp_usage resp)"
  have loop: "?Q r" if "chat_loop unmarshal post req 1 (fresh_call c w) = Some r" for r
  proof (rule chat.keeps [OF that, where P = "\<lambda>n s. ac_usage (cl_client s) = ac_usage c"])
    show "1 \<le> anthropic_max_sends" by (simp add: anthropic_max_sends_def)
    show "ac_usage (cl_client (fresh_call c w)) = ac_usage c" by (simp add: fresh_call_def)
  next
    fix n s s'
    assume "ac_usage (cl_client s) = ac_usage c" "chat_pass unmarshal post req n s = Inr s'"
    then show "ac_usage (cl_client s') = ac_usage c"
      by (auto simp: chat_pass_def Let_def dest: retry_usage split: prod.splits option.splits if_splits)
  next
    fix n s r
    assume "ac_usage (cl_client s) = ac_usage c" "chat_pass unmarshal post req n s = Inl r"
    then show "?Q r"
      by (auto simp: chat_pass_def Let_def add_usage_def confirm_usage dest: retry_usage
          split: prod.splits option.splits if_splits)
  qed
  obtain r where "chat_loop unmarshal post req 1 (fresh_call c w) = Some r"
    using chat.returns [of 1 unmarshal post req "fresh_call c w"] by (auto simp: anthropic_max_sends_def)
  with loop [of r] show ?thesis
    by (auto simp: anthropic_chat_def fresh_call_def split: option.split sum.splits)
qed

text \<open>
  an error from the API does not leak the key. The error carries the status, the sentinel
  for it, and a message in which the key does not occur (a key that redaction can hide, and
  that is not part of the words ``HTTP'' and the status).
\<close>

theorem anthropic_error_hides_key:
  assumes "hideable (ac_api_key c)" and "\<not> contains (''HTTP '' @ itoa status) (ac_api_key c)"
  shows "case anthropic_map_error unmarshal c status body of
      ProviderErr pe \<Rightarrow> \<not> contains (pe_message pe) (ac_api_key c) \<and> pe_status pe = status \<and>
        pe_err pe = (if status \<in> {401, 403} then ErrAuthentication else if status = 429 then ErrRateLimit
                     else if status = 400 then ErrInvalidRequest else ErrProviderError)
    | _ \<Rightarrow> False"
  using rd.hides [of "ac_api_key c" "[ac_api_key c]" "aer_message (unmarshal body)"] assms
  by (simp add: anthropic_map_error_def anthropic_sentinel_def Let_def)

theorem anthropic_error_hides_key_witness:
  "\<not> contains (pe_message (case anthropic_map_error demo_error demo_client 401 ''invalid key sk-ant-secret'' of
      ProviderErr pe \<Rightarrow> pe | _ \<Rightarrow> undefined)) ''sk-ant-secret''"
proof -
  have k: "hideable (ac_api_key demo_client)" "\<not> contains (''HTTP '' @ itoa 401) (ac_api_key demo_client)"
    by (simp_all add: hideable_def min_exact_len_def demo_client_def itoa_def nat_str.simps digit_char_def)
  show ?thesis using anthropic_error_hides_key [OF k, of demo_error "''invalid key sk-ant-secret''"]
    by (auto simp: demo_client_def split: go_error.splits)
qed

end
