(* ===== verification/OpenAIWire.thy ===== *)
theory OpenAIWire
  imports ProviderBase Assembly
begin

text \<open>
  The wire structs of OpenAI's two chat endpoints, Chat Completions (\<open>openai.go\<close>) and Responses
  (\<open>responses.go\<close>), with the conversions to and from them and the two stream readers. A field
  of type \<open>any\<close> is a datatype of what the code puts there; nested one-field structs are
  flattened, as their names say.
\<close>

subsection \<open>Chat Completions: the request\<close>

record o_part =
  op_type :: string
  op_text :: string
  op_image_url :: "string option"

datatype o_content = ContentNil | ContentText string | ContentParts "o_part list"

record o_tool_call =
  otc_id :: string
  otc_type :: string
  otc_function_name :: string
  otc_function_arguments :: string

record o_message =
  omsg_role :: string
  omsg_content :: o_content
  omsg_tool_calls :: "o_tool_call list"
  omsg_tool_call_id :: string

record o_tool =
  otl_type :: string
  otl_function_name :: string
  otl_function_description :: string
  otl_function_parameters :: bytes

datatype o_tool_choice = ChoiceMode string | ChoiceFunction string

record o_json_schema =
  ojs_name :: string
  ojs_schema :: bytes
  ojs_strict :: bool

record o_response_format =
  orf_type :: string
  orf_json_schema :: "o_json_schema option"

record o_request =
  or_model :: string
  or_messages :: "o_message list"
  or_max_tokens :: "int option"
  or_max_completion_tokens :: "int option"
  or_temperature :: "f64 option"
  or_tools :: "o_tool list"
  or_tool_choice :: "o_tool_choice option"
  or_stop :: "string list"
  or_stream :: bool
  or_include_usage :: "bool option"
  or_format :: "o_response_format option"
  or_effort :: effort

definition split_user_tool_results :: "message \<Rightarrow> message \<times> message \<times> bool" where
  "split_user_tool_results m =
     (let rs = filter (\<lambda>b. cb_type b = BlockToolResult) (msg_content m);
          rest = filter (\<lambda>b. cb_type b \<noteq> BlockToolResult) (msg_content m)
      in (\<lparr>msg_role = RoleTool, msg_content = rs\<rparr>, \<lparr>msg_role = msg_role m, msg_content = rest\<rparr>, rs \<noteq> []))"

definition image_url_of :: "image_content \<Rightarrow> string" where
  "image_url_of i =
     (if img_url i = [] \<and> img_data i \<noteq> [] then
        data_url (if img_media_type i = [] then ''application/octet-stream'' else img_media_type i) (img_data i)
      else img_url i)"

definition user_part :: "content_block \<Rightarrow> o_part option" where
  "user_part b =
     (case cb_type b of
        BlockText \<Rightarrow> Some \<lparr>op_type = ''text'', op_text = cb_text b, op_image_url = None\<rparr>
      | BlockImage \<Rightarrow>
          (case cb_image b of
             None \<Rightarrow> None
           | Some i \<Rightarrow> if image_url_of i = [] then None
               else Some \<lparr>op_type = ''image_url'', op_text = [], op_image_url = Some (image_url_of i)\<rparr>)
      | _ \<Rightarrow> None)"

definition block_texts :: "content_block list \<Rightarrow> string list" where
  "block_texts bs = map cb_text (filter (\<lambda>b. cb_type b = BlockText) bs)"

definition convert_user :: "message \<Rightarrow> o_message" where
  "convert_user m =
     \<lparr>omsg_role = role_str (msg_role m),
      omsg_content = (if list_ex (\<lambda>b. cb_type b = BlockImage) (msg_content m)
                      then ContentParts (List.map_filter user_part (msg_content m))
                      else ContentText (concat (block_texts (msg_content m)))),
      omsg_tool_calls = [], omsg_tool_call_id = []\<rparr>"

definition tool_call_of :: "content_block \<Rightarrow> o_tool_call option" where
  "tool_call_of b =
     (if cb_type b = BlockToolUse then
        map_option (\<lambda>t. \<lparr>otc_id = tu_id t, otc_type = ''function'', otc_function_name = tu_name t,
                         otc_function_arguments = tu_input t\<rparr>) (cb_tool_use b)
      else None)"

definition convert_assistant :: "message \<Rightarrow> o_message" where
  "convert_assistant m =
     (let texts = block_texts (msg_content m) in
      \<lparr>omsg_role = ''assistant'',
       omsg_content = (if texts \<noteq> [] then ContentText (concat texts) else ContentNil),
       omsg_tool_calls = List.map_filter tool_call_of (msg_content m), omsg_tool_call_id = []\<rparr>)"

definition tool_message_of :: "content_block \<Rightarrow> o_message option" where
  "tool_message_of b =
     (if cb_type b = BlockToolResult then
        Some \<lparr>omsg_role = ''tool'', omsg_content = ContentText (tool_result_content (cb_text b) (cb_is_error b)),
              omsg_tool_calls = [], omsg_tool_call_id = cb_tool_use_id b\<rparr>
      else None)"

definition convert_tool_message :: "message \<Rightarrow> o_message list" where
  "convert_tool_message m = List.map_filter tool_message_of (msg_content m)"

definition o_convert_message :: "message \<Rightarrow> o_message list" where
  "o_convert_message m =
     (case msg_role m of
        RoleAssistant \<Rightarrow> [convert_assistant m]
      | RoleTool \<Rightarrow> convert_tool_message m
      | RoleUser \<Rightarrow>
          (case split_user_tool_results m of
             (results, rest, found) \<Rightarrow>
               if \<not> found then [convert_user m]
               else convert_tool_message results @ (if msg_content rest \<noteq> [] then [convert_user rest] else []))
      | _ \<Rightarrow> [convert_user m])"

definition o_convert_messages :: "'x chat_request \<Rightarrow> o_message list" where
  "o_convert_messages req =
     (if req_system req \<noteq> [] then
        [\<lparr>omsg_role = ''system'', omsg_content = ContentText (req_system req), omsg_tool_calls = [],
          omsg_tool_call_id = []\<rparr>] else [])
     @ concat (map o_convert_message (req_messages req))"

definition has_document :: "'x chat_request \<Rightarrow> bool" where
  "has_document req =
     list_ex (\<lambda>m. list_ex (\<lambda>b. cb_type b = BlockDocument) (msg_content m)) (req_messages req)"

definition openai_reject_documents :: "'x chat_request \<Rightarrow> go_error option" where
  "openai_reject_documents req =
     (if has_document req then
        Some (provider_err ''openai'' ErrNotSupported
          (''OpenAI Chat Completions does not support document content blocks; pre-extract text or use ''
           @ ''a provider with native document support (Anthropic, Gemini)''))
      else None)"

definition o_tool_choice_of :: "tool_choice \<Rightarrow> o_tool_choice option" where
  "o_tool_choice_of tc =
     (case tc_mode tc of
        ToolChoiceAuto \<Rightarrow> Some (ChoiceMode ''auto'')
      | ToolChoiceNone \<Rightarrow> Some (ChoiceMode ''none'')
      | ToolChoiceRequired \<Rightarrow> Some (ChoiceMode ''required'')
      | ToolChoiceSpecific \<Rightarrow> Some (ChoiceFunction (tc_name tc))
      | ToolChoiceOther _ \<Rightarrow> None)"

definition o_format_of :: "response_format \<Rightarrow> o_response_format option" where
  "o_format_of rf =
     (case rf_type rf of
        ResponseFormatJSON \<Rightarrow> Some \<lparr>orf_type = ''json_object'', orf_json_schema = None\<rparr>
      | ResponseFormatJSONSchema \<Rightarrow>
          Some \<lparr>orf_type = ''json_schema'', orf_json_schema =
            Some \<lparr>ojs_name = ''response'', ojs_schema = rf_schema rf, ojs_strict = True\<rparr>\<rparr>
      | _ \<Rightarrow> None)"

definition o_tools_of :: "'x chat_request \<Rightarrow> string \<Rightarrow> o_tool list" where
  "o_tools_of req base_url =
     map (\<lambda>t. \<lparr>otl_type = ''function'', otl_function_name = tool_name t,
               otl_function_description = effective_tool_description t (use_compact_descriptions req base_url),
               otl_function_parameters = tool_schema t\<rparr>) (req_tools req)"

subsection \<open>Chat Completions: the response\<close>

record o_usage =
  ou_prompt :: int
  ou_completion :: int
  ou_total :: int

record o_choice =
  och_content :: "string option"
  och_tool_calls :: "o_tool_call list"
  och_finish_reason :: string

record o_response =
  ors_choices :: "o_choice list"
  ors_usage :: o_usage

definition o_usage_of :: "o_usage \<Rightarrow> token_usage" where
  "o_usage_of u = \<lparr>us_prompt = ou_prompt u, us_completion = ou_completion u, us_total = ou_total u,
     us_cache_creation = 0, us_cache_read = 0\<rparr>"

definition o_stop_reason :: "string \<Rightarrow> stop_reason" where
  "o_stop_reason r =
     (if r = ''stop'' then StopReasonEndTurn
      else if r = ''length'' then StopReasonMaxTokens
      else if r = ''tool_calls'' \<or> r = ''function_call'' then StopReasonToolUse
      else if r = ''content_filter'' then StopReasonContentFilter
      else StopReasonEndTurn)"

definition received_tool :: "o_tool_call \<Rightarrow> content_block" where
  "received_tool tc = tool_use_block \<lparr>tu_id = otc_id tc, tu_name = otc_function_name tc,
     tu_input = otc_function_arguments tc, tu_signature = []\<rparr>"

definition o_parse_response :: "o_response \<Rightarrow> chat_response" where
  "o_parse_response r =
     (case ors_choices r of
        [] \<Rightarrow> \<lparr>resp_content = [], resp_stop = StopReasonUnset, resp_usage = o_usage_of (ors_usage r)\<rparr>
      | ch # _ \<Rightarrow>
          \<lparr>resp_content =
             (case och_content ch of
                Some t \<Rightarrow> if t \<noteq> [] then [text_block t] else []
              | None \<Rightarrow> [])
             @ map received_tool (och_tool_calls ch),
           resp_stop = o_stop_reason (och_finish_reason ch), resp_usage = o_usage_of (ors_usage r)\<rparr>)"

subsection \<open>Chat Completions: the stream\<close>

record o_tool_delta =
  otd_index :: int
  otd_id :: string
  otd_function :: "(string \<times> string) option"

record o_stream_chunk =
  osc_choices :: "(string option \<times> o_tool_delta list \<times> string option) list"
  osc_usage :: "o_usage option"

text \<open>
  A choice is its delta's content, its tool call deltas and its finish reason; a function is
  its name and arguments. The reading goroutine keeps the tool calls it has seen, by index, and
  the last usage.
\<close>

record o_tool_state =
  ots_id :: string
  ots_name :: string
  ots_args :: string

record o_stream_state =
  oss_tools :: "(int \<times> o_tool_state) list"
  oss_usage :: "o_usage option"

definition o_stream_init :: o_stream_state where
  "o_stream_init = \<lparr>oss_tools = [], oss_usage = None\<rparr>"

definition stream_tool_delta ::
  "(int \<times> o_tool_state) list \<Rightarrow> o_tool_delta \<Rightarrow> (int \<times> o_tool_state) list \<times> chunk list" where
  "stream_tool_delta tools d =
     (let s0 = (case map_of tools (otd_index d) of
                  Some s \<Rightarrow> s | None \<Rightarrow> \<lparr>ots_id = [], ots_name = [], ots_args = []\<rparr>);
          s1 = (if otd_id d \<noteq> [] then s0\<lparr>ots_id := otd_id d\<rparr> else s0)
      in case otd_function d of
           None \<Rightarrow> (map_put (otd_index d) s1 tools, [])
         | Some (name, args) \<Rightarrow>
             (let s2 = (if name \<noteq> [] then s1\<lparr>ots_name := name\<rparr> else s1);
                  start = (if name \<noteq> [] then [(blank_chunk ChunkToolUseStart)\<lparr>ck_tool_use :=
                      Some \<lparr>tu_id = ots_id s2, tu_name = ots_name s2, tu_input = [], tu_signature = []\<rparr>\<rparr>]
                    else []);
                  s3 = (if args \<noteq> [] then s2\<lparr>ots_args := ots_args s2 @ args\<rparr> else s2);
                  delta = (if args \<noteq> [] then [(blank_chunk ChunkToolUseDelta)\<lparr>ck_partial := args\<rparr>] else [])
              in (map_put (otd_index d) s3 tools, start @ delta)))"

fun stream_tool_deltas ::
  "(int \<times> o_tool_state) list \<Rightarrow> o_tool_delta list \<Rightarrow> (int \<times> o_tool_state) list \<times> chunk list" where
  "stream_tool_deltas tools [] = (tools, [])"
| "stream_tool_deltas tools (d # ds) =
     (let (t1, cs) = stream_tool_delta tools d; (t2, rest) = stream_tool_deltas t1 ds in (t2, cs @ rest))"

text \<open>One decoded chunk: the chunks it sends, and the usage it adds to the client's.\<close>

definition o_stream_chunk_step ::
  "o_stream_state \<Rightarrow> o_stream_chunk \<Rightarrow> o_stream_state \<times> chunk list \<times> token_usage list" where
  "o_stream_chunk_step s ck =
     (let s1 = (case osc_usage ck of Some u \<Rightarrow> s\<lparr>oss_usage := Some u\<rparr> | None \<Rightarrow> s)
      in case osc_choices ck of
           [] \<Rightarrow> (s1, [], [])
         | (content, calls, finish) # _ \<Rightarrow>
             (let texts = (case content of
                    Some t \<Rightarrow> if t \<noteq> [] then [(blank_chunk ChunkText)\<lparr>ck_text := t\<rparr>] else []
                  | None \<Rightarrow> []);
                  (tools, cs) = stream_tool_deltas (oss_tools s1) calls;
                  usage = (case oss_usage s1 of Some u \<Rightarrow> o_usage_of u | None \<Rightarrow> zero_usage);
                  finished = (case finish of Some f \<Rightarrow> f \<noteq> [] | None \<Rightarrow> False)
              in (s1\<lparr>oss_tools := tools\<rparr>,
                  texts @ cs @ (if finished then [(blank_chunk ChunkDone)\<lparr>ck_usage := Some usage\<rparr>] else []),
                  if finished \<and> oss_usage s1 \<noteq> None then [usage] else [])))"

text \<open>
  The goroutine over the data lines, as for Anthropic: the chunks, the error, and the usages
  added to the client's.
\<close>

fun o_stream_loop ::
  "(string \<Rightarrow> go_error + o_stream_chunk) \<Rightarrow> go_error option \<Rightarrow> o_stream_state \<Rightarrow> string list \<Rightarrow>
     chunk list \<times> go_error option \<times> token_usage list" where
  "o_stream_loop decode scan_err s [] = ([], map_option (WrapErr ''read stream: '') scan_err, [])"
| "o_stream_loop decode scan_err s (d # ds) =
     (if d = ''[DONE]'' then ([], map_option (WrapErr ''read stream: '') scan_err, [])
      else case decode d of
             Inl e \<Rightarrow> ([], Some (WrapErr ''decode stream chunk: '' e), [])
           | Inr ck \<Rightarrow>
               (let (s', cs, us) = o_stream_chunk_step s ck;
                    (rest, err, more) = o_stream_loop decode scan_err s' ds
                in (cs @ rest, err, us @ more)))"

subsection \<open>Responses: the request\<close>

record r_part =
  rp_type :: string
  rp_text :: string
  rp_image_url :: string

record r_item =
  ri_type :: string
  ri_role :: string
  ri_content :: "r_part list"
  ri_call_id :: string
  ri_name :: string
  ri_arguments :: string
  ri_output :: "string option"

record r_tool =
  rt_type :: string
  rt_name :: string
  rt_description :: string
  rt_parameters :: bytes

record r_format =
  rf_kind :: string
  rf_name :: string
  rf_json_schema :: bytes
  rf_strict :: bool

record r_request =
  rr_model :: string
  rr_input :: "r_item list"
  rr_instructions :: string
  rr_max_output_tokens :: "int option"
  rr_temperature :: "f64 option"
  rr_tools :: "r_tool list"
  rr_tool_choice :: "o_tool_choice option"
  rr_stream :: bool
  rr_format :: "r_format option"
  rr_reasoning :: "effort option"

definition blank_item :: "string \<Rightarrow> r_item" where
  "blank_item t = \<lparr>ri_type = t, ri_role = [], ri_content = [], ri_call_id = [], ri_name = [],
     ri_arguments = [], ri_output = None\<rparr>"

definition r_user_part :: "content_block \<Rightarrow> r_part option" where
  "r_user_part b =
     (case cb_type b of
        BlockText \<Rightarrow> Some \<lparr>rp_type = ''input_text'', rp_text = cb_text b, rp_image_url = []\<rparr>
      | BlockImage \<Rightarrow>
          (case cb_image b of
             None \<Rightarrow> None
           | Some i \<Rightarrow> if image_url_of i = [] then None
               else Some \<lparr>rp_type = ''input_image'', rp_text = [], rp_image_url = image_url_of i\<rparr>)
      | _ \<Rightarrow> None)"

definition r_convert_user :: "message \<Rightarrow> r_item" where
  "r_convert_user m = (blank_item ''message'')\<lparr>ri_role := role_str (msg_role m),
     ri_content := List.map_filter r_user_part (msg_content m)\<rparr>"

definition r_call_of :: "content_block \<Rightarrow> r_item option" where
  "r_call_of b =
     (if cb_type b = BlockToolUse then
        map_option (\<lambda>t. (blank_item ''function_call'')\<lparr>ri_call_id := tu_id t, ri_name := tu_name t,
                          ri_arguments := tu_input t\<rparr>) (cb_tool_use b)
      else None)"

definition r_convert_assistant :: "message \<Rightarrow> r_item list" where
  "r_convert_assistant m =
     (let texts = block_texts (msg_content m) in
      (if texts \<noteq> [] then
         [(blank_item ''message'')\<lparr>ri_role := ''assistant'',
            ri_content := [\<lparr>rp_type = ''output_text'', rp_text = concat texts, rp_image_url = []\<rparr>]\<rparr>]
       else [])
      @ List.map_filter r_call_of (msg_content m))"

definition r_output_of :: "content_block \<Rightarrow> r_item option" where
  "r_output_of b =
     (if cb_type b = BlockToolResult then
        Some ((blank_item ''function_call_output'')\<lparr>ri_call_id := cb_tool_use_id b,
          ri_output := Some (tool_result_content (cb_text b) (cb_is_error b))\<rparr>)
      else None)"

definition r_convert_tool_message :: "message \<Rightarrow> r_item list" where
  "r_convert_tool_message m = List.map_filter r_output_of (msg_content m)"

definition r_convert_message :: "message \<Rightarrow> r_item list" where
  "r_convert_message m =
     (case msg_role m of
        RoleAssistant \<Rightarrow> r_convert_assistant m
      | RoleTool \<Rightarrow> r_convert_tool_message m
      | RoleUser \<Rightarrow>
          (case split_user_tool_results m of
             (results, rest, found) \<Rightarrow>
               if \<not> found then [r_convert_user m]
               else r_convert_tool_message results @ (if msg_content rest \<noteq> [] then [r_convert_user rest] else []))
      | _ \<Rightarrow> [r_convert_user m])"

definition r_input :: "message list \<Rightarrow> r_item list" where
  "r_input ms = concat (map r_convert_message ms)"

definition r_tools_of :: "'x chat_request \<Rightarrow> string \<Rightarrow> r_tool list" where
  "r_tools_of req base_url =
     map (\<lambda>t. \<lparr>rt_type = ''function'', rt_name = tool_name t,
               rt_description = effective_tool_description t (use_compact_descriptions req base_url),
               rt_parameters = tool_schema t\<rparr>) (req_tools req)"

definition r_format_of :: "response_format \<Rightarrow> r_format option" where
  "r_format_of rf =
     (case rf_type rf of
        ResponseFormatJSON \<Rightarrow>
          Some \<lparr>rf_kind = ''json_object'', rf_name = [], rf_json_schema = [], rf_strict = False\<rparr>
      | ResponseFormatJSONSchema \<Rightarrow>
          Some \<lparr>rf_kind = ''json_schema'', rf_name = ''response'', rf_json_schema = rf_schema rf, rf_strict = True\<rparr>
      | _ \<Rightarrow> None)"

definition reject_responses_unsupported :: "'x chat_request \<Rightarrow> go_error option" where
  "reject_responses_unsupported req =
     (case openai_reject_documents req of
        Some e \<Rightarrow> Some e
      | None \<Rightarrow>
          if req_stop req \<noteq> [] then
            Some (provider_err ''openai'' ErrNotSupported
              (''OpenAI Responses API does not accept stop sequences; omit StopSequences when the model or ''
               @ ''configuration routes the call to the Responses API, or set ''
               @ ''openai.Extension{ResponsesAPI: llm.Bool(false)} to force the Chat Completions API''))
          else None)"

subsection \<open>Responses: the response and the stream\<close>

record r_output_item =
  ro_type :: string
  ro_content :: "(string \<times> string) list"
  ro_call_id :: string
  ro_name :: string
  ro_arguments :: string

record r_usage =
  ru_input :: int
  ru_output :: int
  ru_total :: int

record r_response =
  rsp_output :: "r_output_item list"
  rsp_usage :: "r_usage option"
  rsp_incomplete :: "string option"
  rsp_status :: string

definition r_usage_of :: "r_usage \<Rightarrow> token_usage" where
  "r_usage_of u = \<lparr>us_prompt = ru_input u, us_completion = ru_output u, us_total = ru_total u,
     us_cache_creation = 0, us_cache_read = 0\<rparr>"

definition output_text :: "string \<times> string \<Rightarrow> content_block option" where
  "output_text p = (case p of (t, txt) \<Rightarrow>
     if t = ''output_text'' \<and> txt \<noteq> [] then Some (text_block txt) else None)"

definition parse_output_item :: "r_output_item \<Rightarrow> content_block list" where
  "parse_output_item i =
     (if ro_type i = ''message'' then List.map_filter output_text (ro_content i)
      else if ro_type i = ''function_call'' then
        [tool_use_block \<lparr>tu_id = ro_call_id i, tu_name = ro_name i, tu_input = ro_arguments i, tu_signature = []\<rparr>]
      else [])"

definition responses_stop_reason :: "r_response \<Rightarrow> bool \<Rightarrow> stop_reason" where
  "responses_stop_reason r saw_tool_call =
     (if saw_tool_call then StopReasonToolUse
      else if rsp_incomplete r = Some ''max_output_tokens'' then StopReasonMaxTokens
      else if rsp_status r = ''incomplete'' then StopReasonMaxTokens
      else StopReasonEndTurn)"

definition parse_responses_response :: "r_response \<Rightarrow> chat_response" where
  "parse_responses_response r =
     \<lparr>resp_content = concat (map parse_output_item (rsp_output r)),
      resp_stop = responses_stop_reason r (list_ex (\<lambda>i. ro_type i = ''function_call'') (rsp_output r)),
      resp_usage = (case rsp_usage r of Some u \<Rightarrow> r_usage_of u | None \<Rightarrow> zero_usage)\<rparr>"

record r_event =
  rev_type :: string
  rev_delta :: string
  rev_item :: "r_output_item option"
  rev_response :: "r_response option"

definition stream_failed :: go_error where
  "stream_failed = provider_err ''openai'' ErrProviderError ''responses stream reported failure''"

text \<open>One event: the final response so far, the chunks sent, and the error that ends the stream.\<close>

definition r_stream_event ::
  "r_response option \<Rightarrow> r_event \<Rightarrow> r_response option \<times> chunk list \<times> go_error option" where
  "r_stream_event final ev =
     (if rev_type ev = ''response.output_item.added'' then
        (case rev_item ev of
           Some i \<Rightarrow>
             if ro_type i \<noteq> ''function_call'' then (final, [], None)
             else (final, [(blank_chunk ChunkToolUseStart)\<lparr>ck_tool_use :=
                     Some \<lparr>tu_id = ro_call_id i, tu_name = ro_name i, tu_input = [], tu_signature = []\<rparr>\<rparr>], None)
         | None \<Rightarrow> (final, [], None))
      else if rev_type ev = ''response.output_text.delta'' then
        (final, if rev_delta ev = [] then [] else [(blank_chunk ChunkText)\<lparr>ck_text := rev_delta ev\<rparr>], None)
      else if rev_type ev = ''response.function_call_arguments.delta'' then
        (final, if rev_delta ev = [] then [] else [(blank_chunk ChunkToolUseDelta)\<lparr>ck_partial := rev_delta ev\<rparr>], None)
      else if rev_type ev = ''response.completed'' then
        (case rev_response ev of Some r \<Rightarrow> (Some r, [], None) | None \<Rightarrow> (final, [], None))
      else if rev_type ev = ''response.failed'' then (final, [], Some stream_failed)
      else (final, [], None))"

fun r_stream_loop ::
  "(string \<Rightarrow> go_error + r_event) \<Rightarrow> go_error option \<Rightarrow> r_response option \<Rightarrow> string list \<Rightarrow>
     chunk list \<times> go_error option \<times> token_usage list" where
  "r_stream_loop decode scan_err final [] =
     (case scan_err of
        Some e \<Rightarrow> ([], Some (WrapErr ''read responses stream: '' e), [])
      | None \<Rightarrow>
          (let counted = (case final of Some r \<Rightarrow> (case rsp_usage r of Some u \<Rightarrow> [r_usage_of u] | None \<Rightarrow> []) | None \<Rightarrow> []);
               usage = (case counted of u # _ \<Rightarrow> u | [] \<Rightarrow> zero_usage)
           in ([(blank_chunk ChunkDone)\<lparr>ck_usage := Some usage\<rparr>], None, counted)))"
| "r_stream_loop decode scan_err final (d # ds) =
     (if d = [] \<or> d = ''[DONE]'' then r_stream_loop decode scan_err final ds
      else case decode d of
             Inl e \<Rightarrow> ([], Some (WrapErr ''decode stream chunk: '' e), [])
           | Inr ev \<Rightarrow>
               (case r_stream_event final ev of
                  (final', cs, Some e) \<Rightarrow> (cs, Some e, [])
                | (final', cs, None) \<Rightarrow>
                    (let (rest, err, us) = r_stream_loop decode scan_err final' ds in (cs @ rest, err, us))))"

end
