(* ===== verification/OpenAIAdapt.thy ===== *)
theory OpenAIAdapt
  imports ProviderBase SendLoop
begin

text \<open>
  How the OpenAI client adjusts requests to what the model rejects (\<open>llm/provider/openai/adapt.go\<close>)
  and the extra body fields a caller adds (\<open>extrabody.go\<close>). The two mutexes make each access
  to the client's learned state atomic; a call is modelled as running alone.
\<close>

subsection \<open>State\<close>

text \<open>\<open>rejectedEffort\<close> is a set, kept as a list.\<close>

record o_learned =
  ln_max_completion_tokens :: bool
  ln_responses_api :: bool
  ln_drop_temperature :: bool
  ln_drop_temperature_none :: bool
  ln_drop_temperature_reasoning :: bool
  ln_rejected_effort :: "effort list"
  ln_effort_unsupported :: bool

definition nothing_learned :: o_learned where
  "nothing_learned = \<lparr>ln_max_completion_tokens = False, ln_responses_api = False,
     ln_drop_temperature = False, ln_drop_temperature_none = False,
     ln_drop_temperature_reasoning = False, ln_rejected_effort = [], ln_effort_unsupported = False\<rparr>"

record o_client =
  oc_api_key :: string
  oc_model :: string
  oc_base_url :: string
  oc_opts :: "extension client_options"
  oc_usage :: token_usage
  oc_learned :: o_learned
  oc_log :: "(string \<times> string) list"

record rejection =
  rj_status :: int
  rj_body :: bytes
  rj_responses :: bool
  rj_max_tokens :: bool
  rj_temperature :: bool
  rj_tools :: bool
  rj_effort :: effort

text \<open>The error object of a response body; every field is empty when it does not decode.\<close>

record o_error =
  oe_message :: string
  oe_type :: string
  oe_param :: string
  oe_code :: string

definition openai_name :: string where
  "openai_name = ''openai''"

definition openai_max_sends :: nat where
  "openai_max_sends = 4"

definition adjust_max_tokens :: string where "adjust_max_tokens = ''max_tokens''"

definition adjust_temperature :: string where "adjust_temperature = ''temperature''"

definition adjust_endpoint :: string where "adjust_endpoint = ''endpoint''"

definition adjust_effort :: string where "adjust_effort = ''reasoning_effort''"

definition action_effort_all :: string where "action_effort_all = ''omitted at every level''"

definition action_effort_this_call :: string where
  "action_effort_this_call = ''omitted for this request''"

subsection \<open>Temperature\<close>

definition temperature_flag :: "o_learned \<Rightarrow> effort \<Rightarrow> bool" where
  "temperature_flag l e =
     (case e of
        EffortDefault \<Rightarrow> ln_drop_temperature l
      | EffortNone \<Rightarrow> ln_drop_temperature_none l
      | _ \<Rightarrow> ln_drop_temperature_reasoning l)"

definition set_temperature_flag :: "effort \<Rightarrow> o_learned \<Rightarrow> o_learned" where
  "set_temperature_flag e l =
     (case e of
        EffortDefault \<Rightarrow> l\<lparr>ln_drop_temperature := True\<rparr>
      | EffortNone \<Rightarrow> l\<lparr>ln_drop_temperature_none := True\<rparr>
      | _ \<Rightarrow> l\<lparr>ln_drop_temperature_reasoning := True\<rparr>)"

definition omit_temperature :: "o_client \<Rightarrow> effort \<Rightarrow> bool" where
  "omit_temperature c e = temperature_flag (oc_learned c) e"

definition temperature_action :: "effort \<Rightarrow> string" where
  "temperature_action e =
     (case e of
        EffortDefault \<Rightarrow> ''omitted''
      | EffortNone \<Rightarrow> ''omitted at reasoning effort none''
      | _ \<Rightarrow> ''omitted at reasoning effort above none'')"

subsection \<open>Reasoning effort\<close>

definition check_reasoning_effort :: "o_client \<Rightarrow> extension chat_request \<Rightarrow> go_error option" where
  "check_reasoning_effort c req =
     (case effective_effort req (opt_effort (oc_opts c)) of
        Inl pe \<Rightarrow> Some (ProviderErr (pe\<lparr>pe_provider := openai_name\<rparr>))
      | Inr _ \<Rightarrow> None)"

definition effort_order :: "effort list" where
  "effort_order = [EffortNone, EffortMinimal, EffortLow, EffortMedium, EffortHigh, EffortXHigh, EffortMax]"

text \<open>
  The loop of \<open>towardsMedium\<close>, from index \<open>i\<close> on, with the rest of the order still to visit.
\<close>

fun towards_medium_from :: "nat \<Rightarrow> effort list \<Rightarrow> effort \<Rightarrow> effort" where
  "towards_medium_from i [] e = EffortDefault"
| "towards_medium_from i (x # xs) e =
     (if x \<noteq> e then towards_medium_from (Suc i) xs e
      else if i < 3 then effort_order ! (i + 1)
      else if i > 3 then effort_order ! (i - 1)
      else towards_medium_from (Suc i) xs e)"

definition towards_medium :: "effort \<Rightarrow> effort" where
  "towards_medium e = towards_medium_from 0 effort_order e"

lemma towards_medium_simps [simp]:
  "towards_medium EffortNone = EffortMinimal" "towards_medium EffortMinimal = EffortLow"
  "towards_medium EffortLow = EffortMedium" "towards_medium EffortMedium = EffortDefault"
  "towards_medium EffortHigh = EffortMedium" "towards_medium EffortXHigh = EffortHigh"
  "towards_medium EffortMax = EffortXHigh" "towards_medium EffortDefault = EffortDefault"
  "towards_medium (EffortOther s) = EffortDefault"
  by (simp_all add: towards_medium_def effort_order_def)

text \<open>How many steps a level is from giving up.\<close>

fun medium_distance :: "effort \<Rightarrow> nat" where
  "medium_distance EffortDefault = 0"
| "medium_distance EffortMedium = 1"
| "medium_distance EffortLow = 2"
| "medium_distance EffortHigh = 2"
| "medium_distance EffortMinimal = 3"
| "medium_distance EffortXHigh = 3"
| "medium_distance _ = 4"

lemma towards_medium_closer: "e \<noteq> EffortDefault \<Longrightarrow> medium_distance (towards_medium e) < medium_distance e"
  by (cases e) simp_all

text \<open>The loop of \<open>reasoningEffort\<close>.\<close>

function step_effort :: "effort list \<Rightarrow> effort \<Rightarrow> effort" where
  "step_effort rejected e =
     (if e \<noteq> EffortDefault \<and> e \<in> set rejected then step_effort rejected (towards_medium e) else e)"
  by pat_completeness auto
termination
  by (relation "measure (\<lambda>(rejected, e). medium_distance e)") (auto simp: towards_medium_closer)

declare step_effort.simps [simp del]

definition reasoning_effort :: "o_client \<Rightarrow> extension chat_request \<Rightarrow> bool \<Rightarrow> effort" where
  "reasoning_effort c req omit =
     (case effective_effort req (opt_effort (oc_opts c)) of
        Inl _ \<Rightarrow> EffortDefault
      | Inr e \<Rightarrow>
          if omit \<or> e = EffortDefault then EffortDefault
          else if ln_effort_unsupported (oc_learned c) then EffortDefault
          else step_effort (ln_rejected_effort (oc_learned c)) e)"

subsection \<open>Routing\<close>

definition forced_route :: "o_client \<Rightarrow> bool option" where
  "forced_route c =
     (case openai_ext (opt_extensions (oc_opts c)) of
        Some x \<Rightarrow> ox_responses_api x
      | None \<Rightarrow> None)"

definition use_responses_api :: "o_client \<Rightarrow> bool" where
  "use_responses_api c =
     (case forced_route c of Some b \<Rightarrow> b | None \<Rightarrow> ln_responses_api (oc_learned c))"

subsection \<open>Classifying a rejection\<close>

definition rejects_max_tokens :: "rejection \<Rightarrow> string \<Rightarrow> string \<Rightarrow> bool" where
  "rejects_max_tokens rej param code =
     (rj_status rej = 400 \<and> rj_max_tokens rej \<and> param = ''max_tokens'' \<and> code = ''unsupported_parameter'')"

definition rejects_temperature_param :: "rejection \<Rightarrow> string \<Rightarrow> string \<Rightarrow> bool" where
  "rejects_temperature_param rej param code =
     (if rj_status rej \<noteq> 400 \<or> \<not> rj_temperature rej \<or> param \<noteq> ''temperature'' then False
      else code = ''unsupported_value'' \<or> code = ''unsupported_parameter'')"

definition rejects_reasoning_effort :: "rejection \<Rightarrow> string \<Rightarrow> string \<Rightarrow> bool" where
  "rejects_reasoning_effort rej param msg =
     (if rj_status rej \<noteq> 400 \<or> rj_effort rej = EffortDefault then False
      else if param = ''reasoning_effort'' \<or> param = ''reasoning.effort'' \<or> param = ''reasoning'' then True
      else if param = [] then contains msg ''reasoning_effort'' \<or> contains msg ''reasoning.effort''
      else False)"

definition requires_responses_api :: "o_client \<Rightarrow> rejection \<Rightarrow> string \<Rightarrow> string \<Rightarrow> bool" where
  "requires_responses_api c rej param msg =
     (if rj_responses rej \<or> param \<noteq> [] \<or> (rj_status rej \<noteq> 400 \<and> rj_status rej \<noteq> 404) then False
      else forced_route c = None \<and> contains msg ''only supported in v1/responses'')"

text \<open>The adjustment and the action to log, both empty when there is none.\<close>

definition classify :: "(bytes \<Rightarrow> o_error) \<Rightarrow> o_client \<Rightarrow> rejection \<Rightarrow> string \<times> string" where
  "classify unmarshal c rej =
     (let e = unmarshal (rj_body rej) in
      if rejects_max_tokens rej (oe_param e) (oe_code e) then
        (adjust_max_tokens, ''sent as max_completion_tokens'')
      else if rejects_temperature_param rej (oe_param e) (oe_code e) then
        (adjust_temperature, temperature_action (rj_effort rej))
      else if rejects_reasoning_effort rej (oe_param e) (oe_message e) then
        (if oe_param e = [] \<and> rj_tools rej then (adjust_effort, action_effort_this_call)
         else if oe_code e = ''unsupported_value'' then (adjust_effort, ''omitted '' @ effort_str (rj_effort rej))
         else if oe_code e = ''unsupported_parameter'' \<or> oe_code e = ''unknown_parameter'' then
           (adjust_effort, action_effort_all)
         else ([], []))
      else if requires_responses_api c rej (oe_param e) (oe_message e) then
        (adjust_endpoint, ''routed to /v1/responses'')
      else ([], []))"

subsection \<open>Learning\<close>

definition log_openai :: "string \<Rightarrow> string \<Rightarrow> o_client \<Rightarrow> o_client" where
  "log_openai param action c = c\<lparr>oc_log := oc_log c @ [(param, action)]\<rparr>"

definition learn_effort :: "string \<Rightarrow> rejection \<Rightarrow> o_client \<Rightarrow> o_client" where
  "learn_effort action rej c =
     (let l = oc_learned c;
          first = (if action = action_effort_all then \<not> ln_effort_unsupported l
                   else rj_effort rej \<notin> set (ln_rejected_effort l));
          l' = (if action = action_effort_all then l\<lparr>ln_effort_unsupported := True\<rparr>
                else l\<lparr>ln_rejected_effort := List.insert (rj_effort rej) (ln_rejected_effort l)\<rparr>);
          c' = c\<lparr>oc_learned := l'\<rparr>
      in if first then log_openai adjust_effort action c' else c')"

text \<open>
  \<open>learn\<close>. The code dereferences a nil flag for any other parameter; \<open>classify\<close> gives none.
\<close>

definition openai_learn :: "string \<Rightarrow> string \<Rightarrow> rejection \<Rightarrow> o_client \<Rightarrow> o_client" where
  "openai_learn param action rej c =
     (if param = adjust_effort then learn_effort action rej c
      else
       (let l = oc_learned c;
            (was, l') =
              (if param = adjust_max_tokens then (ln_max_completion_tokens l, l\<lparr>ln_max_completion_tokens := True\<rparr>)
               else if param = adjust_temperature then
                 (temperature_flag l (rj_effort rej), set_temperature_flag (rj_effort rej) l)
               else (ln_responses_api l, l\<lparr>ln_responses_api := True\<rparr>));
            c' = c\<lparr>oc_learned := l'\<rparr>
        in if \<not> was then log_openai param action c' else c'))"

subsection \<open>Errors\<close>

definition openai_sentinel :: "int \<Rightarrow> sentinel" where
  "openai_sentinel status =
     (if status = 401 \<or> status = 403 then ErrAuthentication
      else if status = 429 then ErrRateLimit
      else if status = 400 \<or> status = 422 then ErrInvalidRequest
      else ErrProviderError)"

definition openai_map_error :: "(bytes \<Rightarrow> o_error) \<Rightarrow> o_client \<Rightarrow> int \<Rightarrow> bytes \<Rightarrow> go_error" where
  "openai_map_error unmarshal c status body =
     http_error openai_sentinel openai_name [oc_api_key c] (oe_message (unmarshal body)) status"

definition openai_decode_error :: "int \<Rightarrow> go_error \<Rightarrow> go_error" where
  "openai_decode_error status e = decode_failure openai_name status e"

subsection \<open>Extra body fields\<close>

definition put_fields :: "('k \<times> 'v) list \<Rightarrow> ('k \<times> 'v) list \<Rightarrow> ('k \<times> 'v) list" where
  "put_fields fs m = foldl (\<lambda>m (k, v). map_put k v m) m fs"

text \<open>\<open>extraBody\<close>, an empty map standing for nil.\<close>

definition extra_body :: "o_client \<Rightarrow> extension chat_request \<Rightarrow> extra_fields" where
  "extra_body c req =
     (let ext = (\<lambda>es. case openai_ext es of Some x \<Rightarrow> ox_extra_body x | None \<Rightarrow> [])
      in put_fields (ext (req_extensions req))
           (put_fields (ext (opt_extensions (oc_opts c)))
              (put_fields (opt_extra_body (oc_opts c)) [])))"

fun unencodable :: "extra_fields \<Rightarrow> (string \<times> go_error) option" where
  "unencodable [] = None"
| "unencodable ((k, Inl e) # fs) = Some (k, e)"
| "unencodable ((k, Inr v) # fs) = unencodable fs"

definition check_extra_body :: "extra_fields \<Rightarrow> go_error option" where
  "check_extra_body extra =
     (if map_of extra ''stream'' \<noteq> None then
        Some (provider_err openai_name ErrInvalidRequest
          (''extra body field '' @ go_quote ''stream'' @ '' is not allowed: use Chat or ChatStream to choose streaming''))
      else case unencodable extra of
             Some (k, e) \<Rightarrow>
               Some (provider_err openai_name ErrInvalidRequest
                 (''extra body field '' @ go_quote k @ '': '' @ error_text e))
           | None \<Rightarrow> None)"

text \<open>
  The body of a request: the struct itself, or the top-level fields of its encoding with the
  extra ones set. \<open>encode\<close> is \<open>json.Marshal\<close> followed by \<open>Unmarshal\<close> into the fields.
\<close>

datatype 'b wire = PlainBody 'b | MergedBody "(string \<times> bytes) list"

fun merge_fields :: "extra_fields \<Rightarrow> (string \<times> bytes) list \<Rightarrow> go_error + (string \<times> bytes) list" where
  "merge_fields [] m = Inr m"
| "merge_fields ((k, Inl e) # fs) m = Inl (WrapErr (''extra body field '' @ go_quote k @ '': '') e)"
| "merge_fields ((k, Inr v) # fs) m = merge_fields fs (map_put k v m)"

definition with_extra_body ::
  "('b \<Rightarrow> go_error + (string \<times> bytes) list) \<Rightarrow> 'b \<Rightarrow> extra_fields \<Rightarrow> go_error + 'b wire" where
  "with_extra_body encode body extra =
     (if extra = [] then Inr (PlainBody body)
      else case encode body of
             Inl e \<Rightarrow> Inl e
           | Inr fs \<Rightarrow> map_sum id MergedBody (merge_fields extra fs))"

definition quotes_field :: "string \<Rightarrow> string \<Rightarrow> bool" where
  "quotes_field msg field =
     (field \<noteq> [] \<and> list_ex (\<lambda>e. contains msg ([CHR 0x27] @ field @ e)) [[CHR 0x27], ''.'', ''[''])"

definition names_extra_field :: "(bytes \<Rightarrow> o_error) \<Rightarrow> bytes \<Rightarrow> extra_fields \<Rightarrow> bool" where
  "names_extra_field unmarshal body extra =
     (let e = unmarshal body; param = oe_param e; msg = oe_message e
      in list_ex (\<lambda>(k, v).
           if param = [] then quotes_field msg k
           else param = k \<or> has_prefix param (k @ ''.'') \<or> has_prefix param (k @ ''['')) extra)"

subsection \<open>\<open>sendWithAdjustments\<close>\<close>

text \<open>
  \<open>send\<close> makes one request, to \<open>/responses\<close> or not and with reasoning effort or not: a final
  result, or the rejection to act on. The call keeps the adjustments applied (their keys) and
  how it treats effort; \<open>om_sent\<close> is the routes and efforts flags it has sent with.
\<close>

datatype 't o_outcome = Final "go_error + 't" | Rejected rejection

type_synonym ('t, 'w) o_send = "bool \<Rightarrow> bool \<Rightarrow> o_client \<Rightarrow> 'w \<Rightarrow> 't o_outcome \<times> o_client \<times> 'w"

record 'w o_call =
  om_client :: o_client
  om_applied :: "string list"
  om_omit :: bool
  om_stepped :: bool
  om_sent :: "(bool \<times> bool) list"
  om_world :: 'w

definition send_pass ::
  "(bytes \<Rightarrow> o_error) \<Rightarrow> extra_fields \<Rightarrow> ('t, 'w) o_send \<Rightarrow> nat \<Rightarrow> 'w o_call \<Rightarrow>
     ((go_error + 't) \<times> 'w o_call) + 'w o_call" where
  "send_pass unmarshal extra send sends s =
     (let responses = use_responses_api (om_client s);
          (out, c, w) = send responses (om_omit s) (om_client s) (om_world s);
          s1 = s\<lparr>om_client := c, om_world := w, om_sent := om_sent s @ [(responses, om_omit s)]\<rparr>
      in case out of
           Final r \<Rightarrow> Inl (r, s1)
         | Rejected rej \<Rightarrow>
             let failure = (Inl (openai_map_error unmarshal c (rj_status rej) (rj_body rej)) :: go_error + 't) in
             if names_extra_field unmarshal (rj_body rej) extra then Inl (failure, s1)
             else
              (let (param, action) = classify unmarshal c rej; key = param @ ''/'' @ action
               in if param = [] \<or> key \<in> set (om_applied s) then Inl (failure, s1)
                  else
                   (let level = (param = adjust_effort \<and> action \<noteq> action_effort_all
                                 \<and> action \<noteq> action_effort_this_call);
                        s2 = s1\<lparr>om_applied := key # om_applied s,
                               om_omit := (if level then om_omit s \<or> om_stepped s else om_omit s),
                               om_stepped := om_stepped s \<or> level\<rparr>;
                        s3 = (if action = action_effort_this_call
                              then s2\<lparr>om_omit := True, om_client := log_openai param action c\<rparr>
                              else s2\<lparr>om_client := openai_learn param action rej c\<rparr>)
                    in if sends = openai_max_sends then Inl (failure, s3) else Inr s3)))"

partial_function (option) send_loop_from ::
  "(bytes \<Rightarrow> o_error) \<Rightarrow> extra_fields \<Rightarrow> ('t, 'w) o_send \<Rightarrow> nat \<Rightarrow> 'w o_call \<Rightarrow>
     ((go_error + 't) \<times> 'w o_call) option" where
  "send_loop_from unmarshal extra send sends s =
     (case send_pass unmarshal extra send sends s of
        Inl r \<Rightarrow> Some r
      | Inr s' \<Rightarrow> send_loop_from unmarshal extra send (Suc sends) s')"

definition send_with_adjustments ::
  "(bytes \<Rightarrow> o_error) \<Rightarrow> extra_fields \<Rightarrow> ('t, 'w) o_send \<Rightarrow> o_client \<Rightarrow> 'w \<Rightarrow>
     ((go_error + 't) \<times> 'w o_call) option" where
  "send_with_adjustments unmarshal extra send c w =
     send_loop_from unmarshal extra send 1
       \<lparr>om_client = c, om_applied = [], om_omit = False, om_stepped = False, om_sent = [], om_world = w\<rparr>"

lemma send_pass_again:
  "send_pass unmarshal extra send n s = Inr s' \<Longrightarrow>
    n \<noteq> openai_max_sends \<and> length (om_sent s') = Suc (length (om_sent s))"
  by (auto simp: send_pass_def Let_def split: prod.splits o_outcome.splits if_splits)

lemma send_pass_finish:
  "send_pass unmarshal extra send n s = Inl r \<Longrightarrow> length (om_sent (snd r)) = Suc (length (om_sent s))"
  by (auto simp: send_pass_def Let_def split: prod.splits o_outcome.splits if_splits)

interpretation oai: send_loop "send_pass unmarshal extra send" "send_loop_from unmarshal extra send"
    openai_max_sends "\<lambda>s. length (om_sent s)" "\<lambda>r. length (om_sent (snd r))"
  for unmarshal extra send
proof unfold_locales
  fix n s s' r
  show "send_loop_from unmarshal extra send n s =
      (case send_pass unmarshal extra send n s of
         Inl r \<Rightarrow> Some r | Inr s' \<Rightarrow> send_loop_from unmarshal extra send (Suc n) s')"
    by (rule send_loop_from.simps)
  show "n \<le> openai_max_sends \<Longrightarrow> send_pass unmarshal extra send n s = Inr s' \<Longrightarrow>
      n < openai_max_sends \<and> length (om_sent s') = Suc (length (om_sent s))"
    using send_pass_again by fastforce
  show "send_pass unmarshal extra send n s = Inl r \<Longrightarrow> length (om_sent (snd r)) \<le> Suc (length (om_sent s))"
    by (simp add: send_pass_finish)
qed

end
