(* ===== verification/Requests.thy ===== *)
theory Requests
  imports LlmTypes
begin

text \<open>
  The requests other than chat and decisions (\<open>types.go\<close>): multimodal embeddings and reranking.
\<close>

datatype multimodal_type = MultimodalText | MultimodalImageURL | MultimodalImageData | MultimodalOther string

record multimodal_content =
  mc_type :: multimodal_type
  mc_text :: string
  mc_image_url :: string
  mc_image_data :: bytes
  mc_mime_type :: string

type_synonym multimodal_input = "multimodal_content list"

record 'x multimodal_request =
  mm_inputs :: "multimodal_input list"
  mm_extensions :: "'x list"

record 'x rerank_request =
  rk_query :: string
  rk_documents :: "string list"
  rk_top_k :: "int option"
  rk_extensions :: "'x list"

record rerank_result =
  rk_index :: int
  rk_score :: f64
  rk_document :: string

record rerank_response =
  rk_results :: "rerank_result list"
  rk_usage :: token_usage

type_synonym vec = "f64 list"

text \<open>The first input of a batch that has no vector, a nil slice being the empty one.\<close>

fun first_empty :: "nat \<Rightarrow> vec list \<Rightarrow> nat option" where
  "first_empty i [] = None"
| "first_empty i (v # vs) = (if v = [] then Some i else first_empty (Suc i) vs)"

lemma first_empty_None: "first_empty i vs = None \<longleftrightarrow> [] \<notin> set vs"
  by (induction vs arbitrary: i) auto

end
