(* ===== verification/OpenAIChat.thy ===== *)
theory OpenAIChat
  imports OpenAIWire OpenAIAdapt Requests
begin

text \<open>
  The OpenAI client (\<open>openai.go\<close>, \<open>responses.go\<close>): building a request for either endpoint from
  what the client has learned, \<open>Chat\<close>, \<open>ChatStream\<close>, embeddings and model listing.
\<close>

subsection \<open>The client\<close>

definition openai_new ::
  "(string \<Rightarrow> bytes option) \<Rightarrow> (string \<Rightarrow> go_error) \<Rightarrow> base_client option \<Rightarrow> extension client_options \<Rightarrow>
     go_error + o_client \<times> http_client" where
  "openai_new read_file parse_err base opts0 =
     map_sum id (\<lambda>su. (\<lparr>oc_api_key = opt_api_key (su_opts su), oc_model = opt_model (su_opts su),
                       oc_base_url = su_base_url su, oc_opts = su_opts su, oc_usage = zero_usage,
                       oc_learned = nothing_learned, oc_log = []\<rparr>, su_http su))
       (provider_new read_file parse_err openai_name ''https://api.openai.com/v1'' base opts0)"

definition openai_add_usage :: "o_client \<Rightarrow> token_usage \<Rightarrow> o_client" where
  "openai_add_usage c u = c\<lparr>oc_usage := usage_add (oc_usage c) u\<rparr>"

definition openai_reset_usage :: "o_client \<Rightarrow> o_client" where
  "openai_reset_usage c = c\<lparr>oc_usage := zero_usage\<rparr>"

definition openai_headers :: "o_client \<Rightarrow> headers" where
  "openai_headers c =
     (''Content-Type'', ''application/json'')
       # (if oc_api_key c \<noteq> [] then [(''Authorization'', ''Bearer '' @ oc_api_key c)] else [])"

subsection \<open>Building requests\<close>

definition chosen_max_tokens :: "o_client \<Rightarrow> extension chat_request \<Rightarrow> int option" where
  "chosen_max_tokens c req =
     (if req_max_tokens req \<noteq> None then req_max_tokens req else opt_max_tokens (oc_opts c))"

definition chosen_temperature :: "o_client \<Rightarrow> extension chat_request \<Rightarrow> effort \<Rightarrow> f64 option" where
  "chosen_temperature c req e =
     (if omit_temperature c e then None
      else if req_temperature req \<noteq> None then req_temperature req
      else opt_temperature (oc_opts c))"

definition o_build_request :: "o_client \<Rightarrow> extension chat_request \<Rightarrow> bool \<Rightarrow> bool \<Rightarrow> o_request" where
  "o_build_request c req stream omit =
     (let e = reasoning_effort c req omit; mt = chosen_max_tokens c req;
          completion = ln_max_completion_tokens (oc_learned c) in
      \<lparr>or_model = oc_model c, or_messages = o_convert_messages req,
       or_max_tokens = (if completion then None else mt),
       or_max_completion_tokens = (if completion then mt else None),
       or_temperature = chosen_temperature c req e,
       or_tools = o_tools_of req (oc_base_url c),
       or_tool_choice = Option.bind (req_tool_choice req) o_tool_choice_of,
       or_stop = req_stop req, or_stream = stream,
       or_include_usage = (if stream then Some True else None),
       or_format = Option.bind (req_format req) o_format_of, or_effort = e\<rparr>)"

definition o_rejection :: "o_request \<Rightarrow> int \<Rightarrow> bytes \<Rightarrow> rejection" where
  "o_rejection r status body = \<lparr>rj_status = status, rj_body = body, rj_responses = False,
     rj_max_tokens = (or_max_tokens r \<noteq> None), rj_temperature = (or_temperature r \<noteq> None),
     rj_tools = (or_tools r \<noteq> []), rj_effort = or_effort r\<rparr>"

definition r_build_request :: "o_client \<Rightarrow> extension chat_request \<Rightarrow> bool \<Rightarrow> bool \<Rightarrow> r_request" where
  "r_build_request c req stream omit =
     (let e = reasoning_effort c req omit in
      \<lparr>rr_model = oc_model c, rr_input = r_input (req_messages req), rr_instructions = req_system req,
       rr_max_output_tokens = chosen_max_tokens c req,
       rr_temperature = chosen_temperature c req e,
       rr_tools = r_tools_of req (oc_base_url c),
       rr_tool_choice = Option.bind (req_tool_choice req) o_tool_choice_of,
       rr_stream = stream, rr_format = Option.bind (req_format req) r_format_of,
       rr_reasoning = (if e \<noteq> EffortDefault then Some e else None)\<rparr>)"

definition r_effort :: "r_request \<Rightarrow> effort" where
  "r_effort r = (case rr_reasoning r of None \<Rightarrow> EffortDefault | Some e \<Rightarrow> e)"

definition r_rejection :: "r_request \<Rightarrow> int \<Rightarrow> bytes \<Rightarrow> rejection" where
  "r_rejection r status body = \<lparr>rj_status = status, rj_body = body, rj_responses = True,
     rj_max_tokens = False, rj_temperature = (rr_temperature r \<noteq> None),
     rj_tools = (rr_tools r \<noteq> []), rj_effort = r_effort r\<rparr>"

subsection \<open>\<open>Chat\<close> and \<open>ChatStream\<close>\<close>

text \<open>
  The client's environment: JSON encoding of the two bodies and decoding of an error, and the
  four calls, \<open>DoJSON\<close> with the struct it decoded and \<open>DoSSERequest\<close> with the error body it read.
\<close>

record 'w o_api =
  oa_unmarshal :: "bytes \<Rightarrow> o_error"
  oa_encode :: "o_request \<Rightarrow> go_error + (string \<times> bytes) list"
  oa_encode_responses :: "r_request \<Rightarrow> go_error + (string \<times> bytes) list"
  oa_post :: "o_request wire \<Rightarrow> 'w \<Rightarrow> (json_result \<times> o_response) \<times> 'w"
  oa_post_responses :: "r_request wire \<Rightarrow> 'w \<Rightarrow> (json_result \<times> r_response) \<times> 'w"
  oa_open :: "o_request wire \<Rightarrow> 'w \<Rightarrow> (go_error + int \<times> bytes) \<times> 'w"
  oa_open_responses :: "r_request wire \<Rightarrow> 'w \<Rightarrow> (go_error + int \<times> bytes) \<times> 'w"

text \<open>What a call does with the outcome of \<open>DoJSON\<close>, on either endpoint.\<close>

definition finish_send ::
  "(int \<Rightarrow> bytes \<Rightarrow> rejection) \<Rightarrow> json_result \<Rightarrow> chat_response \<Rightarrow> o_client \<Rightarrow>
     chat_response o_outcome \<times> o_client" where
  "finish_send reject jr resp c =
     (case (if jr_status jr = 0 then jr_err jr else None) of
        Some e \<Rightarrow> (Final (Inl e), c)
      | None \<Rightarrow>
          if jr_status jr < 200 \<or> 300 \<le> jr_status jr then
            (Rejected (reject (jr_status jr) (case jr_body jr of None \<Rightarrow> [] | Some b \<Rightarrow> b)), c)
          else (case jr_err jr of
                  Some e \<Rightarrow> (Final (Inl (openai_decode_error (jr_status jr) e)), c)
                | None \<Rightarrow> (Final (Inr resp), openai_add_usage c (resp_usage resp))))"

definition chat_completions ::
  "'w o_api \<Rightarrow> extension chat_request \<Rightarrow> extra_fields \<Rightarrow> bool \<Rightarrow> o_client \<Rightarrow> 'w \<Rightarrow>
     chat_response o_outcome \<times> o_client \<times> 'w" where
  "chat_completions A req extra omit c w =
     (case openai_reject_documents req of
        Some e \<Rightarrow> (Final (Inl e), c, w)
      | None \<Rightarrow>
          (let r = o_build_request c req False omit
           in case with_extra_body (oa_encode A) r extra of
                Inl e \<Rightarrow> (Final (Inl e), c, w)
              | Inr body \<Rightarrow>
                  (let ((jr, dec), w') = oa_post A body w;
                       (out, c') = finish_send (o_rejection r) jr (o_parse_response dec) c
                   in (out, c', w'))))"

definition chat_responses ::
  "'w o_api \<Rightarrow> extension chat_request \<Rightarrow> extra_fields \<Rightarrow> bool \<Rightarrow> o_client \<Rightarrow> 'w \<Rightarrow>
     chat_response o_outcome \<times> o_client \<times> 'w" where
  "chat_responses A req extra omit c w =
     (case reject_responses_unsupported req of
        Some e \<Rightarrow> (Final (Inl e), c, w)
      | None \<Rightarrow>
          (let r = r_build_request c req False omit
           in case with_extra_body (oa_encode_responses A) r extra of
                Inl e \<Rightarrow> (Final (Inl e), c, w)
              | Inr body \<Rightarrow>
                  (let ((jr, dec), w') = oa_post_responses A body w;
                       (out, c') = finish_send (r_rejection r) jr (parse_responses_response dec) c
                   in (out, c', w'))))"

definition openai_send :: "'w o_api \<Rightarrow> extension chat_request \<Rightarrow> extra_fields \<Rightarrow> (chat_response, 'w) o_send" where
  "openai_send A req extra = (\<lambda>responses omit c w.
     if responses then chat_responses A req extra omit c w else chat_completions A req extra omit c w)"

text \<open>A call fails before anything is sent, or returns what the loop does.\<close>

definition openai_call ::
  "'w o_api \<Rightarrow> extension chat_request \<Rightarrow> (extra_fields \<Rightarrow> ('t, 'w) o_send) \<Rightarrow> o_client \<Rightarrow> 'w \<Rightarrow>
     ((go_error + 't) \<times> (bool \<times> bool) list \<times> o_client \<times> 'w) option" where
  "openai_call A req send c w =
     (case check_reasoning_effort c req of
        Some e \<Rightarrow> Some (Inl e, [], c, w)
      | None \<Rightarrow>
          (let extra = extra_body c req
           in case check_extra_body extra of
                Some e \<Rightarrow> Some (Inl e, [], c, w)
              | None \<Rightarrow> map_option (\<lambda>(r, s). (r, om_sent s, om_client s, om_world s))
                  (send_with_adjustments (oa_unmarshal A) extra (send extra) c w)))"

definition openai_chat ::
  "'w o_api \<Rightarrow> extension chat_request \<Rightarrow> o_client \<Rightarrow> 'w \<Rightarrow>
     ((go_error + chat_response) \<times> (bool \<times> bool) list \<times> o_client \<times> 'w) option" where
  "openai_chat A req c w = openai_call A req (openai_send A req) c w"

text \<open>An opened stream is read as its endpoint's events.\<close>

datatype o_stream = CompletionsStream | ResponsesStream

definition finish_open ::
  "(int \<Rightarrow> bytes \<Rightarrow> rejection) \<Rightarrow> o_stream \<Rightarrow> go_error + int \<times> bytes \<Rightarrow> o_stream o_outcome" where
  "finish_open reject stream res =
     (case res of
        Inl e \<Rightarrow> Final (Inl e)
      | Inr (status, body) \<Rightarrow>
          if status < 200 \<or> 300 \<le> status then Rejected (reject status body) else Final (Inr stream))"

definition chat_stream_completions ::
  "'w o_api \<Rightarrow> extension chat_request \<Rightarrow> extra_fields \<Rightarrow> bool \<Rightarrow> o_client \<Rightarrow> 'w \<Rightarrow>
     o_stream o_outcome \<times> o_client \<times> 'w" where
  "chat_stream_completions A req extra omit c w =
     (case openai_reject_documents req of
        Some e \<Rightarrow> (Final (Inl e), c, w)
      | None \<Rightarrow>
          (let r = o_build_request c req True omit
           in case with_extra_body (oa_encode A) r extra of
                Inl e \<Rightarrow> (Final (Inl e), c, w)
              | Inr body \<Rightarrow>
                  (let (res, w') = oa_open A body w
                   in (finish_open (o_rejection r) CompletionsStream res, c, w'))))"

definition chat_stream_responses ::
  "'w o_api \<Rightarrow> extension chat_request \<Rightarrow> extra_fields \<Rightarrow> bool \<Rightarrow> o_client \<Rightarrow> 'w \<Rightarrow>
     o_stream o_outcome \<times> o_client \<times> 'w" where
  "chat_stream_responses A req extra omit c w =
     (case reject_responses_unsupported req of
        Some e \<Rightarrow> (Final (Inl e), c, w)
      | None \<Rightarrow>
          (let r = r_build_request c req True omit
           in case with_extra_body (oa_encode_responses A) r extra of
                Inl e \<Rightarrow> (Final (Inl e), c, w)
              | Inr body \<Rightarrow>
                  (let (res, w') = oa_open_responses A body w
                   in (finish_open (r_rejection r) ResponsesStream res, c, w'))))"

definition openai_open :: "'w o_api \<Rightarrow> extension chat_request \<Rightarrow> extra_fields \<Rightarrow> (o_stream, 'w) o_send" where
  "openai_open A req extra = (\<lambda>responses omit c w.
     if responses then chat_stream_responses A req extra omit c w
     else chat_stream_completions A req extra omit c w)"

definition openai_chat_stream ::
  "'w o_api \<Rightarrow> extension chat_request \<Rightarrow> o_client \<Rightarrow> 'w \<Rightarrow>
     ((go_error + o_stream) \<times> (bool \<times> bool) list \<times> o_client \<times> 'w) option" where
  "openai_chat_stream A req c w = openai_call A req (openai_open A req) c w"

subsection \<open>Embeddings\<close>


text \<open>
  The request's model, input and dimensions; a decoded response is its vectors with their
  indexes, and its usage.
\<close>

record o_embed_request =
  oer_model :: string
  oer_input :: "string list"
  oer_single :: bool
  oer_dimensions :: int

definition openai_embed_request :: "o_client \<Rightarrow> string list \<Rightarrow> bool \<Rightarrow> o_embed_request" where
  "openai_embed_request c texts single =
     \<lparr>oer_model = oc_model c, oer_input = texts, oer_single = single,
      oer_dimensions = (case openai_ext (opt_extensions (oc_opts c)) of
         Some x \<Rightarrow> ox_embedding_dimensions x | None \<Rightarrow> 0)\<rparr>"

definition embed_usage :: "o_usage \<Rightarrow> token_usage" where
  "embed_usage u = zero_usage\<lparr>us_prompt := ou_prompt u, us_total := ou_total u\<rparr>"

definition openai_embed ::
  "(bytes \<Rightarrow> o_error) \<Rightarrow> o_client \<Rightarrow> json_result \<Rightarrow> (vec \<times> int) list \<times> o_usage \<Rightarrow>
     (go_error + vec) \<times> o_client" where
  "openai_embed unmarshal c jr resp =
     (case check_status (openai_map_error unmarshal c) openai_decode_error jr of
        Some e \<Rightarrow> (Inl e, c)
      | None \<Rightarrow>
          (case fst resp of
             [] \<Rightarrow> (Inl (provider_err openai_name ErrProviderError ''no embedding data returned''), c)
           | (v, i) # _ \<Rightarrow> (Inr v, openai_add_usage c (embed_usage (snd resp)))))"

text \<open>
  \<open>EmbedBatch\<close> places every vector at its index; \<open>None\<close> for an input the response has no vector
  for. An index past the end is ignored; a negative one is a panic, the outer \<open>None\<close>.
\<close>

fun place_vectors :: "vec option list \<Rightarrow> (vec \<times> int) list \<Rightarrow> vec option list option" where
  "place_vectors result [] = Some result"
| "place_vectors result ((v, i) # ds) =
     (if i < int (length result) then
        (if i < 0 then None else place_vectors (result[nat i := Some v]) ds)
      else place_vectors result ds)"

definition openai_embed_batch ::
  "(bytes \<Rightarrow> o_error) \<Rightarrow> o_client \<Rightarrow> string list \<Rightarrow> json_result \<Rightarrow> (vec \<times> int) list \<times> o_usage \<Rightarrow>
     ((go_error + vec option list) \<times> o_client) option" where
  "openai_embed_batch unmarshal c texts jr resp =
     (case check_status (openai_map_error unmarshal c) openai_decode_error jr of
        Some e \<Rightarrow> Some (Inl e, c)
      | None \<Rightarrow>
          map_option (\<lambda>r. (Inr r, openai_add_usage c (embed_usage (snd resp))))
            (place_vectors (replicate (length texts) None) (fst resp)))"

definition openai_rerank :: go_error where
  "openai_rerank = provider_err ''openai'' ErrNotSupported ''OpenAI does not support reranking''"

definition openai_embed_multimodal :: go_error where
  "openai_embed_multimodal =
     provider_err ''openai'' ErrNotSupported ''OpenAI does not support multimodal embeddings''"

subsection \<open>Listing models\<close>

definition openai_embedding_dimensions :: "(string \<times> int) list" where
  "openai_embedding_dimensions =
     [(''text-embedding-3-small'', 1536), (''text-embedding-3-large'', 3072), (''text-embedding-ada-002'', 1536)]"

definition filter_prefixes :: "string list" where
  "filter_prefixes = [''text-embedding'', ''embedding'', ''tts'', ''whisper'', ''dall-e'', ''davinci'',
     ''babbage'', ''text-moderation'', ''text-search'', ''text-similarity'', ''code-search'']"

definition should_filter_model :: "string \<Rightarrow> bool" where
  "should_filter_model i = list_ex (has_prefix (to_lower i)) filter_prefixes"

definition openai_model_capabilities :: "(string \<times> capability list) list" where
  "openai_model_capabilities =
     [(''gpt-4o'', [CapChat, CapTools, CapVision, CapJSONMode, CapStreaming]),
      (''gpt-4o-mini'', [CapChat, CapTools, CapVision, CapJSONMode, CapStreaming]),
      (''gpt-4-turbo'', [CapChat, CapTools, CapVision, CapJSONMode, CapStreaming]),
      (''gpt-4'', [CapChat, CapTools, CapJSONMode, CapStreaming]),
      (''gpt-3.5-turbo'', [CapChat, CapTools, CapJSONMode, CapStreaming]),
      (''o1'', [CapChat, CapStreaming]),
      (''text-embedding-'', [CapEmbeddings]),
      (''gpt-6-luna'', [CapChat, CapStreaming, CapDecisions])]"

definition openai_embedding_model :: "string \<Rightarrow> bool" where
  "openai_embedding_model i = (has_prefix i ''text-embedding-'' \<or> i = ''text-embedding-ada-002'')"

definition openai_model_info :: "(string \<times> capability list) list \<Rightarrow> bool \<Rightarrow> string \<Rightarrow> model_info option" where
  "openai_model_info table want_embeddings i =
     (let caps = lookup_capabilities table i in
      if openai_embedding_model i then
        (if want_embeddings then
           Some (model_entry i caps (case map_of openai_embedding_dimensions i of Some d \<Rightarrow> d | None \<Rightarrow> 0))
         else None)
      else if \<not> should_filter_model i then Some (model_entry i caps 0)
      else None)"

definition openai_list_models ::
  "(bytes \<Rightarrow> o_error) \<Rightarrow> (string \<times> capability list) list \<Rightarrow> o_client \<Rightarrow> json_result \<Rightarrow> string list
     \<Rightarrow> capability list option list \<Rightarrow> go_error + model_info list" where
  "openai_list_models unmarshal table c jr ids opts =
     (case check_status (openai_map_error unmarshal c) openai_decode_error jr of
        Some e \<Rightarrow> Inl e
      | None \<Rightarrow>
          (let cfg = list_models_config opts
           in Inr (filter_model_infos
                (List.map_filter (openai_model_info table (CapEmbeddings \<in> set cfg)) ids) cfg)))"

end
