(* ===== verification/OpenAIProps.thy ===== *)
theory OpenAIProps
  imports OpenAIChat
begin

text \<open>
  What the OpenAI client promises: bounded sends, nothing a model has rejected is sent to it
  again, a rejected reasoning effort is replaced by the nearest level towards medium, usage is
  counted once, and extra body fields win over the library's own.
\<close>

subsection \<open>Sends\<close>

lemma send_with_adjustments_returns:
  "\<exists>r s. send_with_adjustments unmarshal extra send c w = Some (r, s) \<and> length (om_sent s) \<le> 4"
  using oai.returns [of 1 unmarshal extra send
      "\<lparr>om_client = c, om_applied = [], om_omit = False, om_stepped = False, om_sent = [], om_world = w\<rparr>"]
  by (auto simp: send_with_adjustments_def openai_max_sends_def)

lemma openai_call_returns:
  "\<exists>r sent c' w'. openai_call A req send c w = Some (r, sent, c', w') \<and> length sent \<le> 4"
proof -
  obtain r s where "send_with_adjustments (oa_unmarshal A) (extra_body c req) (send (extra_body c req)) c w = Some (r, s)"
    "length (om_sent s) \<le> 4"
    using send_with_adjustments_returns [of "oa_unmarshal A" "extra_body c req" "send (extra_body c req)" c w] by auto
  then show ?thesis by (auto simp: openai_call_def Let_def split: option.split)
qed

text \<open>
  Chat and ChatStream always return, having sent at most four requests, whichever endpoints
  they are routed to and whatever the API answers.
\<close>

theorem openai_sends_bounded:
  "(\<exists>r sent c' w'. openai_chat A req c w = Some (r, sent, c', w') \<and> length sent \<le> 4) \<and>
   (\<exists>r sent c' w'. openai_chat_stream A req c w = Some (r, sent, c', w') \<and> length sent \<le> 4)"
  unfolding openai_chat_def openai_chat_stream_def by (intro conjI openai_call_returns)

subsection \<open>Reasoning effort\<close>

lemma step_effort_path:
  "\<exists>n. step_effort rejected e = (towards_medium ^^ n) e \<and>
     (\<forall>m < n. (towards_medium ^^ m) e \<in> set rejected) \<and>
     (step_effort rejected e = EffortDefault \<or> step_effort rejected e \<notin> set rejected)"
proof (induction rejected e rule: step_effort.induct)
  case (1 rejected e)
  show ?case
  proof (cases "e \<noteq> EffortDefault \<and> e \<in> set rejected")
    case True
    with 1 obtain n where n: "step_effort rejected (towards_medium e) = (towards_medium ^^ n) (towards_medium e)"
      "\<forall>m < n. (towards_medium ^^ m) (towards_medium e) \<in> set rejected"
      "step_effort rejected (towards_medium e) = EffortDefault \<or> step_effort rejected (towards_medium e) \<notin> set rejected"
      by blast
    have e: "step_effort rejected e = step_effort rejected (towards_medium e)"
      using True by (subst step_effort.simps) simp
    have "(towards_medium ^^ m) e \<in> set rejected" if "m < Suc n" for m
      using that n(2) True by (cases m) (simp_all add: funpow_swap1)
    with n e show ?thesis by (intro exI [of _ "Suc n"]) (simp add: funpow_swap1)
  next
    case False
    then have "step_effort rejected e = e" by (subst step_effort.simps) auto
    with False show ?thesis by (intro exI [of _ 0]) auto
  qed
qed

text \<open>
  a rejected reasoning effort is replaced by its nearest neighbour. The level sent is
  reached from the one asked for by steps towards medium, past rejected levels only; it is one
  the model has not rejected, or no level at all.
\<close>

theorem effort_replaced_by_nearest:
  assumes "effective_effort req (opt_effort (oc_opts c)) = Inr e" and "\<not> ln_effort_unsupported (oc_learned c)"
  shows "\<exists>n. reasoning_effort c req False = (towards_medium ^^ n) e \<and>
      (\<forall>m < n. (towards_medium ^^ m) e \<in> set (ln_rejected_effort (oc_learned c))) \<and>
      (reasoning_effort c req False = EffortDefault \<or>
       reasoning_effort c req False \<notin> set (ln_rejected_effort (oc_learned c)))"
proof (cases "e = EffortDefault")
  case True
  with assms show ?thesis by (intro exI [of _ 0]) (simp add: reasoning_effort_def)
next
  case False
  with assms have "reasoning_effort c req False = step_effort (ln_rejected_effort (oc_learned c)) e"
    by (simp add: reasoning_effort_def)
  with step_effort_path [of "ln_rejected_effort (oc_learned c)" e] show ?thesis by simp
qed

definition demo_o_options :: "extension client_options" where
  "demo_o_options = \<lparr>opt_api_key = ''sk-secret-key'', opt_api_key_file = [], opt_model = ''gpt'',
     opt_base_url = [], opt_custom_headers = [], opt_max_tokens = Some 100, opt_temperature = Some 0,
     opt_effort = EffortDefault, opt_caching = CachingDefault, opt_extra_body = [], opt_request_timeout = 0,
     opt_per_attempt_timeout = 0, opt_max_response_bytes = 0,
     opt_retry = \<lparr>max_retries = 0, initial_backoff = 0, max_backoff = 0, retry_disabled = True\<rparr>,
     opt_extensions = []\<rparr>"

definition demo_o_client :: o_client where
  "demo_o_client = \<lparr>oc_api_key = ''sk-secret-key'', oc_model = ''gpt'',
     oc_base_url = ''https://api.openai.com/v1'', oc_opts = demo_o_options, oc_usage = zero_usage,
     oc_learned = nothing_learned, oc_log = []\<rparr>"

definition demo_o_request :: "effort \<Rightarrow> extension chat_request" where
  "demo_o_request e = \<lparr>req_messages = [user_text ''hi''], req_tools = [], req_system = [],
     req_max_tokens = None, req_temperature = None, req_extensions = [], req_format = None,
     req_tool_choice = None, req_stop = [], req_descriptions = ToolDescriptionDefault,
     req_effort = e, req_caching = CachingDefault\<rparr>"

definition knowing :: "effort list \<Rightarrow> o_client" where
  "knowing es = demo_o_client\<lparr>oc_learned := nothing_learned\<lparr>ln_rejected_effort := es\<rparr>\<rparr>"

theorem effort_replaced_by_nearest_witness:
  "reasoning_effort (knowing [EffortMinimal, EffortNone]) (demo_o_request EffortNone) False = EffortLow
   \<and> (\<exists>n. EffortLow = (towards_medium ^^ n) EffortNone)"
proof -
  have e: "effective_effort (demo_o_request EffortNone) (opt_effort (oc_opts (knowing [EffortMinimal, EffortNone])))
      = Inr EffortNone" "\<not> ln_effort_unsupported (oc_learned (knowing [EffortMinimal, EffortNone]))"
    by (simp_all add: effective_effort_def demo_o_request_def effort_valid_def knowing_def nothing_learned_def)
  then have "reasoning_effort (knowing [EffortMinimal, EffortNone]) (demo_o_request EffortNone) False = EffortLow"
    by (simp add: reasoning_effort_def knowing_def nothing_learned_def step_effort.simps)
  with effort_replaced_by_nearest [OF e] show ?thesis by metis
qed

subsection \<open>What was rejected is not sent again\<close>

lemma classify_cases:
  assumes "classify um c rej = (param, action)" "param \<noteq> []"
  obtains (max_tokens) "param = adjust_max_tokens" "rj_max_tokens rej"
  | (temperature) "param = adjust_temperature" "rj_temperature rej" "action = temperature_action (rj_effort rej)"
  | (this_call) "param = adjust_effort" "action = action_effort_this_call" "rj_effort rej \<noteq> EffortDefault"
  | (level) "param = adjust_effort" "action = ''omitted '' @ effort_str (rj_effort rej)" "rj_effort rej \<noteq> EffortDefault"
  | (all) "param = adjust_effort" "action = action_effort_all" "rj_effort rej \<noteq> EffortDefault"
  | (endpoint) "param = adjust_endpoint" "\<not> rj_responses rej" "forced_route c = None"
  using assms
  by (simp add: classify_def Let_def rejects_max_tokens_def rejects_temperature_param_def
      rejects_reasoning_effort_def requires_responses_api_def split: if_splits)

lemma adjust_distinct [simp]:
  "adjust_max_tokens \<noteq> adjust_effort" "adjust_temperature \<noteq> adjust_effort" "adjust_endpoint \<noteq> adjust_effort"
  "adjust_temperature \<noteq> adjust_max_tokens" "adjust_endpoint \<noteq> adjust_max_tokens"
  "adjust_endpoint \<noteq> adjust_temperature"
  by (simp_all add: adjust_max_tokens_def adjust_temperature_def adjust_endpoint_def adjust_effort_def)

lemma log_openai_select [simp]:
  "oc_learned (log_openai p a c) = oc_learned c" "oc_opts (log_openai p a c) = oc_opts c"
  "oc_usage (log_openai p a c) = oc_usage c"
  by (simp_all add: log_openai_def)

lemma temperature_flag_set: "temperature_flag (set_temperature_flag e l) e"
  by (cases e) (simp_all add: temperature_flag_def set_temperature_flag_def)

lemma learned_max_tokens:
  "or_max_tokens (o_build_request (openai_learn adjust_max_tokens action rej c) req stream omit) = None"
  by (simp add: openai_learn_def Let_def o_build_request_def)

lemma learned_temperature:
  "chosen_temperature (openai_learn adjust_temperature action rej c) req (rj_effort rej) = None"
  by (simp add: openai_learn_def Let_def chosen_temperature_def omit_temperature_def temperature_flag_set)

lemma learned_endpoint:
  "forced_route c = None \<Longrightarrow> use_responses_api (openai_learn adjust_endpoint action rej c)"
  by (simp add: openai_learn_def Let_def use_responses_api_def forced_route_def)

lemma step_effort_avoids: "e \<in> set rejected \<Longrightarrow> e \<noteq> EffortDefault \<Longrightarrow> step_effort rejected x \<noteq> e"
  using step_effort_path [of rejected x] by auto

lemma learned_effort:
  assumes "rj_effort rej \<noteq> EffortDefault"
  shows "reasoning_effort (openai_learn adjust_effort action rej c) req omit \<noteq> rj_effort rej"
proof (cases "action = action_effort_all")
  case True
  then show ?thesis using assms
    by (simp add: openai_learn_def learn_effort_def Let_def reasoning_effort_def split: sum.split)
next
  case False
  then show ?thesis using assms step_effort_avoids [OF _ assms]
    by (auto simp: openai_learn_def learn_effort_def Let_def reasoning_effort_def split: sum.splits if_splits)
qed


definition temperature_refusal :: "bytes \<Rightarrow> o_error" where
  "temperature_refusal b = \<lparr>oe_message = b, oe_type = [], oe_param = ''temperature'', oe_code = ''unsupported_value''\<rparr>"


subsection \<open>A model that accepts only some levels\<close>

lemma step_effort_valid: "effort_valid e \<Longrightarrow> effort_valid (step_effort rejected e)"
proof (induction rejected e rule: step_effort.induct)
  case (1 rejected e)
  have "effort_valid (towards_medium e)" by (cases e) (simp_all add: effort_valid_def)
  with 1 show ?case by (subst step_effort.simps) simp
qed

lemma reasoning_effort_valid: "effort_valid (reasoning_effort c req omit)"
  by (auto simp: reasoning_effort_def effective_effort_def Let_def intro: step_effort_valid
      split: sum.splits if_splits) (simp_all add: effort_valid_def)

lemma effort_str_inj: "effort_valid e \<Longrightarrow> effort_valid f \<Longrightarrow> effort_str e = effort_str f \<Longrightarrow> e = f"
  by (cases e; cases f) (simp_all add: effort_valid_def effort_str_def)

lemma level_action: "effort_valid e \<Longrightarrow> ''omitted '' @ effort_str e \<noteq> action_effort_all
    \<and> ''omitted '' @ effort_str e \<noteq> action_effort_this_call"
  by (cases e) (simp_all add: effort_valid_def effort_str_def action_effort_all_def action_effort_this_call_def)

text \<open>
  A model that takes some reasoning effort levels and refuses the others as unsupported values,
  as the API would answer for it.
\<close>

definition level_refusal :: o_error where
  "level_refusal = \<lparr>oe_message = ''Unsupported value'', oe_type = ''invalid_request_error'',
     oe_param = ''reasoning_effort'', oe_code = ''unsupported_value''\<rparr>"

definition status_only :: "int \<Rightarrow> json_result" where
  "status_only st = \<lparr>jr_status = st, jr_body = Some [], jr_err = None\<rparr>"

definition accepts :: "effort list \<Rightarrow> o_request wire \<Rightarrow> bool" where
  "accepts levels b = (case b of PlainBody r \<Rightarrow> or_effort r = EffortDefault \<or> or_effort r \<in> set levels | _ \<Rightarrow> False)"

definition level_model :: "effort list \<Rightarrow> o_response \<Rightarrow> unit o_api" where
  "level_model levels resp =
     \<lparr>oa_unmarshal = (\<lambda>b. level_refusal), oa_encode = (\<lambda>r. Inr []), oa_encode_responses = (\<lambda>r. Inr []),
      oa_post = (\<lambda>b w. ((if accepts levels b then status_only 200 else status_only 400, resp), w)),
      oa_post_responses = (\<lambda>b w. ((json_failure EofErr,
        \<lparr>rsp_output = [], rsp_usage = None, rsp_incomplete = None, rsp_status = []\<rparr>), w)),
      oa_open = (\<lambda>b w. (Inl EofErr, w)), oa_open_responses = (\<lambda>b w. (Inl EofErr, w))\<rparr>"

definition level_key :: "effort \<Rightarrow> string" where
  "level_key e = adjust_effort @ ''/'' @ ''omitted '' @ effort_str e"

lemma level_send:
  assumes "openai_reject_documents req = None" and "\<not> use_responses_api c"
  shows "openai_send (level_model levels resp) req [] (use_responses_api c) omit c w =
    (let e = reasoning_effort c req omit; r = o_parse_response resp in
     if e = EffortDefault \<or> e \<in> set levels
     then (Final (Inr r), openai_add_usage c (resp_usage r), w)
     else (Rejected (o_rejection (o_build_request c req False omit) 400 []), c, w))"
  using assms
  by (simp add: openai_send_def chat_completions_def with_extra_body_def level_model_def accepts_def Let_def
      finish_send_def status_only_def o_build_request_def)

lemma level_classify:
  assumes "rj_status rej = 400" and "rj_effort rej \<noteq> EffortDefault"
  shows "classify (\<lambda>b. level_refusal) c rej = (adjust_effort, ''omitted '' @ effort_str (rj_effort rej))"
  using assms
  by (simp add: classify_def Let_def rejects_max_tokens_def rejects_temperature_param_def
      rejects_reasoning_effort_def level_refusal_def)

lemma level_pass_accepted:
  assumes "openai_reject_documents req = None" and "\<not> use_responses_api (om_client s)"
    and "e = reasoning_effort (om_client s) req (om_omit s)" and "e = EffortDefault \<or> e \<in> set levels"
  shows "\<exists>s'. send_pass (\<lambda>b. level_refusal) [] (openai_send (level_model levels resp) req []) n s
      = Inl (Inr (o_parse_response resp), s')"
  using assms(4) unfolding send_pass_def Let_def level_send [OF assms(1,2)] assms(3) by simp

lemma level_pass_rejected:
  assumes "openai_reject_documents req = None" and "\<not> use_responses_api (om_client s)"
    and "e = reasoning_effort (om_client s) req (om_omit s)" and "e \<noteq> EffortDefault" "e \<notin> set levels"
    and "n \<noteq> 4" and "level_key e \<notin> set (om_applied s)"
  shows "\<exists>s' rej. send_pass (\<lambda>b. level_refusal) [] (openai_send (level_model levels resp) req []) n s = Inr s'
      \<and> om_client s' = openai_learn adjust_effort (''omitted '' @ effort_str e) rej (om_client s) \<and> rj_effort rej = e
      \<and> om_applied s' = level_key e # om_applied s \<and> om_omit s' = (om_omit s \<or> om_stepped s) \<and> om_stepped s'"
proof -
  let ?rej = "o_rejection (o_build_request (om_client s) req False (om_omit s)) 400 []"
  have r: "rj_status ?rej = 400" "rj_effort ?rej = e" using assms(3)
    by (simp_all add: o_rejection_def o_build_request_def Let_def)
  note cl = level_classify [OF r(1), of "om_client s", unfolded r(2), OF assms(4)]
  have act: "''omitted '' @ effort_str e \<noteq> action_effort_all" "''omitted '' @ effort_str e \<noteq> action_effort_this_call"
    using level_action [OF reasoning_effort_valid] assms(3) by blast+
  have "adjust_effort \<noteq> []" by (simp add: adjust_effort_def)
  with assms cl act r show ?thesis
    unfolding send_pass_def Let_def level_send [OF assms(1,2)]
    by (simp add: names_extra_field_def openai_max_sends_def level_key_def del: append.simps)
       (rule exI [of _ ?rej], simp)
qed

lemma learn_effort_route: "use_responses_api (openai_learn adjust_effort a rej c) = use_responses_api c"
  by (simp add: openai_learn_def learn_effort_def Let_def use_responses_api_def forced_route_def split: option.split)

text \<open>
  C17: a model that takes only some reasoning effort levels, or none, still answers. Against a
  model that refuses every level but \<open>levels\<close> as an unsupported value, Chat gets the response
  within three requests: the level asked for, its neighbour, and none; so a model with a single
  level (GPT-5 Pro takes only "high") is usable whatever the caller asks for.
\<close>

theorem level_model_answers:
  assumes "check_reasoning_effort c req = None" and "extra_body c req = []"
    and "openai_reject_documents req = None" and "\<not> use_responses_api c"
  shows "\<exists>sent c'. openai_chat (level_model levels resp) req c w = Some (Inr (o_parse_response resp), sent, c', w)
    \<and> length sent \<le> 3"
proof -
  let ?U = "\<lambda>b :: bytes. level_refusal"
  let ?S = "openai_send (level_model levels resp) req []"
  let ?s0 = "\<lparr>om_client = c, om_applied = [], om_omit = False, om_stepped = False, om_sent = [], om_world = ()\<rparr>"
  have done_at: "send_loop_from ?U [] ?S n s = Some r \<and> length (om_sent (snd r)) = Suc (length (om_sent s))"
    if "send_pass ?U [] ?S n s = Inl r" for n s r
    using that send_pass_finish [OF that] by (simp add: oai.unfold [of ?U "[]" ?S n s])
  have step_at: "send_loop_from ?U [] ?S n s = send_loop_from ?U [] ?S (Suc n) s'"
    if "send_pass ?U [] ?S n s = Inr s'" for n s s'
    using that by (simp add: oai.unfold [of ?U "[]" ?S n s])
  have "\<exists>s'. send_loop_from ?U [] ?S 1 ?s0 = Some (Inr (o_parse_response resp), s') \<and> length (om_sent s') \<le> 3"
  proof (cases "\<exists>s'. send_pass ?U [] ?S 1 ?s0 = Inl (Inr (o_parse_response resp), s')")
    case True
    then show ?thesis using done_at by fastforce
  next
    case False
    define e1 where "e1 = reasoning_effort c req False"
    have "e1 \<noteq> EffortDefault" "e1 \<notin> set levels"
      using False level_pass_accepted [OF assms(3), of ?s0 e1 levels resp 1] assms(4) by (auto simp: e1_def)
    with level_pass_rejected [OF assms(3), of ?s0 e1 levels 1 resp] assms(4)
    obtain s1 rej1 where p1: "send_pass ?U [] ?S 1 ?s0 = Inr s1" "rj_effort rej1 = e1"
      "om_client s1 = openai_learn adjust_effort (''omitted '' @ effort_str e1) rej1 c"
      "om_applied s1 = [level_key e1]" "\<not> om_omit s1" "om_stepped s1"
      by (auto simp: e1_def)
    have route1: "\<not> use_responses_api (om_client s1)" by (simp add: p1(3) learn_effort_route assms(4))
    show ?thesis
    proof (cases "\<exists>s'. send_pass ?U [] ?S (Suc 1) s1 = Inl (Inr (o_parse_response resp), s')")
      case True
      then show ?thesis using done_at step_at [OF p1(1)] send_pass_again [OF p1(1)] by fastforce
    next
      case False
      define e2 where "e2 = reasoning_effort (om_client s1) req False"
      have e2: "e2 \<noteq> EffortDefault" "e2 \<notin> set levels"
        using False level_pass_accepted [OF assms(3) route1, of e2 levels resp "Suc 1"] p1(5) by (auto simp: e2_def)
      have "e2 \<noteq> e1"
        using learned_effort [of rej1 "''omitted '' @ effort_str e1" c req False] p1(2,3) \<open>e1 \<noteq> EffortDefault\<close>
        by (simp add: e2_def)
      then have "level_key e2 \<noteq> level_key e1"
        using effort_str_inj [of e2 e1] reasoning_effort_valid by (auto simp: level_key_def e1_def e2_def)
      with level_pass_rejected [OF assms(3) route1, of e2 levels "Suc 1" resp] e2 p1(4,5)
      obtain s2 rej2 where p2: "send_pass ?U [] ?S (Suc 1) s1 = Inr s2"
        "om_client s2 = openai_learn adjust_effort (''omitted '' @ effort_str e2) rej2 (om_client s1)"
        "om_omit s2" using p1(6) by (auto simp: e2_def)
      have "\<not> use_responses_api (om_client s2)" by (simp add: p2(2) learn_effort_route route1)
      moreover have "reasoning_effort (om_client s2) req (om_omit s2) = EffortDefault"
        using p2(3) by (simp add: reasoning_effort_def split: sum.split)
      ultimately obtain s3 where "send_pass ?U [] ?S (Suc (Suc 1)) s2 = Inl (Inr (o_parse_response resp), s3)"
        using level_pass_accepted [OF assms(3), of s2 EffortDefault levels resp "Suc (Suc 1)"] by auto
      then show ?thesis
        using done_at step_at [OF p1(1)] step_at [OF p2(1)] send_pass_again [OF p1(1)] send_pass_again [OF p2(1)]
        by fastforce
    qed
  qed
  then show ?thesis
    using assms(1,2)
    by (auto simp: openai_chat_def openai_call_def send_with_adjustments_def level_model_def check_extra_body_def)
qed


theorem level_model_answers_witness:
  "\<exists>sent c'. openai_chat (level_model [EffortHigh] \<lparr>ors_choices = [], ors_usage = \<lparr>ou_prompt = 1, ou_completion = 1, ou_total = 2\<rparr>\<rparr>)
      (demo_o_request EffortLow) demo_o_client ()
    = Some (Inr \<lparr>resp_content = [], resp_stop = StopReasonUnset,
        resp_usage = zero_usage\<lparr>us_prompt := 1, us_completion := 1, us_total := 2\<rparr>\<rparr>, sent, c', ()) \<and> length sent \<le> 3"
proof -
  have a: "check_reasoning_effort demo_o_client (demo_o_request EffortLow) = None"
    by (simp add: check_reasoning_effort_def effective_effort_def demo_o_request_def effort_valid_def)
  have b: "extra_body demo_o_client (demo_o_request EffortLow) = []"
    by (simp add: extra_body_def demo_o_request_def demo_o_client_def demo_o_options_def put_fields_def)
  have c: "openai_reject_documents (demo_o_request EffortLow) = None"
    by (simp add: openai_reject_documents_def has_document_def demo_o_request_def user_text_def
        text_block_def blank_block_def)
  have d: "\<not> use_responses_api demo_o_client"
    by (simp add: use_responses_api_def forced_route_def demo_o_client_def demo_o_options_def nothing_learned_def)
  show ?thesis
    using level_model_answers [OF a b c d, of "[EffortHigh]" "\<lparr>ors_choices = [], ors_usage = \<lparr>ou_prompt = 1, ou_completion = 1, ou_total = 2\<rparr>\<rparr>" "()"]
    by (simp add: o_parse_response_def o_usage_of_def zero_usage_def)
qed

subsection \<open>Usage\<close>

lemma learn_usage_o: "oc_usage (openai_learn p a rej c) = oc_usage c"
  by (simp add: openai_learn_def learn_effort_def Let_def)

lemma finish_send_usage:
  "finish_send f jr resp c = (out, c') \<Longrightarrow>
    oc_usage c' = (case out of Final (Inr r) \<Rightarrow> usage_add (oc_usage c) (resp_usage r) | _ \<Rightarrow> oc_usage c)"
  by (auto simp: finish_send_def openai_add_usage_def split: option.splits if_splits)

lemma openai_send_usage:
  "openai_send A req extra b omit c w = (out, c', w') \<Longrightarrow>
    oc_usage c' = (case out of Final (Inr r) \<Rightarrow> usage_add (oc_usage c) (resp_usage r) | _ \<Rightarrow> oc_usage c)"
  by (auto simp: openai_send_def chat_completions_def chat_responses_def Let_def
      split: if_splits option.splits sum.splits prod.splits dest!: finish_send_usage)

text \<open>
  a Chat call that succeeds adds its response's usage to the client's total exactly once,
  however many rejected requests and endpoints it took, and one that fails adds nothing.
\<close>

theorem openai_usage_counted_once:
  "case openai_chat A req c w of
     None \<Rightarrow> False
   | Some (Inl e, sent, c', w') \<Rightarrow> oc_usage c' = oc_usage c
   | Some (Inr resp, sent, c', w') \<Rightarrow> oc_usage c' = usage_add (oc_usage c) (resp_usage resp)"
proof -
  let ?U = "oa_unmarshal A" and ?X = "extra_body c req"
  let ?S = "openai_send A req ?X"
  let ?s0 = "\<lparr>om_client = c, om_applied = [], om_omit = False, om_stepped = False, om_sent = [], om_world = w\<rparr>"
  let ?Q = "\<lambda>r :: (go_error + chat_response) \<times> 'a o_call. oc_usage (om_client (snd r)) =
      (case fst r of Inl e \<Rightarrow> oc_usage c | Inr resp \<Rightarrow> usage_add (oc_usage c) (resp_usage resp))"
  have loop: "?Q r" if "send_loop_from ?U ?X ?S 1 ?s0 = Some r" for r
  proof (rule oai.keeps [OF that, where P = "\<lambda>n s. oc_usage (om_client s) = oc_usage c"])
    fix n s s'
    assume "oc_usage (om_client s) = oc_usage c" "send_pass ?U ?X ?S n s = Inr s'"
    then show "oc_usage (om_client s') = oc_usage c"
      by (auto simp: send_pass_def Let_def learn_usage_o dest!: openai_send_usage
          split: prod.splits o_outcome.splits if_splits)
  next
    fix n s r
    assume "oc_usage (om_client s) = oc_usage c" "send_pass ?U ?X ?S n s = Inl r"
    then show "?Q r"
      by (auto simp: send_pass_def Let_def learn_usage_o dest!: openai_send_usage
          split: prod.splits o_outcome.splits if_splits sum.splits)
  qed (simp_all add: openai_max_sends_def)
  obtain r s where "send_with_adjustments ?U ?X ?S c w = Some (r, s)"
    using send_with_adjustments_returns [of ?U ?X ?S c w] by blast
  with loop [of "(r, s)"] show ?thesis
    by (auto simp: openai_chat_def openai_call_def Let_def send_with_adjustments_def split: option.split sum.split)
qed

subsection \<open>Extra body fields\<close>

lemma map_of_put_fields: "go_map fs \<Longrightarrow> map_of (put_fields fs m) = map_of m ++ map_of fs"
proof (induction fs arbitrary: m)
  case (Cons p fs)
  obtain k v where p: "p = (k, v)" by (cases p)
  from Cons.prems have g: "go_map fs" "k \<notin> fst ` set fs" by (simp_all add: go_map_def p)
  have "put_fields (p # fs) m = put_fields fs (map_put k v m)" by (simp add: put_fields_def p)
  moreover have "map_of fs k = None" using g(2) by (simp add: map_of_eq_None_iff)
  ultimately show ?case using Cons.IH [OF g(1)]
    by (auto simp: p fun_eq_iff map_add_def split: option.split)
qed (simp add: put_fields_def)

lemma go_map_put_fields: "go_map m \<Longrightarrow> go_map (put_fields fs m)"
  by (induction fs arbitrary: m) (auto simp: put_fields_def)

lemma merge_fields_map:
  "unencodable fs = None \<Longrightarrow> go_map fs \<Longrightarrow> \<exists>out. merge_fields fs m = Inr out \<and>
    map_of out = map_of m ++ (\<lambda>k. case map_of fs k of Some (Inr v) \<Rightarrow> Some v | _ \<Rightarrow> None)"
proof (induction fs m rule: merge_fields.induct)
  case (3 k v fs m)
  then have "map_of fs k = None" by (simp add: go_map_def map_of_eq_None_iff)
  moreover have "go_map fs" "unencodable fs = None" using 3(2,3) by (simp_all add: go_map_def)
  with 3(1) obtain out where "merge_fields fs (map_put k v m) = Inr out"
    "map_of out = map_of (map_put k v m) ++ (\<lambda>k. case map_of fs k of Some (Inr v) \<Rightarrow> Some v | _ \<Rightarrow> None)"
    by blast
  ultimately show ?case by (auto simp: fun_eq_iff map_add_def split: option.split)
qed (auto simp: map_add_def fun_eq_iff)

lemma unencodable_none: "unencodable fs = None \<Longrightarrow> map_of fs k \<noteq> Some (Inl e)"
  by (induction fs rule: unencodable.induct) auto

definition extension_fields :: "extension list \<Rightarrow> extra_fields" where
  "extension_fields es = (case openai_ext es of Some x \<Rightarrow> ox_extra_body x | None \<Rightarrow> [])"

text \<open>
  extra body fields. When Chat gets past its check, the body it sends has, for every extra
  field, the value the request's extension gives it, else the one of the client's extension,
  else that of Options.ExtraBody, replacing a field of the library's own; every other field is
  as the library encoded it; there is no extra stream field, and building the body cannot fail
  on a field.
\<close>

theorem extra_body_wins:
  assumes "check_extra_body (extra_body c req) = None" and "encode body = Inr fs"
    and "go_map (opt_extra_body (oc_opts c))" "go_map (extension_fields (opt_extensions (oc_opts c)))"
    and "go_map (extension_fields (req_extensions req))"
  defines "extra \<equiv> map_of (opt_extra_body (oc_opts c))
      ++ map_of (extension_fields (opt_extensions (oc_opts c))) ++ map_of (extension_fields (req_extensions req))"
  shows "extra ''stream'' = None \<and>
    (case with_extra_body encode body (extra_body c req) of
       Inl e \<Rightarrow> False
     | Inr (PlainBody b) \<Rightarrow> b = body \<and> extra = Map.empty
     | Inr (MergedBody out) \<Rightarrow> \<forall>k. map_of out k =
         (case extra k of Some (Inr v) \<Rightarrow> Some v | Some (Inl e) \<Rightarrow> None | None \<Rightarrow> map_of fs k))"
proof -
  have eq: "map_of (extra_body c req) = extra" and g: "go_map (extra_body c req)"
    unfolding extra_body_def Let_def extension_fields_def [symmetric] extra_def
    by (simp_all add: map_of_put_fields go_map_put_fields assms)
  from assms(1) have s: "extra ''stream'' = None" and u: "unencodable (extra_body c req) = None"
    unfolding check_extra_body_def eq by (auto split: if_splits option.splits)
  from u have ok: "map_of (extra_body c req) k \<noteq> Some (Inl e)" for k e
    by (rule unencodable_none)
  show ?thesis
  proof (cases "extra_body c req = []")
    case True
    with eq s show ?thesis by (auto simp: with_extra_body_def)
  next
    case False
    with merge_fields_map [OF u g, of fs] assms(2) s ok
    show ?thesis by (auto simp: with_extra_body_def eq map_add_def split: option.splits sum.splits)
  qed
qed


definition top_k_request :: "extension chat_request" where
  "top_k_request = (demo_o_request EffortDefault)\<lparr>req_extensions := [OpenAIExt
     \<lparr>ox_embedding_dimensions = 0, ox_responses_api = None, ox_extra_body = [(''top_k'', Inr ''5''), (''model'', Inr ''m'')]\<rparr>]\<rparr>"

theorem extra_body_wins_witness:
  "case with_extra_body (\<lambda>b. Inr [(''model'', b), (''n'', ''1'')]) ''gpt'' (extra_body demo_o_client top_k_request) of
     Inr (MergedBody out) \<Rightarrow> map_of out ''model'' = Some ''m'' \<and> map_of out ''top_k'' = Some ''5'' \<and> map_of out ''n'' = Some ''1''
   | _ \<Rightarrow> False"
proof -
  have x: "extra_body demo_o_client top_k_request = [(''top_k'', Inr ''5''), (''model'', Inr ''m'')]"
    by (simp add: extra_body_def top_k_request_def demo_o_request_def demo_o_client_def demo_o_options_def put_fields_def)
  have e: "extension_fields (req_extensions top_k_request) = [(''top_k'', Inr ''5''), (''model'', Inr ''m'')]"
    "extension_fields (opt_extensions (oc_opts demo_o_client)) = []" "opt_extra_body (oc_opts demo_o_client) = []"
    by (simp_all add: extension_fields_def top_k_request_def demo_o_client_def demo_o_options_def)
  have c: "check_extra_body (extra_body demo_o_client top_k_request) = None"
    by (simp add: x check_extra_body_def)
  have g: "go_map (opt_extra_body (oc_opts demo_o_client))" "go_map (extension_fields (opt_extensions (oc_opts demo_o_client)))"
    "go_map (extension_fields (req_extensions top_k_request))" by (simp_all add: e go_map_def)
  have enc: "(\<lambda>b. Inr [(''model'', b), (''n'', ''1'')]) ''gpt'' = Inr [(''model'', ''gpt''), (''n'', ''1'')]" by simp
  from extra_body_wins [where encode = "\<lambda>b. Inr [(''model'', b), (''n'', ''1'')]", OF c enc g]
  show ?thesis by (auto simp: e x with_extra_body_def)
qed

subsection \<open>Batches of embeddings\<close>

lemma place_vectors_result:
  "place_vectors result ds = (if \<exists>(v, i) \<in> set ds. i < 0 then None else
     Some (map (\<lambda>j. case find (\<lambda>(v, i). i = int j) (rev ds) of Some (v, i) \<Rightarrow> Some v | None \<Rightarrow> result ! j)
       [0..<length result]))"
proof (induction result ds rule: place_vectors.induct)
  case (1 result)
  then show ?case by (simp add: map_nth)
next
  case (2 result v i ds)
  have last: "find P (xs @ [x]) = (case find P xs of Some y \<Rightarrow> Some y | None \<Rightarrow> if P x then Some x else None)"
    for P :: "vec \<times> int \<Rightarrow> bool" and xs x
    by (induction xs) auto
  consider "i < 0" | "0 \<le> i" "i < int (length result)" | "int (length result) \<le> i" by linarith
  then show ?case
  proof cases
    case 1
    then have "i < int (length result)" by linarith
    with 1 show ?thesis by auto
  next
    case 2
    with "2.IH"(1) show ?thesis
      by (auto simp: last nth_list_update split: option.splits)
  next
    case 3
    with "2.IH"(2) show ?thesis by (auto simp: last split: option.splits)
  qed
qed

text \<open>
  EmbedBatch puts every vector where the response's index says: on success there is one
  entry per text, entry j the last vector the response gives index j, and none where it gives
  no vector. The call panics exactly when a successful response has a negative index.
\<close>

theorem embed_batch_by_index:
  assumes "check_status (openai_map_error unmarshal c) openai_decode_error jr = None"
  shows "case openai_embed_batch unmarshal c texts jr (ds, u) of
      None \<Rightarrow> \<exists>(v, i) \<in> set ds. i < 0
    | Some (Inl e, c') \<Rightarrow> False
    | Some (Inr vs, c') \<Rightarrow> (\<forall>(v, i) \<in> set ds. 0 \<le> i) \<and> length vs = length texts \<and>
        (\<forall>j < length texts. vs ! j = map_option fst (find (\<lambda>(v, i). i = int j) (rev ds)))"
  using assms
  by (auto simp: openai_embed_batch_def place_vectors_result split: option.split)

theorem embed_batch_by_index_witness:
  "openai_embed_batch (\<lambda>b. level_refusal) demo_o_client [''a'', ''b''] (status_only 200)
     ([([1], 1), ([2], 0)], \<lparr>ou_prompt = 2, ou_completion = 0, ou_total = 2\<rparr>) \<noteq> None"
proof -
  have "check_status (openai_map_error (\<lambda>b. level_refusal) demo_o_client) openai_decode_error (status_only 200) = None"
    by (simp add: check_status_def status_only_def)
  from embed_batch_by_index [OF this, where texts = "[''a'', ''b'']" and ds = "[([1], 1), ([2], 0)]"
      and u = "\<lparr>ou_prompt = 2, ou_completion = 0, ou_total = 2\<rparr>"]
  show ?thesis by (auto split: option.splits)
qed

end
