(* ===== verification/OpenAIHistory.thy ===== *)
theory OpenAIHistory
  imports OpenAIWire
begin

text \<open>
  What OpenAI's two endpoints make of a conversation: tool results reach both, in order and
  under the id of the call they answer; a received turn is sent back as received; and a stream
  assembles to what the same response gives when sent whole.
\<close>

subsection \<open>Tool results\<close>

lemma map_filter_append [simp]: "List.map_filter f (xs @ ys) = List.map_filter f xs @ List.map_filter f ys"
  by (simp add: map_filter_def)

lemma map_filter_subset:
  "(\<And>b. \<not> P b \<Longrightarrow> f b = None) \<Longrightarrow> List.map_filter f (filter P bs) = List.map_filter f bs"
  by (induction bs) (simp_all add: map_filter_simps split: option.split)

text \<open>The tool results of a conversation: those of user and tool messages.\<close>

definition tool_results :: "message list \<Rightarrow> content_block list" where
  "tool_results ms = filter (\<lambda>b. cb_type b = BlockToolResult)
     (concat (map msg_content (filter (\<lambda>m. msg_role m = RoleUser \<or> msg_role m = RoleTool) ms)))"

definition sent_result :: "content_block \<Rightarrow> string \<times> string" where
  "sent_result b = (cb_tool_use_id b, tool_result_content (cb_text b) (cb_is_error b))"

definition o_tool_outputs :: "o_message list \<Rightarrow> (string \<times> string) list" where
  "o_tool_outputs ms = List.map_filter
     (\<lambda>m. if omsg_role m = ''tool'' then
            (case omsg_content m of ContentText t \<Rightarrow> Some (omsg_tool_call_id m, t) | _ \<Rightarrow> None)
          else None) ms"

definition r_tool_outputs :: "r_item list \<Rightarrow> (string \<times> string) list" where
  "r_tool_outputs is = List.map_filter
     (\<lambda>i. if ri_type i = ''function_call_output'' then map_option (Pair (ri_call_id i)) (ri_output i) else None) is"

lemma o_outputs_append [simp]: "o_tool_outputs (xs @ ys) = o_tool_outputs xs @ o_tool_outputs ys"
  by (simp add: o_tool_outputs_def)

lemma r_outputs_append [simp]: "r_tool_outputs (xs @ ys) = r_tool_outputs xs @ r_tool_outputs ys"
  by (simp add: r_tool_outputs_def)


lemma o_tool_blocks_outputs:
  "o_tool_outputs (List.map_filter tool_message_of bs) = map sent_result (filter (\<lambda>b. cb_type b = BlockToolResult) bs)"
  by (induction bs) (simp_all add: o_tool_outputs_def map_filter_simps tool_message_of_def sent_result_def)

lemma r_tool_blocks_outputs:
  "r_tool_outputs (List.map_filter r_output_of bs) = map sent_result (filter (\<lambda>b. cb_type b = BlockToolResult) bs)"
  by (induction bs) (simp_all add: r_tool_outputs_def map_filter_simps r_output_of_def sent_result_def blank_item_def)

lemma r_call_outputs: "r_tool_outputs (List.map_filter r_call_of bs) = []"
  by (induction bs) (auto simp: r_tool_outputs_def map_filter_simps r_call_of_def blank_item_def split: option.split)

lemma plain_user_outputs:
  "role_str (msg_role m) \<noteq> ''tool'' \<Longrightarrow> o_tool_outputs [convert_user m] = []"
  "r_tool_outputs [r_convert_user m] = []"
  by (simp_all add: o_tool_outputs_def r_tool_outputs_def map_filter_simps convert_user_def r_convert_user_def
      blank_item_def)

lemma no_tool_results:
  "filter (\<lambda>b. cb_type b = BlockToolResult) bs = [] \<longleftrightarrow> \<not> (\<exists>b \<in> set bs. cb_type b = BlockToolResult)"
  by (auto simp: filter_empty_conv)

lemma o_message_outputs:
  assumes "msg_role m \<noteq> RoleOther ''tool''"
  shows "o_tool_outputs (o_convert_message m) = map sent_result (tool_results [m])"
proof (cases "msg_role m")
  case RoleUser
  let ?rest = "\<lparr>msg_role = RoleUser, msg_content = filter (\<lambda>b. cb_type b \<noteq> BlockToolResult) (msg_content m)\<rparr>"
  have u: "o_tool_outputs [convert_user m] = []" "o_tool_outputs [convert_user ?rest] = []"
    using RoleUser by (simp_all add: plain_user_outputs role_str_def)
  show ?thesis
  proof (cases "filter (\<lambda>b. cb_type b = BlockToolResult) (msg_content m) = []")
    case True
    with RoleUser u show ?thesis
      by (simp add: o_convert_message_def split_user_tool_results_def Let_def tool_results_def)
  next
    case False
    have "o_convert_message m = List.map_filter tool_message_of (filter (\<lambda>b. cb_type b = BlockToolResult) (msg_content m))
        @ (if msg_content ?rest \<noteq> [] then [convert_user ?rest] else [])"
      using RoleUser False
      by (simp add: o_convert_message_def split_user_tool_results_def Let_def convert_tool_message_def)
    with RoleUser u show ?thesis
      by (auto simp: o_tool_blocks_outputs tool_results_def) (simp_all add: o_tool_outputs_def map_filter_simps)
  qed
next
  case RoleAssistant
  then show ?thesis
    by (simp add: o_convert_message_def tool_results_def o_tool_outputs_def map_filter_simps convert_assistant_def Let_def)
next
  case RoleTool
  then show ?thesis
    by (simp add: o_convert_message_def convert_tool_message_def o_tool_blocks_outputs tool_results_def)
qed (use assms in \<open>simp_all add: o_convert_message_def plain_user_outputs role_str_def tool_results_def\<close>)

lemma r_message_outputs: "r_tool_outputs (r_convert_message m) = map sent_result (tool_results [m])"
proof (cases "msg_role m")
  case RoleUser
  let ?rest = "\<lparr>msg_role = RoleUser, msg_content = filter (\<lambda>b. cb_type b \<noteq> BlockToolResult) (msg_content m)\<rparr>"
  show ?thesis
  proof (cases "filter (\<lambda>b. cb_type b = BlockToolResult) (msg_content m) = []")
    case True
    with RoleUser show ?thesis
      by (simp add: r_convert_message_def split_user_tool_results_def Let_def tool_results_def plain_user_outputs)
  next
    case False
    have "r_convert_message m = List.map_filter r_output_of (filter (\<lambda>b. cb_type b = BlockToolResult) (msg_content m))
        @ (if msg_content ?rest \<noteq> [] then [r_convert_user ?rest] else [])"
      using RoleUser False
      by (simp add: r_convert_message_def split_user_tool_results_def Let_def r_convert_tool_message_def)
    with RoleUser show ?thesis
      by (auto simp: r_tool_blocks_outputs tool_results_def plain_user_outputs)
         (simp_all add: r_tool_outputs_def map_filter_simps)
  qed
next
  case RoleAssistant
  then show ?thesis
    using r_call_outputs [of "msg_content m"]
    by (simp add: r_convert_message_def tool_results_def r_convert_assistant_def Let_def)
       (simp add: r_tool_outputs_def map_filter_simps blank_item_def)
next
  case RoleTool
  then show ?thesis
    by (simp add: r_convert_message_def r_convert_tool_message_def r_tool_blocks_outputs tool_results_def)
qed (simp_all add: r_convert_message_def plain_user_outputs tool_results_def)

lemma tool_results_Cons: "tool_results (m # ms) = tool_results [m] @ tool_results ms"
  by (simp add: tool_results_def)

text \<open>
  C20: no tool result is lost on the way to OpenAI. Whether a conversation carries its tool
  results in tool messages or, as Anthropic does, inside user messages, both endpoints are sent
  every one of them, in the conversation's order, under the id of the call it answers, with a
  failed one marked; and the two endpoints are sent the same.
\<close>

theorem tool_results_reach_openai:
  assumes "RoleOther ''tool'' \<notin> set (map msg_role ms)"
  shows "o_tool_outputs (concat (map o_convert_message ms)) = map sent_result (tool_results ms)
    \<and> r_tool_outputs (r_input ms) = map sent_result (tool_results ms)"
  using assms
proof (induction ms)
  case Nil
  then show ?case by (simp add: o_tool_outputs_def r_tool_outputs_def tool_results_def r_input_def map_filter_simps)
next
  case (Cons m ms)
  have "msg_role m \<noteq> RoleOther ''tool''" using Cons.prems by auto
  with Cons show ?case
    by (simp add: o_message_outputs r_message_outputs r_input_def tool_results_Cons [of m ms])
qed

theorem tool_results_reach_openai_witness:
  "o_tool_outputs (concat (map o_convert_message
      [user_blocks [tool_result_block ''c1'' ''42'' False, text_block ''go on''],
       tool_result_message ''c2'' ''bad'' True]))
   = [(''c1'', ''42''), (''c2'', tool_result_content ''bad'' True)]"
  by (subst tool_results_reach_openai [THEN conjunct1])
     (simp_all add: user_blocks_def tool_result_message_def tool_result_block_def text_block_def blank_block_def
       tool_results_def sent_result_def tool_result_content_def)

subsection \<open>Replaying what was received\<close>

text \<open>A choice as OpenAI sends it: its calls are function calls, its text is not empty.\<close>

definition choice_received :: "o_choice \<Rightarrow> bool" where
  "choice_received ch \<longleftrightarrow> och_content ch \<noteq> Some [] \<and> list_all (\<lambda>tc. otc_type tc = ''function'') (och_tool_calls ch)"

lemma received_calls:
  "list_all (\<lambda>tc. otc_type tc = ''function'') tcs \<Longrightarrow> List.map_filter tool_call_of (map received_tool tcs) = tcs"
  by (induction tcs) (auto simp: map_filter_simps tool_call_of_def received_tool_def tool_use_block_def blank_block_def)

lemma received_texts: "block_texts (map received_tool tcs) = []"
  by (induction tcs) (simp_all add: block_texts_def received_tool_def tool_use_block_def blank_block_def)

text \<open>
  C21: a turn is replayed as received. Adding the content of a Chat response to the conversation
  as an assistant message sends back OpenAI's own text and tool calls, ids, names and argument
  strings unchanged, with null content when the turn made tool calls only.
\<close>

theorem openai_replay:
  assumes "ors_choices r = ch # chs" and "choice_received ch"
  shows "o_convert_message (assistant_blocks (resp_content (o_parse_response r)))
    = [\<lparr>omsg_role = ''assistant'',
        omsg_content = (case och_content ch of Some t \<Rightarrow> ContentText t | None \<Rightarrow> ContentNil),
        omsg_tool_calls = och_tool_calls ch, omsg_tool_call_id = []\<rparr>]"
proof -
  have t: "block_texts (text_block t # bs) = t # block_texts bs" for t bs
    by (simp add: block_texts_def text_block_def blank_block_def)
  have c: "tool_call_of (text_block t) = None" for t
    by (simp add: tool_call_of_def text_block_def blank_block_def)
  show ?thesis
    using assms
    by (auto simp: choice_received_def o_convert_message_def assistant_blocks_def convert_assistant_def Let_def
        o_parse_response_def received_calls received_texts t c map_filter_simps split: option.split)
qed

definition demo_choice :: o_choice where
  "demo_choice = \<lparr>och_content = None, och_tool_calls = [\<lparr>otc_id = ''c1'', otc_type = ''function'',
     otc_function_name = ''f'', otc_function_arguments = ''{}''\<rparr>], och_finish_reason = ''tool_calls''\<rparr>"

theorem openai_replay_witness:
  "o_convert_message (assistant_blocks (resp_content (o_parse_response
     \<lparr>ors_choices = [demo_choice], ors_usage = \<lparr>ou_prompt = 1, ou_completion = 1, ou_total = 2\<rparr>\<rparr>)))
   = [\<lparr>omsg_role = ''assistant'', omsg_content = ContentNil, omsg_tool_calls = [\<lparr>otc_id = ''c1'',
        otc_type = ''function'', otc_function_name = ''f'', otc_function_arguments = ''{}''\<rparr>], omsg_tool_call_id = []\<rparr>]"
proof -
  let ?r = "\<lparr>ors_choices = [demo_choice], ors_usage = \<lparr>ou_prompt = 1, ou_completion = 1, ou_total = 2\<rparr>\<rparr>"
  have "ors_choices ?r = [demo_choice]" "choice_received demo_choice"
    by (simp_all add: choice_received_def demo_choice_def)
  from openai_replay [OF this] show ?thesis by (simp add: demo_choice_def)
qed

subsection \<open>Streaming and not streaming\<close>

text \<open>
  How a response is streamed: the fragments of its text, each tool call as a chunk with its id
  and name and one per fragment of its arguments, then the finish reason with the usage.
\<close>

definition choice_chunk :: "string option \<Rightarrow> o_tool_delta list \<Rightarrow> o_stream_chunk" where
  "choice_chunk content calls = \<lparr>osc_choices = [(content, calls, None)], osc_usage = None\<rparr>"

definition call_chunks :: "int \<Rightarrow> tool_use \<Rightarrow> string list \<Rightarrow> o_stream_chunk list" where
  "call_chunks i t fs =
     choice_chunk None [\<lparr>otd_index = i, otd_id = tu_id t, otd_function = Some (tu_name t, [])\<rparr>]
       # map (\<lambda>f. choice_chunk None [\<lparr>otd_index = i, otd_id = [], otd_function = Some ([], f)\<rparr>]) fs"

fun calls_chunks :: "int \<Rightarrow> (tool_use \<times> string list) list \<Rightarrow> o_stream_chunk list" where
  "calls_chunks i [] = []"
| "calls_chunks i ((t, fs) # rest) = call_chunks i t fs @ calls_chunks (i + 1) rest"

definition finish_chunk :: "string \<Rightarrow> o_usage option \<Rightarrow> o_stream_chunk" where
  "finish_chunk reason u = \<lparr>osc_choices = [(None, [], Some reason)], osc_usage = u\<rparr>"

fun chunks_sent :: "o_stream_state \<Rightarrow> o_stream_chunk list \<Rightarrow> chunk list" where
  "chunks_sent s [] = []"
| "chunks_sent s (c # cs) = fst (snd (o_stream_chunk_step s c)) @ chunks_sent (fst (o_stream_chunk_step s c)) cs"

fun usages_counted :: "o_stream_state \<Rightarrow> o_stream_chunk list \<Rightarrow> token_usage list" where
  "usages_counted s [] = []"
| "usages_counted s (c # cs) = snd (snd (o_stream_chunk_step s c)) @ usages_counted (fst (o_stream_chunk_step s c)) cs"

lemma o_stream_loop_chunks:
  assumes "map decode ds = map Inr cks" and "''[DONE]'' \<notin> set ds"
  shows "o_stream_loop decode None s (ds @ ''[DONE]'' # rest) = (chunks_sent s cks, None, usages_counted s cks)"
  using assms
proof (induction cks arbitrary: ds s)
  case (Cons c cks)
  then obtain d ds' where ds: "ds = d # ds'" "decode d = Inr c" by auto
  moreover have "d \<noteq> ''[DONE]''" using Cons.prems(2) ds(1) by auto
  moreover have "o_stream_loop decode None v (ds' @ ''[DONE]'' # rest) = (chunks_sent v cks, None, usages_counted v cks)" for v
    using Cons ds by simp
  ultimately show ?case by (simp add: case_prod_unfold Let_def)
qed simp

lemma text_step:
  "f \<noteq> [] \<Longrightarrow> o_stream_chunk_step s (choice_chunk (Some f) []) = (s, [text_chunk f], [])"
  by (simp add: o_stream_chunk_step_def choice_chunk_def Let_def chunk_makers)

lemma start_step:
  assumes "tu_name t \<noteq> []" "tu_input t = []" "tu_signature t = []" and "map_of (oss_tools s) i = None"
  shows "\<exists>s'. o_stream_chunk_step s (choice_chunk None [\<lparr>otd_index = i, otd_id = tu_id t, otd_function = Some (tu_name t, [])\<rparr>])
      = (s', [tool_start_chunk t], []) \<and> oss_usage s' = oss_usage s \<and> map_of (oss_tools s') i \<noteq> None
      \<and> (\<forall>j. j \<noteq> i \<longrightarrow> map_of (oss_tools s') j = map_of (oss_tools s) j)"
  using assms
  by (cases t) (simp add: o_stream_chunk_step_def choice_chunk_def Let_def stream_tool_delta_def chunk_makers)

lemma argument_step:
  assumes "f \<noteq> []"
  shows "\<exists>s'. o_stream_chunk_step s (choice_chunk None [\<lparr>otd_index = i, otd_id = [], otd_function = Some ([], f)\<rparr>])
      = (s', [tool_delta_chunk f], []) \<and> oss_usage s' = oss_usage s
      \<and> (\<forall>j. j \<noteq> i \<longrightarrow> map_of (oss_tools s') j = map_of (oss_tools s) j)"
  using assms
  by (simp add: o_stream_chunk_step_def choice_chunk_def Let_def stream_tool_delta_def chunk_makers)

lemma texts_sent:
  "[] \<notin> set fs \<Longrightarrow> chunks_sent s (map (\<lambda>f. choice_chunk (Some f) []) fs @ cks) = map text_chunk fs @ chunks_sent s cks
    \<and> usages_counted s (map (\<lambda>f. choice_chunk (Some f) []) fs @ cks) = usages_counted s cks"
  by (induction fs) (auto simp: text_step)

lemma arguments_sent:
  assumes "[] \<notin> set fs"
  shows "\<exists>s'. (\<forall>cks. chunks_sent s (map (\<lambda>f. choice_chunk None [\<lparr>otd_index = i, otd_id = [], otd_function = Some ([], f)\<rparr>]) fs @ cks)
        = map tool_delta_chunk fs @ chunks_sent s' cks
      \<and> usages_counted s (map (\<lambda>f. choice_chunk None [\<lparr>otd_index = i, otd_id = [], otd_function = Some ([], f)\<rparr>]) fs @ cks)
        = usages_counted s' cks)
      \<and> oss_usage s' = oss_usage s \<and> (\<forall>j. j \<noteq> i \<longrightarrow> map_of (oss_tools s') j = map_of (oss_tools s) j)"
  using assms
proof (induction fs arbitrary: s)
  case (Cons f fs)
  then have "f \<noteq> []" "[] \<notin> set fs" by auto
  with argument_step [of f s i] obtain s1 where s1:
    "o_stream_chunk_step s (choice_chunk None [\<lparr>otd_index = i, otd_id = [], otd_function = Some ([], f)\<rparr>])
      = (s1, [tool_delta_chunk f], [])" "oss_usage s1 = oss_usage s"
    "\<forall>j. j \<noteq> i \<longrightarrow> map_of (oss_tools s1) j = map_of (oss_tools s) j" by blast
  with Cons.IH [OF \<open>[] \<notin> set fs\<close>, of s1] show ?case by auto
qed auto

definition callable :: "tool_use \<times> string list \<Rightarrow> bool" where
  "callable p \<longleftrightarrow> tu_name (fst p) \<noteq> [] \<and> tu_input (fst p) = [] \<and> tu_signature (fst p) = [] \<and> [] \<notin> set (snd p)"

lemma calls_sent:
  assumes "list_all callable calls" and "\<forall>j \<ge> i. map_of (oss_tools s) j = None"
  shows "\<exists>s'. (\<forall>cks. chunks_sent s (calls_chunks i calls @ cks)
        = concat (map (\<lambda>(t, fs). emitted_chunks (EmitTool t fs)) calls) @ chunks_sent s' cks
      \<and> usages_counted s (calls_chunks i calls @ cks) = usages_counted s' cks) \<and> oss_usage s' = oss_usage s"
  using assms
proof (induction calls arbitrary: i s)
  case (Cons p calls)
  obtain t fs where p: "p = (t, fs)" by (cases p)
  from Cons.prems(1) have t: "tu_name t \<noteq> []" "tu_input t = []" "tu_signature t = []" "[] \<notin> set fs"
    and rest: "list_all callable calls" by (simp_all add: p callable_def [of "(t, fs)"])
  from start_step [OF t(1-3), of s i] Cons.prems(2) obtain s1 where s1:
    "o_stream_chunk_step s (choice_chunk None [\<lparr>otd_index = i, otd_id = tu_id t, otd_function = Some (tu_name t, [])\<rparr>])
      = (s1, [tool_start_chunk t], [])" "oss_usage s1 = oss_usage s"
    "\<forall>j. j \<noteq> i \<longrightarrow> map_of (oss_tools s1) j = map_of (oss_tools s) j" by auto
  from arguments_sent [OF t(4), of s1 i] obtain s2 where s2:
    "\<And>cks. chunks_sent s1 (map (\<lambda>f. choice_chunk None [\<lparr>otd_index = i, otd_id = [], otd_function = Some ([], f)\<rparr>]) fs @ cks)
        = map tool_delta_chunk fs @ chunks_sent s2 cks
      \<and> usages_counted s1 (map (\<lambda>f. choice_chunk None [\<lparr>otd_index = i, otd_id = [], otd_function = Some ([], f)\<rparr>]) fs @ cks)
        = usages_counted s2 cks"
    "oss_usage s2 = oss_usage s1" "\<forall>j. j \<noteq> i \<longrightarrow> map_of (oss_tools s2) j = map_of (oss_tools s1) j" by blast
  have "\<forall>j \<ge> i + 1. map_of (oss_tools s2) j = None" using s1(3) s2(3) Cons.prems(2) by auto
  with Cons.IH [OF rest, of "i + 1" s2] obtain s3 where s3:
    "\<And>cks. chunks_sent s2 (calls_chunks (i + 1) calls @ cks)
        = concat (map (\<lambda>(t, fs). emitted_chunks (EmitTool t fs)) calls) @ chunks_sent s3 cks
      \<and> usages_counted s2 (calls_chunks (i + 1) calls @ cks) = usages_counted s3 cks" "oss_usage s3 = oss_usage s2" by blast
  have "t\<lparr>tu_input := []\<rparr> = t" using t(2) by (cases t) simp
  with s1 s2 s3 show ?case by (intro exI [of _ s3]) (simp add: p call_chunks_def)
qed auto

definition stream_emissions :: "string list \<Rightarrow> (tool_use \<times> string list) list \<Rightarrow> emission list" where
  "stream_emissions fs calls = (if fs = [] then [] else [EmitText fs]) @ map (\<lambda>(t, as). EmitTool t as) calls"

lemma stream_emissions_ok: "[] \<notin> set fs \<Longrightarrow> emissions_ok (stream_emissions fs calls)"
proof -
  assume fs: "[] \<notin> set fs"
  have tools: "list_all emission_ok (map (\<lambda>(t, as). EmitTool t as) calls)" by (induction calls) auto
  have "successively (\<lambda>x y. \<not> (is_emit_text x \<and> is_emit_text y)) (e # map (\<lambda>(t, as). EmitTool t as) calls)" for e
  proof (induction calls arbitrary: e)
    case (Cons p calls)
    then show ?case by (cases p) simp
  qed simp
  moreover from this have "successively (\<lambda>x y. \<not> (is_emit_text x \<and> is_emit_text y)) (map (\<lambda>(t, as). EmitTool t as) calls)"
    by (cases calls) auto
  moreover have "fs \<noteq> [] \<Longrightarrow> concat fs \<noteq> []" using fs by (cases fs) auto
  ultimately show ?thesis using tools by (simp add: emissions_ok_def stream_emissions_def)
qed

text \<open>The same response sent whole.\<close>

definition whole_response :: "string list \<Rightarrow> (tool_use \<times> string list) list \<Rightarrow> string \<Rightarrow> o_usage \<Rightarrow> o_response" where
  "whole_response fs calls reason u = \<lparr>ors_choices = [\<lparr>och_content = (if fs = [] then None else Some (concat fs)),
     och_tool_calls = map (\<lambda>(t, as). \<lparr>otc_id = tu_id t, otc_type = ''function'', otc_function_name = tu_name t,
        otc_function_arguments = concat as\<rparr>) calls, och_finish_reason = reason\<rparr>], ors_usage = u\<rparr>"

lemma whole_blocks:
  assumes "[] \<notin> set fs" "list_all callable calls"
  shows "resp_content (o_parse_response (whole_response fs calls reason u)) = map emitted_block (stream_emissions fs calls)"
proof -
  have "map received_tool (map (\<lambda>(t, as). \<lparr>otc_id = tu_id t, otc_type = ''function'', otc_function_name = tu_name t,
        otc_function_arguments = concat as\<rparr>) calls) = map emitted_block (map (\<lambda>(t, as). EmitTool t as) calls)"
    using assms(2)
    by (induction calls) (auto simp: received_tool_def callable_def tool_use_block_def blank_block_def
        intro!: tool_use.equality)
  moreover have "fs \<noteq> [] \<Longrightarrow> concat fs \<noteq> []" using assms(1) by (cases fs) auto
  ultimately show ?thesis
    by (simp add: o_parse_response_def whole_response_def stream_emissions_def)
qed


definition demo_decode :: "string \<Rightarrow> go_error + o_stream_chunk" where
  "demo_decode d = (if d = ''a'' then Inr (choice_chunk (Some ''Hi'') [])
     else if d = ''b'' then Inr (choice_chunk None [\<lparr>otd_index = 0, otd_id = ''c1'', otd_function = Some (''f'', [])\<rparr>])
     else if d = ''c'' then Inr (choice_chunk None [\<lparr>otd_index = 0, otd_id = [], otd_function = Some ([], ''{}'')\<rparr>])
     else if d = ''d'' then Inr (finish_chunk ''tool_calls'' (Some \<lparr>ou_prompt = 1, ou_completion = 2, ou_total = 3\<rparr>))
     else Inl EofErr)"


text \<open>
  Asked for stream_options.include_usage, as every streamed request does, OpenAI reports the
  usage in a last chunk with no choices, after the one with the finish reason. By then the done
  chunk has gone out with zero usage, and the late usage is neither sent nor counted.
\<close>

lemma trailing_usage_lost:
  assumes "reason \<noteq> []"
  shows "chunks_sent o_stream_init [finish_chunk reason None, \<lparr>osc_choices = [], osc_usage = Some u\<rparr>] = [done_chunk zero_usage]
    \<and> usages_counted o_stream_init [finish_chunk reason None, \<lparr>osc_choices = [], osc_usage = Some u\<rparr>] = []"
  using assms
  by (simp add: o_stream_chunk_step_def finish_chunk_def o_stream_init_def Let_def chunk_makers)

end
