(* ===== verification/Decisions.thy ===== *)
theory Decisions
  imports Decision ProviderBase
begin

text \<open>
  What the two decision providers, OpenAI (\<open>openai/decide.go\<close>) and TypeSafe
  (\<open>typesafe/decide.go\<close>), have in common: the range checks on the numbers of an answer, the
  option probabilities in the order of the request, and the loop that converts one answer per
  question. The locale \<open>answer_source\<close> is the contract of their conversions.
\<close>

subsection \<open>Comparing floats\<close>

text \<open>
  The order of IEEE binary64 on bit patterns: sign and magnitude, the two zeros equal, nothing
  comparable with a NaN.
\<close>

definition f64_nan :: "f64 \<Rightarrow> bool" where
  "f64_nan x \<longleftrightarrow> 0x7FF0000000000000 < unat x mod 2 ^ 63"

definition f64_key :: "f64 \<Rightarrow> int" where
  "f64_key x = (if unat x < 2 ^ 63 then int (unat x) else - int (unat x mod 2 ^ 63))"

definition f64_le :: "f64 \<Rightarrow> f64 \<Rightarrow> bool" where
  "f64_le x y \<longleftrightarrow> \<not> f64_nan x \<and> \<not> f64_nan y \<and> f64_key x \<le> f64_key y"

text \<open>The exponent of the leading bit, and \<open>float64(n)\<close> for an \<open>n\<close> below \<open>2 ^ 53\<close>.\<close>

fun leading :: "nat \<Rightarrow> nat" where
  "leading n = (if n \<le> 1 then 0 else Suc (leading (n div 2)))"

declare leading.simps [simp del]

definition f64_of_nat :: "nat \<Rightarrow> f64" where
  "f64_of_nat n =
     (if n = 0 then 0
      else let e = leading n in word_of_nat ((1023 + e) * 2 ^ 52 + (n - 2 ^ e) * 2 ^ (52 - e)))"

lemma f64_of_one: "f64_of_nat 1 = f64_one"
  by (simp add: f64_of_nat_def f64_one_def leading.simps [of 1] leading.simps [of "Suc 0"])

text \<open>\<open>isProbability\<close> and \<open>isScore\<close>, of a field that may be missing.\<close>

definition in_unit :: "f64 \<Rightarrow> bool" where
  "in_unit x \<longleftrightarrow> f64_le 0 x \<and> f64_le x f64_one"

definition is_probability :: "f64 option \<Rightarrow> bool" where
  "is_probability p = (case p of None \<Rightarrow> False | Some x \<Rightarrow> in_unit x)"

definition is_score :: "f64 option \<Rightarrow> nat \<Rightarrow> bool" where
  "is_score s levels = (case s of None \<Rightarrow> False | Some x \<Rightarrow> f64_le 0 x \<and> f64_le x (f64_of_nat (levels - 1)))"

lemma is_probabilityE:
  assumes "is_probability p"
  obtains x where "p = Some x" "in_unit x"
  using assms by (cases p) (auto simp: is_probability_def)

lemma is_scoreE:
  assumes "is_score s n"
  obtains x where "s = Some x" "f64_le 0 x" "f64_le x (f64_of_nat (n - 1))"
  using assms by (cases s) (auto simp: is_score_def)

subsection \<open>An answer and its probabilities\<close>

definition has_option :: "decision_option list \<Rightarrow> string \<Rightarrow> bool" where
  "has_option options value \<longleftrightarrow> list_ex (\<lambda>d. do_value d = value) options"

text \<open>\<open>var a = llm.DecisionAnswer{Name: q.Name, Kind: q.Kind}\<close>.\<close>

definition blank_answer :: "decision_question \<Rightarrow> decision_answer" where
  "blank_answer q = \<lparr>da_name = dq_name q, da_kind = dq_kind q, da_refused = False, da_probability = 0,
     da_choice = [], da_score = 0, da_confidence = 0, da_probabilities = []\<rparr>"

text \<open>The text of every error about an answer.\<close>

definition answer_error :: "string \<Rightarrow> decision_question \<Rightarrow> string \<Rightarrow> go_error" where
  "answer_error provider q problem =
     provider_err provider ErrProviderError (''answer to question '' @ go_quote (dq_name q) @ problem)"

definition no_answer :: "string \<Rightarrow> decision_question \<Rightarrow> go_error" where
  "no_answer provider q =
     provider_err provider ErrProviderError (''response has no answer for question '' @ go_quote (dq_name q))"

text \<open>
  The loop of \<open>withProbabilities\<close> over the options, \<open>p i o\<close> the probability found for option \<open>o\<close>
  at index \<open>i\<close>.
\<close>

fun option_probabilities ::
  "go_error \<Rightarrow> (nat \<Rightarrow> decision_option \<Rightarrow> f64 option) \<Rightarrow> nat \<Rightarrow> decision_option list \<Rightarrow>
     go_error + option_probability list" where
  "option_probabilities err p i [] = Inr []"
| "option_probabilities err p i (d # ds) =
     (if \<not> is_probability (p i d) then Inl err
      else (case option_probabilities err p (Suc i) ds of
              Inl e \<Rightarrow> Inl e
            | Inr ps \<Rightarrow> Inr (\<lparr>op_value = do_value d, op_probability = the (p i d)\<rparr> # ps)))"

definition with_probabilities ::
  "string \<Rightarrow> decision_answer \<Rightarrow> decision_question \<Rightarrow> f64 option \<Rightarrow> (nat \<Rightarrow> decision_option \<Rightarrow> f64 option) \<Rightarrow>
     go_error + decision_answer" where
  "with_probabilities provider a q confidence p =
     (if \<not> is_probability confidence then
        Inl (answer_error provider q '' has a missing or out-of-range confidence'')
      else map_sum id (\<lambda>ps. a\<lparr>da_confidence := the confidence, da_probabilities := ps\<rparr>)
             (option_probabilities (answer_error provider q '' has a missing or out-of-range option probability'')
                p 0 (dq_options q)))"

lemma option_probabilities_spec:
  "case option_probabilities err p i ds of
     Inl e \<Rightarrow> e = err \<and> \<not> (\<forall>j < length ds. is_probability (p (i + j) (ds ! j)))
   | Inr ps \<Rightarrow> (\<forall>j < length ds. is_probability (p (i + j) (ds ! j)))
       \<and> map op_value ps = map do_value ds \<and> (\<forall>x \<in> set ps. in_unit (op_probability x))"
proof (induction ds arbitrary: i)
  case (Cons d ds)
  have split: "(\<forall>j < length (d # ds). is_probability (p (i + j) ((d # ds) ! j)))
      \<longleftrightarrow> is_probability (p i d) \<and> (\<forall>j < length ds. is_probability (p (Suc i + j) (ds ! j)))"
    by (auto simp: nth_Cons split: nat.splits)
  show ?case
  proof (cases "is_probability (p i d)")
    case True
    then obtain x where "p i d = Some x" "in_unit x" by (rule is_probabilityE)
    with True Cons.IH [of "Suc i"] split show ?thesis by (auto split: sum.splits)
  qed (use split in auto)
qed simp

subsection \<open>The answers of a response\<close>

text \<open>What the caller may rely on in the answer to \<open>q\<close>.\<close>

definition weighted :: "decision_question \<Rightarrow> decision_answer \<Rightarrow> bool" where
  "weighted q a \<longleftrightarrow> in_unit (da_confidence a) \<and> map op_value (da_probabilities a) = map do_value (dq_options q)
     \<and> (\<forall>x \<in> set (da_probabilities a). in_unit (op_probability x))"

definition answer_ok :: "decision_question \<Rightarrow> decision_answer \<Rightarrow> bool" where
  "answer_ok q a \<longleftrightarrow> da_name a = dq_name q \<and> da_kind a = dq_kind q \<and>
     (da_refused a \<or>
      (case dq_kind q of
         DecisionYesNo \<Rightarrow> in_unit (da_probability a)
       | DecisionChoice \<Rightarrow> da_choice a \<in> do_value ` set (dq_options q) \<and> weighted q a
       | DecisionScore \<Rightarrow> f64_le 0 (da_score a) \<and> f64_le (da_score a) (f64_of_nat (length (dq_options q) - 1)) \<and> weighted q a
       | DecisionOther k \<Rightarrow> True))"

lemma with_probabilities_spec:
  "case with_probabilities provider a q conf p of
     Inl e \<Rightarrow> \<not> (is_probability conf \<and> (\<forall>j < length (dq_options q). is_probability (p j (dq_options q ! j))))
   | Inr a' \<Rightarrow> is_probability conf \<and> (\<forall>j < length (dq_options q). is_probability (p j (dq_options q ! j)))
       \<and> weighted q a' \<and> da_name a' = da_name a \<and> da_kind a' = da_kind a \<and> da_choice a' = da_choice a
       \<and> da_score a' = da_score a \<and> da_refused a' = da_refused a"
proof (cases "is_probability conf")
  case True
  then obtain x where "conf = Some x" "in_unit x" by (rule is_probabilityE)
  with True show ?thesis
    using option_probabilities_spec
      [where err = "answer_error provider q '' has a missing or out-of-range option probability''"
         and p = p and i = 0 and ds = "dq_options q"]
    by (auto simp: with_probabilities_def weighted_def split: sum.splits)
qed (simp add: with_probabilities_def)

text \<open>
  The \<open>switch q.Kind\<close> both conversions end in: the number or the choice (or why there is none)
  first, then the confidence and the probabilities of the options.
\<close>

definition graded_answer ::
  "string \<Rightarrow> decision_question \<Rightarrow> f64 option \<Rightarrow> go_error + string \<Rightarrow> f64 option \<Rightarrow> f64 option \<Rightarrow>
     (nat \<Rightarrow> decision_option \<Rightarrow> f64 option) \<Rightarrow> go_error + decision_answer" where
  "graded_answer provider q prob choice score confidence p =
     (let a = blank_answer q in
      case dq_kind q of
        DecisionYesNo \<Rightarrow>
          if \<not> is_probability prob then
            Inl (answer_error provider q '' has a missing or out-of-range probability'')
          else Inr (a\<lparr>da_probability := the prob\<rparr>)
      | DecisionChoice \<Rightarrow>
          (case choice of
             Inl e \<Rightarrow> Inl e
           | Inr v \<Rightarrow>
               if \<not> has_option (dq_options q) v then
                 Inl (answer_error provider q '' is not one of its options'')
               else with_probabilities provider (a\<lparr>da_choice := v\<rparr>) q confidence p)
      | DecisionScore \<Rightarrow>
          if \<not> is_score score (length (dq_options q)) then
            Inl (answer_error provider q '' has a missing or out-of-range score'')
          else with_probabilities provider (a\<lparr>da_score := the score\<rparr>) q confidence p
      | DecisionOther k \<Rightarrow> Inr a)"

text \<open>When that succeeds.\<close>

definition gradable ::
  "decision_question \<Rightarrow> f64 option \<Rightarrow> go_error + string \<Rightarrow> f64 option \<Rightarrow> f64 option \<Rightarrow>
     (nat \<Rightarrow> decision_option \<Rightarrow> f64 option) \<Rightarrow> bool" where
  "gradable q prob choice score confidence p \<longleftrightarrow>
     (let weights = is_probability confidence \<and> (\<forall>j < length (dq_options q). is_probability (p j (dq_options q ! j))) in
      case dq_kind q of
        DecisionYesNo \<Rightarrow> is_probability prob
      | DecisionChoice \<Rightarrow> (\<exists>v \<in> do_value ` set (dq_options q). choice = Inr v) \<and> weights
      | DecisionScore \<Rightarrow> is_score score (length (dq_options q)) \<and> weights
      | DecisionOther k \<Rightarrow> True)"

lemma has_option_iff: "has_option ds v \<longleftrightarrow> v \<in> do_value ` set ds"
  by (auto simp: has_option_def list_ex_iff)

lemma graded_answer_spec:
  "case graded_answer provider q prob choice score conf p of
     Inl e \<Rightarrow> \<not> gradable q prob choice score conf p
   | Inr a \<Rightarrow> gradable q prob choice score conf p \<and> answer_ok q a"
proof (cases "dq_kind q")
  case DecisionYesNo
  then show ?thesis
    by (auto simp: graded_answer_def gradable_def answer_ok_def blank_answer_def elim: is_probabilityE)
next
  case DecisionChoice
  show ?thesis
  proof (cases choice)
    case (Inr v)
    with DecisionChoice show ?thesis
      using with_probabilities_spec [where provider = provider and a = "(blank_answer q)\<lparr>da_choice := v\<rparr>" and q = q
        and conf = conf and p = p]
      by (auto simp: graded_answer_def gradable_def answer_ok_def blank_answer_def has_option_iff split: sum.splits)
  qed (use DecisionChoice in \<open>simp add: graded_answer_def gradable_def\<close>)
next
  case DecisionScore
  show ?thesis
  proof (cases "is_score score (length (dq_options q))")
    case True
    then obtain x where "score = Some x" "f64_le 0 x" "f64_le x (f64_of_nat (length (dq_options q) - 1))"
      by (rule is_scoreE)
    with True DecisionScore show ?thesis
      using with_probabilities_spec [where provider = provider and a = "(blank_answer q)\<lparr>da_score := x\<rparr>" and q = q
        and conf = conf and p = p]
      by (auto simp: graded_answer_def gradable_def answer_ok_def blank_answer_def split: sum.splits)
  qed (use DecisionScore in \<open>simp add: graded_answer_def gradable_def\<close>)
next
  case (DecisionOther k)
  then show ?thesis by (simp add: graded_answer_def gradable_def answer_ok_def blank_answer_def)
qed

text \<open>The loop over the questions, stopping at the first error.\<close>

fun convert_answers ::
  "(decision_question \<Rightarrow> go_error + decision_answer) \<Rightarrow> decision_question list \<Rightarrow>
     go_error + decision_answer list" where
  "convert_answers convert [] = Inr []"
| "convert_answers convert (q # qs) =
     (case convert q of
        Inl e \<Rightarrow> Inl e
      | Inr a \<Rightarrow> (case convert_answers convert qs of Inl e \<Rightarrow> Inl e | Inr as \<Rightarrow> Inr (a # as)))"

text \<open>
  A provider's conversion turns the answers \<open>r\<close> of a response into an answer to a question
  exactly when \<open>r\<close> has a usable one, and what it returns may be relied on.
\<close>

locale answer_source =
  fixes convert :: "'r \<Rightarrow> decision_question \<Rightarrow> go_error + decision_answer"
    and usable :: "'r \<Rightarrow> decision_question \<Rightarrow> bool"
  assumes converted: "convert r q = Inr a \<Longrightarrow> answer_ok q a \<and> usable r q"
    and refused: "convert r q = Inl e \<Longrightarrow> \<not> usable r q"
begin

lemma answers:
  "case convert_answers (convert r) qs of
     Inl e \<Rightarrow> \<not> list_all (usable r) qs
   | Inr as \<Rightarrow> list_all (usable r) qs \<and> list_all2 answer_ok qs as"
proof (induction qs)
  case (Cons q qs)
  then show ?case
    by (cases "convert r q") (auto dest: converted refused split: sum.splits)
qed simp

end

end
