(* ===== verification/OpenAIDecide.thy ===== *)
theory OpenAIDecide
  imports Decisions OpenAIChat
begin

text \<open>
  The OpenAI decision models (\<open>openai/decide.go\<close>). \<open>json.Unmarshal\<close> of a \<open>json.RawMessage\<close> into
  a string or an int is a parameter.
\<close>

subsection \<open>The request\<close>

definition default_decision_model :: string where
  "default_decision_model = ''gpt-6-luna''"

record d_content =
  dc_type :: string
  dc_text :: string
  dc_image_url :: string

datatype d_input = DecisionText string | DecisionMessage string "d_content list"

record d_question =
  dqw_type :: string
  dqw_name :: string
  dqw_instructions :: string
  dqw_choices :: "decision_option list"
  dqw_levels :: "decision_option list"

record d_request =
  drw_model :: string
  drw_input :: d_input
  drw_questions :: "d_question list"

definition decision_wire_type :: "decision_kind \<Rightarrow> string" where
  "decision_wire_type k =
     (case k of
        DecisionYesNo \<Rightarrow> ''predicate''
      | DecisionChoice \<Rightarrow> ''choice''
      | DecisionScore \<Rightarrow> ''score''
      | DecisionOther s \<Rightarrow> [])"

definition d_image_part :: "image_content \<Rightarrow> d_content" where
  "d_image_part img = \<lparr>dc_type = ''input_image'', dc_text = [],
     dc_image_url = (if img_url img = [] then data_url (img_media_type img) (img_data img) else img_url img)\<rparr>"

definition d_question_of :: "decision_question \<Rightarrow> d_question" where
  "d_question_of q = \<lparr>dqw_type = decision_wire_type (dq_kind q), dqw_name = dq_name q,
     dqw_instructions = dq_instructions q,
     dqw_choices = (if dq_kind q = DecisionChoice then dq_options q else []),
     dqw_levels = (if dq_kind q = DecisionChoice then [] else dq_options q)\<rparr>"

definition d_build_request :: "decision_request \<Rightarrow> d_request" where
  "d_build_request req =
     \<lparr>drw_model = (if dr_model req = [] then default_decision_model else dr_model req),
      drw_input =
        (if dr_images req \<noteq> [] then
           DecisionMessage ''user''
             ((if dr_input req \<noteq> [] then [\<lparr>dc_type = ''input_text'', dc_text = dr_input req, dc_image_url = []\<rparr>] else [])
              @ map d_image_part (dr_images req))
         else DecisionText (dr_input req)),
      drw_questions = map d_question_of (dr_questions req)\<rparr>"

subsection \<open>The response\<close>

record d_probability =
  dp_value :: bytes
  dp_probability :: "f64 option"

record d_answer =
  daw_type :: string
  daw_name :: string
  daw_probability :: "f64 option"
  daw_choice :: bytes
  daw_score :: "f64 option"
  daw_confidence :: "f64 option"
  daw_probabilities :: "d_probability list"

record d_response =
  drs_model :: string
  drs_answers :: "d_answer list"
  drs_input_tokens :: int
  drs_output_tokens :: int
  drs_total_tokens :: int

record json_scalars =
  js_string :: "bytes \<Rightarrow> string option"
  js_int :: "bytes \<Rightarrow> int option"

text \<open>The \<open>byName\<close> map: answers to questions nobody asked are dropped, a second answer is an error.\<close>

fun answers_by_name :: "string set \<Rightarrow> (string \<rightharpoonup> d_answer) \<Rightarrow> d_answer list \<Rightarrow> go_error + (string \<rightharpoonup> d_answer)" where
  "answers_by_name asked m [] = Inr m"
| "answers_by_name asked m (a # as) =
     (if daw_name a \<notin> asked then answers_by_name asked m as
      else if m (daw_name a) \<noteq> None then
        Inl (provider_err openai_name ErrProviderError
          (''response has more than one answer for question '' @ go_quote (daw_name a)))
      else answers_by_name asked (m(daw_name a \<mapsto> a)) as)"

text \<open>The \<open>probs\<close> maps: by option value, and by the value of the level at an index.\<close>

fun choice_probs :: "json_scalars \<Rightarrow> (string \<rightharpoonup> f64 option) \<Rightarrow> d_probability list \<Rightarrow> (string \<rightharpoonup> f64 option)" where
  "choice_probs J m [] = m"
| "choice_probs J m (p # ps) =
     choice_probs J (case js_string J (dp_value p) of None \<Rightarrow> m | Some v \<Rightarrow> m(v \<mapsto> dp_probability p)) ps"

fun level_probs :: "json_scalars \<Rightarrow> decision_option list \<Rightarrow> (string \<rightharpoonup> f64 option) \<Rightarrow> d_probability list \<Rightarrow> (string \<rightharpoonup> f64 option)" where
  "level_probs J options m [] = m"
| "level_probs J options m (p # ps) =
     level_probs J options
       (case js_int J (dp_value p) of
          None \<Rightarrow> m
        | Some i \<Rightarrow> if i < 0 \<or> int (length options) \<le> i then m
                    else m(do_value (options ! nat i) \<mapsto> dp_probability p)) ps"

definition prob_of :: "(string \<rightharpoonup> f64 option) \<Rightarrow> nat \<Rightarrow> decision_option \<Rightarrow> f64 option" where
  "prob_of m i d = Option.bind (m (do_value d)) id"

definition d_convert_answer ::
  "json_scalars \<Rightarrow> (string \<rightharpoonup> d_answer) \<Rightarrow> decision_question \<Rightarrow> go_error + decision_answer" where
  "d_convert_answer J by_name q =
     (case by_name (dq_name q) of
        None \<Rightarrow> Inl (no_answer openai_name q)
      | Some wa \<Rightarrow>
          if daw_type wa = ''refusal'' then Inr ((blank_answer q)\<lparr>da_refused := True\<rparr>)
          else if daw_type wa \<noteq> decision_wire_type (dq_kind q) then
            Inl (answer_error openai_name q '' has an unexpected type'')
          else graded_answer openai_name q (daw_probability wa)
                 (case js_string J (daw_choice wa) of
                    None \<Rightarrow> Inl (answer_error openai_name q '' has a non-string choice'') | Some v \<Rightarrow> Inr v)
                 (daw_score wa) (daw_confidence wa)
                 (prob_of (if dq_kind q = DecisionChoice then choice_probs J Map.empty (daw_probabilities wa)
                           else level_probs J (dq_options q) Map.empty (daw_probabilities wa))))"

subsection \<open>\<open>Decide\<close>\<close>

definition d_usage :: "d_response \<Rightarrow> token_usage" where
  "d_usage r = zero_usage\<lparr>us_prompt := drs_input_tokens r, us_completion := drs_output_tokens r,
     us_total := drs_total_tokens r\<rparr>"

definition d_answers :: "json_scalars \<Rightarrow> decision_question list \<Rightarrow> d_response \<Rightarrow> go_error + decision_response" where
  "d_answers J qs raw =
     (case answers_by_name (dq_name ` set qs) Map.empty (drs_answers raw) of
        Inl e \<Rightarrow> Inl e
      | Inr by_name \<Rightarrow>
          map_sum id (\<lambda>as. \<lparr>ds_answers = as, ds_model = drs_model raw, ds_usage = d_usage raw\<rparr>)
            (convert_answers (d_convert_answer J by_name) qs))"

text \<open>\<open>post\<close> is \<open>DoJSON\<close> on /decisions: the result, the decoded body, and \<open>ctx.Err()\<close> after it.\<close>

definition openai_decide ::
  "(bytes \<Rightarrow> o_error) \<Rightarrow> json_scalars \<Rightarrow> (d_request \<Rightarrow> 'w \<Rightarrow> (json_result \<times> d_response \<times> go_error option) \<times> 'w) \<Rightarrow>
     o_client \<Rightarrow> decision_request \<Rightarrow> 'w \<Rightarrow> (go_error + decision_response) \<times> o_client \<times> 'w" where
  "openai_decide unmarshal J post c req w =
     (case validate_decision req of
        Some pe \<Rightarrow> (Inl (ProviderErr (pe\<lparr>pe_provider := openai_name\<rparr>)), c, w)
      | None \<Rightarrow>
          (let ((jr, raw, ctx_err), w1) = post (d_build_request req) w in
           if jr_err jr \<noteq> None \<and> ctx_err \<noteq> None then (Inl (the ctx_err), c, w1)
           else (case check_status (openai_map_error unmarshal c) openai_decode_error jr of
                   Some e \<Rightarrow> (Inl e, c, w1)
                 | None \<Rightarrow> (d_answers J (dr_questions req) raw, openai_add_usage c (d_usage raw), w1))))"

subsection \<open>What a caller may rely on\<close>

text \<open>A wire answer that answers \<open>q\<close>: a refusal, or an answer of its kind with every number in range.\<close>

definition d_usable :: "json_scalars \<Rightarrow> decision_question \<Rightarrow> d_answer \<Rightarrow> bool" where
  "d_usable J q wa \<longleftrightarrow> daw_type wa = ''refusal'' \<or>
     daw_type wa = decision_wire_type (dq_kind q) \<and>
     gradable q (daw_probability wa)
       (case js_string J (daw_choice wa) of None \<Rightarrow> Inl EofErr | Some v \<Rightarrow> Inr v)
       (daw_score wa) (daw_confidence wa)
       (prob_of (if dq_kind q = DecisionChoice then choice_probs J Map.empty (daw_probabilities wa)
                 else level_probs J (dq_options q) Map.empty (daw_probabilities wa)))"

definition d_answered :: "json_scalars \<Rightarrow> (string \<rightharpoonup> d_answer) \<Rightarrow> decision_question \<Rightarrow> bool" where
  "d_answered J m q \<longleftrightarrow> (\<exists>wa. m (dq_name q) = Some wa \<and> d_usable J q wa)"

lemma gradable_choice:
  "gradable q prob (case x of None \<Rightarrow> Inl e | Some v \<Rightarrow> Inr v) score conf p
    = gradable q prob (case x of None \<Rightarrow> Inl e' | Some v \<Rightarrow> Inr v) score conf p"
  by (cases x) (auto simp: gradable_def split: decision_kind.split)

lemma wire_type_not_refusal [simp]: "decision_wire_type k \<noteq> ''refusal''"
  by (cases k) (simp_all add: decision_wire_type_def)

lemma d_convert_usable:
  assumes "m (dq_name q) = Some wa"
  shows "case d_convert_answer J m q of
     Inl e \<Rightarrow> \<not> d_usable J q wa | Inr a \<Rightarrow> d_usable J q wa \<and> answer_ok q a"
proof (cases "daw_type wa = ''refusal'' \<or> daw_type wa \<noteq> decision_wire_type (dq_kind q)")
  case True
  with assms show ?thesis
    by (auto simp: d_convert_answer_def d_usable_def answer_ok_def blank_answer_def)
next
  case False
  let ?choice = "\<lambda>e. case js_string J (daw_choice wa) of None \<Rightarrow> Inl e | Some v \<Rightarrow> Inr v"
  let ?p = "prob_of (if dq_kind q = DecisionChoice then choice_probs J Map.empty (daw_probabilities wa)
                     else level_probs J (dq_options q) Map.empty (daw_probabilities wa))"
  have "d_convert_answer J m q = graded_answer openai_name q (daw_probability wa)
      (?choice (answer_error openai_name q '' has a non-string choice'')) (daw_score wa) (daw_confidence wa) ?p"
    using False assms by (simp add: d_convert_answer_def)
  moreover have "d_usable J q wa \<longleftrightarrow> gradable q (daw_probability wa)
      (?choice (answer_error openai_name q '' has a non-string choice'')) (daw_score wa) (daw_confidence wa) ?p"
    using False gradable_choice by (simp add: d_usable_def)
  ultimately show ?thesis by (simp only: graded_answer_spec)
qed

interpretation openai_answers: answer_source "d_convert_answer J" "d_answered J" for J
proof unfold_locales
  fix m q
  show "d_convert_answer J m q = Inr a \<Longrightarrow> answer_ok q a \<and> d_answered J m q" for a
    using d_convert_usable [of m q _ J]
    by (cases "m (dq_name q)") (auto simp: d_answered_def d_convert_answer_def)
  show "d_convert_answer J m q = Inl e \<Longrightarrow> \<not> d_answered J m q" for e
    using d_convert_usable [of m q _ J] by (auto simp: d_answered_def)
qed

lemma answers_by_name_spec:
  "case answers_by_name asked m as of
     Inl e \<Rightarrow> \<exists>n \<in> asked. Suc 0 < (case m n of None \<Rightarrow> 0 | Some a \<Rightarrow> 1) + length (filter (\<lambda>a. daw_name a = n) as)
   | Inr m' \<Rightarrow> \<forall>n \<in> asked.
       (case m n of None \<Rightarrow> [] | Some a \<Rightarrow> [a]) @ filter (\<lambda>a. daw_name a = n) as
         = (case m' n of None \<Rightarrow> [] | Some a \<Rightarrow> [a])"
proof (induction as arbitrary: m)
  case (Cons a as)
  show ?case
  proof (cases "daw_name a \<in> asked \<and> m (daw_name a) = None")
    case True
    define m1 where "m1 = m(daw_name a \<mapsto> a)"
    have m1: "m1 n = (if n = daw_name a then Some a else m n)" for n by (simp add: m1_def)
    have "answers_by_name asked m (a # as) = answers_by_name asked m1 as" using True by (simp add: m1_def)
    moreover have "(case m1 n of None \<Rightarrow> [] | Some a \<Rightarrow> [a]) @ filter (\<lambda>a. daw_name a = n) as
        = (case m n of None \<Rightarrow> [] | Some a \<Rightarrow> [a]) @ filter (\<lambda>a. daw_name a = n) (a # as)"
      and "(case m1 n of None \<Rightarrow> 0 | Some a \<Rightarrow> 1) + length (filter (\<lambda>a. daw_name a = n) as)
        = (case m n of None \<Rightarrow> 0 | Some a \<Rightarrow> 1) + length (filter (\<lambda>a. daw_name a = n) (a # as))" for n
      using True m1 [of n] by auto
    ultimately show ?thesis using Cons.IH [of m1]
      by (cases "answers_by_name asked m1 as") (simp_all only: sum.case)
  next
    case other: False
    show ?thesis
    proof (cases "daw_name a \<in> asked")
      case True
      with other have "Suc 0 < (case m (daw_name a) of None \<Rightarrow> 0 | Some a \<Rightarrow> 1)
          + length (filter (\<lambda>b. daw_name b = daw_name a) (a # as))" by auto
      with True other show ?thesis by (auto simp del: filter.simps)
    next
      case False
      then have "n \<in> asked \<Longrightarrow> filter (\<lambda>b. daw_name b = n) (a # as) = filter (\<lambda>b. daw_name b = n) as" for n by auto
      with False Cons.IH [of m] show ?thesis
        by (cases "answers_by_name asked m as") (simp_all cong: bex_cong ball_cong)
    qed
  qed
qed (simp split: option.split)

text \<open>Every question has exactly one answer in the response, and it can be used.\<close>

definition response_usable :: "json_scalars \<Rightarrow> decision_question list \<Rightarrow> d_response \<Rightarrow> bool" where
  "response_usable J qs raw \<longleftrightarrow>
     list_all (\<lambda>q. \<exists>wa. filter (\<lambda>a. daw_name a = dq_name q) (drs_answers raw) = [wa] \<and> d_usable J q wa) qs"

lemma d_answers_spec:
  "case d_answers J qs raw of
     Inl e \<Rightarrow> \<not> response_usable J qs raw
   | Inr resp \<Rightarrow> response_usable J qs raw \<and> list_all2 answer_ok qs (ds_answers resp) \<and> ds_usage resp = d_usage raw"
proof (cases "answers_by_name (dq_name ` set qs) Map.empty (drs_answers raw)")
  case (Inl e)
  then obtain q where "q \<in> set qs" "Suc 0 < length (filter (\<lambda>a. daw_name a = dq_name q) (drs_answers raw))"
    using answers_by_name_spec [of "dq_name ` set qs" Map.empty "drs_answers raw"] by auto
  then have "\<not> response_usable J qs raw" by (force simp: response_usable_def list_all_iff)
  with Inl show ?thesis by (simp add: d_answers_def)
next
  case (Inr m)
  then have "filter (\<lambda>a. daw_name a = dq_name q) (drs_answers raw) = (case m (dq_name q) of None \<Rightarrow> [] | Some a \<Rightarrow> [a])"
    if "q \<in> set qs" for q
    using answers_by_name_spec [of "dq_name ` set qs" Map.empty "drs_answers raw"] that by auto
  then have "list_all (d_answered J m) qs \<longleftrightarrow> response_usable J qs raw"
    unfolding response_usable_def list_all_iff d_answered_def by (intro ball_cong) (auto split: option.splits)
  with Inr openai_answers.answers [of J m qs] show ?thesis by (auto simp: d_answers_def split: sum.splits)
qed

text \<open>
  C38: Decide succeeds exactly when the request is valid, the call succeeded, and the response
  has exactly one usable answer to every question: a refusal, or an answer of the question's
  kind whose choice is one of the options and whose numbers are all present and in range. The
  answers then come one per question, in order, with the probabilities in the order of the
  options, and the tokens of every call that succeeded are counted once.
\<close>

theorem openai_decide_exact:
  "case post (d_build_request req) w of
     ((jr, raw, ctx_err), w1) \<Rightarrow>
       (case openai_decide unmarshal J post c req w of
          (res, c', w') \<Rightarrow>
            (case res of
               Inr resp \<Rightarrow> decision_ok req \<and> 200 \<le> jr_status jr \<and> jr_status jr < 300 \<and> jr_err jr = None
                 \<and> response_usable J (dr_questions req) raw
                 \<and> list_all2 answer_ok (dr_questions req) (ds_answers resp)
             | Inl e \<Rightarrow> \<not> (decision_ok req \<and> 200 \<le> jr_status jr \<and> jr_status jr < 300 \<and> jr_err jr = None
                 \<and> response_usable J (dr_questions req) raw))
            \<and> oc_usage c' = (if decision_ok req \<and> 200 \<le> jr_status jr \<and> jr_status jr < 300 \<and> jr_err jr = None
                then usage_add (oc_usage c) (d_usage raw) else oc_usage c))"
proof -
  obtain jr raw ctx_err w1 where post: "post (d_build_request req) w = ((jr, raw, ctx_err), w1)" by (metis surj_pair)
  show ?thesis
  proof (cases "decision_ok req")
    case True
    then have "validate_decision req = None"
      using validate_decision_None by simp
    with True post show ?thesis
      using d_answers_spec [of J "dr_questions req" raw]
        check_status_None [of "openai_map_error unmarshal c" openai_decode_error jr]
      by (auto simp: openai_decide_def openai_add_usage_def split: option.splits sum.splits)
  next
    case False
    then obtain pe where "validate_decision req = Some pe"
      using validate_decision_None by (cases "validate_decision req") auto
    with False post show ?thesis by (simp add: openai_decide_def)
  qed
qed

end
