(* ===== verification/GeminiWire.thy ===== *)
theory GeminiWire
  imports ProviderBase Assembly Requests
begin

text \<open>
  Gemini's wire format (\<open>gemini.go\<close>, \<open>adapt.go\<close>): the client, what it has learned about
  thinking levels, the conversion of a conversation to contents, and the parsing of responses
  and stream chunks. A Go \<open>map[string]any\<close> is a decoded JSON object; decoding and encoding
  JSON are parameters.
\<close>

subsection \<open>The client\<close>

definition gemini_name :: string where
  "gemini_name = ''gemini''"

record 'x g_client =
  gc_api_key :: string
  gc_model :: string
  gc_base_url :: string
  gc_opts :: "'x client_options"
  gc_usage :: token_usage
  gc_rejected_thinking :: "string list"
  gc_log :: "(string \<times> string) list"

definition gemini_new ::
  "(string \<Rightarrow> bytes option) \<Rightarrow> (string \<Rightarrow> go_error) \<Rightarrow> base_client option \<Rightarrow> 'x client_options \<Rightarrow>
     go_error + 'x g_client \<times> http_client" where
  "gemini_new read_file parse_err base opts0 =
     map_sum id (\<lambda>su. (\<lparr>gc_api_key = opt_api_key (su_opts su), gc_model = opt_model (su_opts su),
                       gc_base_url = su_base_url su, gc_opts = su_opts su, gc_usage = zero_usage,
                       gc_rejected_thinking = [], gc_log = []\<rparr>, su_http su))
       (provider_new read_file parse_err gemini_name ''https://generativelanguage.googleapis.com'' base opts0)"

definition gemini_add_usage :: "'x g_client \<Rightarrow> token_usage \<Rightarrow> 'x g_client" where
  "gemini_add_usage c u = c\<lparr>gc_usage := usage_add (gc_usage c) u\<rparr>"

definition gemini_reset_usage :: "'x g_client \<Rightarrow> 'x g_client" where
  "gemini_reset_usage c = c\<lparr>gc_usage := zero_usage\<rparr>"

definition gemini_headers :: "'x g_client \<Rightarrow> headers" where
  "gemini_headers c =
     (''Content-Type'', ''application/json'')
       # (if gc_api_key c \<noteq> [] then [(''x-goog-api-key'', gc_api_key c)] else [])"

subsection \<open>Thinking levels\<close>

text \<open>\<open>None\<close> is the missing entry for an unset effort.\<close>

definition thinking_levels :: "effort \<Rightarrow> string option" where
  "thinking_levels e =
     (case e of
        EffortNone \<Rightarrow> Some ''minimal''
      | EffortMinimal \<Rightarrow> Some ''minimal''
      | EffortLow \<Rightarrow> Some ''low''
      | EffortMedium \<Rightarrow> Some ''medium''
      | EffortHigh \<Rightarrow> Some ''high''
      | EffortXHigh \<Rightarrow> Some ''high''
      | EffortMax \<Rightarrow> Some ''high''
      | _ \<Rightarrow> None)"

definition thinking_level :: "'x g_client \<Rightarrow> 'x chat_request \<Rightarrow> go_error + string" where
  "thinking_level c req =
     (case effective_effort req (opt_effort (gc_opts c)) of
        Inl pe \<Rightarrow> Inl (ProviderErr (pe\<lparr>pe_provider := gemini_name\<rparr>))
      | Inr e \<Rightarrow>
          (let level = (case thinking_levels e of None \<Rightarrow> [] | Some l \<Rightarrow> l) in
           if level \<in> set (gc_rejected_thinking c) then Inr [] else Inr level))"

subsection \<open>Contents\<close>

datatype json = JNull | JBool bool | JNumber string | JString string | JArray "json list"
  | JObject "(string \<times> json) list"

text \<open>A \<open>map[string]any\<close>, nil or a decoded object.\<close>

type_synonym json_map = "(string \<times> json) list option"

text \<open>
  \<open>gj_object\<close> is \<open>json.Unmarshal\<close> into a \<open>map[string]any\<close>: the outer \<open>None\<close> is its error, after
  which the map is still nil; JSON null leaves it nil without one. \<open>gj_marshal\<close> is \<open>json.Marshal\<close>.
\<close>

record g_json =
  gj_object :: "bytes \<Rightarrow> json_map option"
  gj_marshal :: "json_map \<Rightarrow> bytes"

record g_part =
  gp_text :: string
  gp_inline :: "(string \<times> bytes) option"
  gp_file :: "(string \<times> string) option"
  gp_call :: "(string \<times> json_map) option"
  gp_response :: "(string \<times> json_map) option"
  gp_signature :: string

record g_content =
  gn_role :: string
  gn_parts :: "g_part list"

definition blank_part :: g_part where
  "blank_part = \<lparr>gp_text = [], gp_inline = None, gp_file = None, gp_call = None, gp_response = None,
     gp_signature = []\<rparr>"

definition map_role :: "string \<Rightarrow> string" where
  "map_role r =
     (if r = ''assistant'' then ''model''
      else if r = ''tool'' \<or> r = ''system'' then ''user''
      else r)"

text \<open>\<open>BlockImage\<close> and \<open>BlockDocument\<close>: a URL, or data, or neither.\<close>

definition media_part :: "string \<Rightarrow> bytes \<Rightarrow> string \<Rightarrow> g_part list" where
  "media_part url data media_type =
     (if url \<noteq> [] then [blank_part\<lparr>gp_file := Some (media_type, url)\<rparr>]
      else if data \<noteq> [] then [blank_part\<lparr>gp_inline := Some (media_type, data)\<rparr>]
      else [])"

definition json_to_map :: "json_map \<Rightarrow> json" where
  "json_to_map m = (case m of None \<Rightarrow> JNull | Some kvs \<Rightarrow> JObject kvs)"

definition function_response :: "g_json \<Rightarrow> content_block \<Rightarrow> (string \<rightharpoonup> string) \<Rightarrow> string \<times> json_map" where
  "function_response J b names =
     (let name = (case names (cb_tool_use_id b) of
                    Some n \<Rightarrow> n | None \<Rightarrow> trim_prefix (cb_tool_use_id b) ''gemini-tool-'');
          key = (if cb_is_error b then ''error'' else ''result'')
      in (name,
          if cb_is_error b \<and> cb_text b = [] then Some [(key, JString unspecified_error)]
          else (case gj_object J (cb_text b) of
                  None \<Rightarrow> Some [(key, JString (cb_text b))]
                | Some m \<Rightarrow> if cb_is_error b then Some [(key, json_to_map m)] else m)))"

definition call_args :: "g_json \<Rightarrow> bytes \<Rightarrow> json_map" where
  "call_args J input =
     (if input = [] then None else (case gj_object J input of None \<Rightarrow> None | Some m \<Rightarrow> m))"

text \<open>One turn of the loop over the blocks: the part it appends, and the names it knows after it.\<close>

definition block_parts :: "g_json \<Rightarrow> (string \<rightharpoonup> string) \<Rightarrow> content_block \<Rightarrow> g_part list" where
  "block_parts J names b =
     (case cb_type b of
        BlockText \<Rightarrow> if cb_text b = [] then [] else [blank_part\<lparr>gp_text := cb_text b\<rparr>]
      | BlockImage \<Rightarrow>
          (case cb_image b of None \<Rightarrow> [] | Some i \<Rightarrow> media_part (img_url i) (img_data i) (img_media_type i))
      | BlockDocument \<Rightarrow>
          (case cb_document b of None \<Rightarrow> [] | Some d \<Rightarrow> media_part (doc_url d) (doc_data d) (doc_media_type d))
      | BlockToolUse \<Rightarrow>
          (case cb_tool_use b of
             None \<Rightarrow> []
           | Some t \<Rightarrow> [blank_part\<lparr>gp_call := Some (tu_name t, call_args J (tu_input t)),
                                  gp_signature := tu_signature t\<rparr>])
      | BlockToolResult \<Rightarrow> [blank_part\<lparr>gp_response := Some (function_response J b names)\<rparr>]
      | _ \<Rightarrow> [])"

definition learn_name :: "(string \<rightharpoonup> string) \<Rightarrow> content_block \<Rightarrow> (string \<rightharpoonup> string)" where
  "learn_name names b =
     (case (cb_type b, cb_tool_use b) of
        (BlockToolUse, Some t) \<Rightarrow> if tu_id t \<noteq> [] then names(tu_id t \<mapsto> tu_name t) else names
      | _ \<Rightarrow> names)"

fun convert_blocks :: "g_json \<Rightarrow> (string \<rightharpoonup> string) \<Rightarrow> content_block list \<Rightarrow> g_part list \<times> (string \<rightharpoonup> string)" where
  "convert_blocks J names [] = ([], names)"
| "convert_blocks J names (b # bs) =
     (let (ps, names') = convert_blocks J (learn_name names b) bs in (block_parts J names b @ ps, names'))"

definition g_convert_message ::
  "g_json \<Rightarrow> (string \<rightharpoonup> string) \<Rightarrow> message \<Rightarrow> g_content list \<times> (string \<rightharpoonup> string)" where
  "g_convert_message J names m =
     (let (parts, names') = convert_blocks J names (msg_content m)
      in (if parts = [] then [] else [\<lparr>gn_role = map_role (role_str (msg_role m)), gn_parts = parts\<rparr>], names'))"

fun g_contents :: "g_json \<Rightarrow> (string \<rightharpoonup> string) \<Rightarrow> message list \<Rightarrow> g_content list" where
  "g_contents J names [] = []"
| "g_contents J names (m # ms) =
     (let (cs, names') = g_convert_message J names m in cs @ g_contents J names' ms)"

definition g_convert_messages :: "g_json \<Rightarrow> 'x chat_request \<Rightarrow> go_error + g_content list" where
  "g_convert_messages J req =
     (let contents = g_contents J Map.empty (req_messages req) in
      if contents = [] then
        Inl (provider_err gemini_name ErrInvalidRequest
          (if req_messages req \<noteq> [] then
             ''no messages to send: every message had empty or unrepresentable content''
           else ''no messages to send: the request carries no messages''))
      else Inr contents)"

subsection \<open>The request\<close>

record g_config =
  gg_max_tokens :: "int option"
  gg_temperature :: "f64 option"
  gg_json :: bool
  gg_schema :: "json_map option"
  gg_stop :: "string list"
  gg_thinking :: string

record g_declaration =
  gd_name :: string
  gd_description :: string
  gd_parameters :: bytes

record g_request =
  gr_contents :: "g_content list"
  gr_tools :: "g_declaration list"
  gr_tool_config :: "(string \<times> string list) option"
  gr_system :: "g_content option"
  gr_config :: "g_config option"

definition g_format :: "g_json \<Rightarrow> response_format option \<Rightarrow> bool \<times> json_map option" where
  "g_format J rf =
     (case rf of
        None \<Rightarrow> (False, None)
      | Some f \<Rightarrow>
          (case rf_type f of
             ResponseFormatJSON \<Rightarrow> (True, None)
           | ResponseFormatJSONSchema \<Rightarrow> (True, gj_object J (rf_schema f))
           | _ \<Rightarrow> (False, None)))"

definition empty_config :: g_config where
  "empty_config = \<lparr>gg_max_tokens = None, gg_temperature = None, gg_json = False, gg_schema = None,
     gg_stop = [], gg_thinking = []\<rparr>"

definition g_config_of :: "g_json \<Rightarrow> 'x g_client \<Rightarrow> 'x chat_request \<Rightarrow> string \<Rightarrow> g_config" where
  "g_config_of J c req level =
     \<lparr>gg_max_tokens = (if req_max_tokens req \<noteq> None then req_max_tokens req else opt_max_tokens (gc_opts c)),
      gg_temperature = (if req_temperature req \<noteq> None then req_temperature req else opt_temperature (gc_opts c)),
      gg_json = fst (g_format J (req_format req)), gg_schema = snd (g_format J (req_format req)),
      gg_stop = req_stop req, gg_thinking = level\<rparr>"

definition g_declarations :: "'x g_client \<Rightarrow> 'x chat_request \<Rightarrow> g_declaration list" where
  "g_declarations c req =
     map (\<lambda>t. \<lparr>gd_name = tool_name t,
               gd_description = effective_tool_description t (use_compact_descriptions req (gc_base_url c)),
               gd_parameters = tool_schema t\<rparr>) (req_tools req)"

definition g_tool_config :: "tool_choice \<Rightarrow> string \<times> string list" where
  "g_tool_config tc =
     (case tc_mode tc of
        ToolChoiceAuto \<Rightarrow> (''AUTO'', [])
      | ToolChoiceNone \<Rightarrow> (''NONE'', [])
      | ToolChoiceRequired \<Rightarrow> (''ANY'', [])
      | ToolChoiceSpecific \<Rightarrow> (''ANY'', [tc_name tc])
      | ToolChoiceOther _ \<Rightarrow> ([], []))"

definition g_build_request :: "g_json \<Rightarrow> 'x g_client \<Rightarrow> 'x chat_request \<Rightarrow> go_error + g_request" where
  "g_build_request J c req =
     (case g_convert_messages J req of
        Inl e \<Rightarrow> Inl e
      | Inr contents \<Rightarrow>
          (case thinking_level c req of
             Inl e \<Rightarrow> Inl e
           | Inr level \<Rightarrow>
               (let config = g_config_of J c req level in
                Inr \<lparr>gr_contents = contents, gr_tools = g_declarations c req,
                     gr_tool_config = map_option g_tool_config (req_tool_choice req),
                     gr_system = (if req_system req \<noteq> [] then
                        Some \<lparr>gn_role = [], gn_parts = [blank_part\<lparr>gp_text := req_system req\<rparr>]\<rparr> else None),
                     gr_config = (if config = empty_config then None else Some config)\<rparr>)))"

subsection \<open>Responses\<close>

record g_usage =
  gu_prompt :: int
  gu_candidates :: int
  gu_total :: int

record g_candidate =
  gk_parts :: "g_part list"
  gk_finish_reason :: string

record g_response =
  gs_candidates :: "g_candidate list"
  gs_usage :: g_usage

definition g_usage_of :: "g_usage \<Rightarrow> token_usage" where
  "g_usage_of u = zero_usage\<lparr>us_prompt := gu_prompt u, us_completion := gu_candidates u, us_total := gu_total u\<rparr>"

definition g_stop_reason :: "string \<Rightarrow> stop_reason" where
  "g_stop_reason r =
     (if r = ''STOP'' then StopReasonEndTurn
      else if r = ''MAX_TOKENS'' then StopReasonMaxTokens
      else if r \<in> {''SAFETY'', ''RECITATION'', ''PROHIBITED_CONTENT'', ''BLOCKLIST'', ''SPII''} then StopReasonContentFilter
      else StopReasonEndTurn)"

text \<open>The call of a part, as Chat and ChatStream both hand it to the caller.\<close>

definition received_call :: "g_json \<Rightarrow> g_part \<Rightarrow> tool_use option" where
  "received_call J p =
     map_option (\<lambda>(name, args). \<lparr>tu_id = ''gemini-tool-'' @ name, tu_name = name, tu_input = gj_marshal J args,
                                tu_signature = gp_signature p\<rparr>) (gp_call p)"

definition part_blocks :: "g_json \<Rightarrow> g_part \<Rightarrow> content_block list" where
  "part_blocks J p =
     (if gp_text p \<noteq> [] then [text_block (gp_text p)] else [])
     @ (case received_call J p of None \<Rightarrow> [] | Some t \<Rightarrow> [tool_use_block t])"

definition g_parse_response :: "g_json \<Rightarrow> g_response \<Rightarrow> chat_response" where
  "g_parse_response J r =
     (let usage = g_usage_of (gs_usage r) in
      case gs_candidates r of
        [] \<Rightarrow> \<lparr>resp_content = [], resp_stop = StopReasonUnset, resp_usage = usage\<rparr>
      | k # _ \<Rightarrow>
          (let content = concat (map (part_blocks J) (gk_parts k)) in
           \<lparr>resp_content = content,
            resp_stop = (if gk_finish_reason k = ''STOP'' \<and> list_ex (\<lambda>b. cb_type b = BlockToolUse) content
                         then StopReasonToolUse else g_stop_reason (gk_finish_reason k)),
            resp_usage = usage\<rparr>))"

subsection \<open>Streaming\<close>

definition part_chunks :: "g_json \<Rightarrow> g_part \<Rightarrow> chunk list" where
  "part_chunks J p =
     (if gp_text p \<noteq> [] then [text_chunk (gp_text p)] else [])
     @ (case received_call J p of None \<Rightarrow> [] | Some t \<Rightarrow> [tool_start_chunk t])"

text \<open>One chunk of the stream: the usage kept, the chunks sent and the usages counted.\<close>

definition g_stream_chunk ::
  "g_json \<Rightarrow> g_usage option \<Rightarrow> g_response \<Rightarrow> g_usage option \<times> chunk list \<times> token_usage list" where
  "g_stream_chunk J last_usage r =
     (let seen = (if 0 < gu_total (gs_usage r) then Some (gs_usage r) else last_usage) in
      case gs_candidates r of
        [] \<Rightarrow> (seen, [], [])
      | k # _ \<Rightarrow>
          (let sent = concat (map (part_chunks J) (gk_parts k)) in
           if gk_finish_reason k = [] then (seen, sent, [])
           else (case seen of
                   None \<Rightarrow> (seen, sent @ [done_chunk zero_usage], [])
                 | Some u \<Rightarrow> (seen, sent @ [done_chunk (g_usage_of u)], [g_usage_of u]))))"

text \<open>
  The goroutine over the data of the events: the chunks and the error it sends, and the usages
  it counts. \<open>scan_err\<close> is \<open>scanner.Err()\<close> at the end of the stream.
\<close>

fun g_stream_loop ::
  "g_json \<Rightarrow> (string \<Rightarrow> go_error + g_response) \<Rightarrow> go_error option \<Rightarrow> g_usage option \<Rightarrow> string list \<Rightarrow>
     chunk list \<times> go_error option \<times> token_usage list" where
  "g_stream_loop J decode scan_err u [] = ([], map_option (WrapErr ''read stream: '') scan_err, [])"
| "g_stream_loop J decode scan_err u (d # ds) =
     (case decode d of
        Inl e \<Rightarrow> ([], Some (WrapErr ''decode stream chunk: '' e), [])
      | Inr r \<Rightarrow>
          (let (u', cs, us) = g_stream_chunk J u r;
               (rest, err, more) = g_stream_loop J decode scan_err u' ds
           in (cs @ rest, err, us @ more)))"

end
