(* ===== verification/GeminiChat.thy ===== *)
theory GeminiChat
  imports GeminiWire
begin

text \<open>
  The Gemini client (\<open>gemini.go\<close>, \<open>adapt.go\<close>): adapting to a refused thinking level, \<open>Chat\<close> and
  \<open>ChatStream\<close> with their one resend, embeddings and model listing.
\<close>

subsection \<open>Errors\<close>

definition gemini_sentinel :: "int \<Rightarrow> sentinel" where
  "gemini_sentinel status =
     (if status = 401 \<or> status = 403 then ErrAuthentication
      else if status = 429 then ErrRateLimit
      else if status = 400 then ErrInvalidRequest
      else ErrProviderError)"

text \<open>
  Decoding an error body: the message it leaves, whether or not the body decodes, and whether
  it does.
\<close>

record g_errors =
  gx_message :: "bytes \<Rightarrow> string"
  gx_decodes :: "bytes \<Rightarrow> bool"

definition gemini_map_error :: "g_errors \<Rightarrow> 'x g_client \<Rightarrow> int \<Rightarrow> bytes \<Rightarrow> go_error" where
  "gemini_map_error X c status body =
     http_error gemini_sentinel gemini_name [gc_api_key c] (gx_message X body) status"

definition gemini_decode_error :: "int \<Rightarrow> go_error \<Rightarrow> go_error" where
  "gemini_decode_error status e = decode_failure gemini_name status e"

subsection \<open>Adapting\<close>

definition sent_thinking_level :: "g_request \<Rightarrow> string" where
  "sent_thinking_level r = (case gr_config r of None \<Rightarrow> [] | Some g \<Rightarrow> gg_thinking g)"

definition g_adapt_to_rejection ::
  "g_errors \<Rightarrow> int \<Rightarrow> bytes \<Rightarrow> g_request \<Rightarrow> 'x g_client \<Rightarrow> bool \<times> 'x g_client" where
  "g_adapt_to_rejection X status body sent c =
     (let level = sent_thinking_level sent in
      if status \<noteq> 400 \<or> level = [] then (False, c)
      else if \<not> gx_decodes X body \<or> \<not> contains (to_lower (gx_message X body)) ''thinking'' then (False, c)
      else if level \<in> set (gc_rejected_thinking c) then (True, c)
      else (True, c\<lparr>gc_rejected_thinking := level # gc_rejected_thinking c,
                    gc_log := gc_log c @ [(''thinkingLevel'', ''omitted '' @ level)]\<rparr>))"

subsection \<open>\<open>Chat\<close> and \<open>ChatStream\<close>\<close>

text \<open>What one request came to: a result, or a non-2xx response.\<close>

datatype 't g_sent = GDone "go_error + 't" | GRefused int bytes

text \<open>The loop of both, with the requests sent.\<close>

function g_send_loop ::
  "g_json \<Rightarrow> g_errors \<Rightarrow> (g_request \<Rightarrow> 'x g_client \<Rightarrow> 'w \<Rightarrow> 't g_sent \<times> 'x g_client \<times> 'w) \<Rightarrow>
     'x chat_request \<Rightarrow> bool \<Rightarrow> 'x g_client \<Rightarrow> 'w \<Rightarrow> (go_error + 't) \<times> 'x g_client \<times> 'w \<times> g_request list" where
  "g_send_loop J X send req retried c w =
     (case g_build_request J c req of
        Inl e \<Rightarrow> (Inl e, c, w, [])
      | Inr r \<Rightarrow>
          (let (out, c1, w1) = send r c w in
           case out of
             GDone res \<Rightarrow> (res, c1, w1, [r])
           | GRefused status body \<Rightarrow>
               (let (adapted, c2) = (if retried then (False, c1) else g_adapt_to_rejection X status body r c1) in
                if \<not> retried \<and> adapted then
                  (let (res, c3, w3, sent) = g_send_loop J X send req True c2 w1 in (res, c3, w3, r # sent))
                else (Inl (gemini_map_error X c2 status body), c2, w1, [r]))))"
  by pat_completeness auto
termination
  by (relation "measure (\<lambda>(J, X, send, req, retried, c, w). if retried then 0 else 1)") auto

declare g_send_loop.simps [simp del]

text \<open>\<open>DoJSON\<close> on generateContent, with the struct it decoded, and what follows it.\<close>

definition g_chat_send ::
  "g_json \<Rightarrow> (g_request \<Rightarrow> 'w \<Rightarrow> (json_result \<times> g_response) \<times> 'w) \<Rightarrow> g_request \<Rightarrow> 'x g_client \<Rightarrow> 'w \<Rightarrow>
     chat_response g_sent \<times> 'x g_client \<times> 'w" where
  "g_chat_send J post r c w =
     (let ((jr, raw), w1) = post r w in
      case (if jr_status jr = 0 then jr_err jr else None) of
        Some e \<Rightarrow> (GDone (Inl e), c, w1)
      | None \<Rightarrow>
          if jr_status jr < 200 \<or> 300 \<le> jr_status jr then
            (GRefused (jr_status jr) (case jr_body jr of None \<Rightarrow> [] | Some b \<Rightarrow> b), c, w1)
          else (case jr_err jr of
                  Some e \<Rightarrow> (GDone (Inl (gemini_decode_error (jr_status jr) e)), c, w1)
                | None \<Rightarrow>
                    (let resp = g_parse_response J raw
                     in (GDone (Inr resp), gemini_add_usage c (resp_usage resp), w1))))"

definition gemini_chat ::
  "g_json \<Rightarrow> g_errors \<Rightarrow> (g_request \<Rightarrow> 'w \<Rightarrow> (json_result \<times> g_response) \<times> 'w) \<Rightarrow>
     'x chat_request \<Rightarrow> 'x g_client \<Rightarrow> 'w \<Rightarrow> (go_error + chat_response) \<times> 'x g_client \<times> 'w \<times> g_request list" where
  "gemini_chat J X post req c w = g_send_loop J X (g_chat_send J post) req False c w"

text \<open>\<open>DoSSERequest\<close>: its error, or the status with the body read when it is an error.\<close>

definition g_open_send ::
  "(g_request \<Rightarrow> 'w \<Rightarrow> (go_error + int \<times> bytes) \<times> 'w) \<Rightarrow> g_request \<Rightarrow> 'x g_client \<Rightarrow> 'w \<Rightarrow>
     unit g_sent \<times> 'x g_client \<times> 'w" where
  "g_open_send connect r c w =
     (case connect r w of
        (Inl e, w1) \<Rightarrow> (GDone (Inl e), c, w1)
      | (Inr (status, body), w1) \<Rightarrow>
          if 200 \<le> status \<and> status < 300 then (GDone (Inr ()), c, w1) else (GRefused status body, c, w1))"

definition gemini_chat_stream ::
  "g_json \<Rightarrow> g_errors \<Rightarrow> (g_request \<Rightarrow> 'w \<Rightarrow> (go_error + int \<times> bytes) \<times> 'w) \<Rightarrow>
     'x chat_request \<Rightarrow> 'x g_client \<Rightarrow> 'w \<Rightarrow> (go_error + unit) \<times> 'x g_client \<times> 'w \<times> g_request list" where
  "gemini_chat_stream J X connect req c w = g_send_loop J X (g_open_send connect) req False c w"

subsection \<open>Embeddings\<close>

definition g_embed_usage :: "int \<Rightarrow> token_usage" where
  "g_embed_usage prompt = zero_usage\<lparr>us_prompt := prompt, us_total := prompt\<rparr>"

definition text_content :: "string \<Rightarrow> g_content" where
  "text_content t = \<lparr>gn_role = [], gn_parts = [blank_part\<lparr>gp_text := t\<rparr>]\<rparr>"

text \<open>\<open>resp\<close> is the decoded body: the values, and the prompt's token count.\<close>

definition gemini_embed ::
  "g_errors \<Rightarrow> 'x g_client \<Rightarrow> json_result \<Rightarrow> vec \<times> int \<Rightarrow> (go_error + vec) \<times> 'x g_client" where
  "gemini_embed X c jr resp =
     (case check_status (gemini_map_error X c) gemini_decode_error jr of
        Some e \<Rightarrow> (Inl e, c)
      | None \<Rightarrow>
          if fst resp = [] then (Inl (provider_err gemini_name ErrProviderError ''no embedding data returned''), c)
          else (Inr (fst resp), gemini_add_usage c (g_embed_usage (snd resp))))"

definition gemini_batch_request :: "'x g_client \<Rightarrow> string list \<Rightarrow> (string \<times> g_content) list" where
  "gemini_batch_request c texts = map (\<lambda>t. (''models/'' @ gc_model c, text_content t)) texts"

definition gemini_embed_batch ::
  "g_errors \<Rightarrow> ((string \<times> g_content) list \<Rightarrow> 'w \<Rightarrow> (json_result \<times> vec list \<times> int) \<times> 'w) \<Rightarrow>
     'x g_client \<Rightarrow> string list \<Rightarrow> 'w \<Rightarrow> (go_error + vec list) \<times> 'x g_client \<times> 'w" where
  "gemini_embed_batch X post c texts w =
     (if texts = [] then (Inr [], c, w)
      else
        (let ((jr, vecs, prompt), w1) = post (gemini_batch_request c texts) w in
         case check_status (gemini_map_error X c) gemini_decode_error jr of
           Some e \<Rightarrow> (Inl e, c, w1)
         | None \<Rightarrow>
             if length vecs \<noteq> length texts then
               (Inl (provider_err gemini_name ErrProviderError
                  (''batch embed returned '' @ itoa (int (length vecs)) @ '' embeddings for ''
                   @ itoa (int (length texts)) @ '' inputs'')), c, w1)
             else (case first_empty 0 vecs of
                     Some i \<Rightarrow> (Inl (provider_err gemini_name ErrProviderError
                        (''no embedding data returned for input '' @ itoa (int i))), c, w1)
                   | None \<Rightarrow> (Inr vecs, gemini_add_usage c (g_embed_usage prompt), w1))))"

definition gemini_not_supported :: "string \<Rightarrow> go_error" where
  "gemini_not_supported what = provider_err gemini_name ErrNotSupported (''Gemini does not support '' @ what)"

definition gemini_rerank :: go_error where "gemini_rerank = gemini_not_supported ''reranking''"

definition gemini_decide :: go_error where "gemini_decide = gemini_not_supported ''decision models''"

definition gemini_embed_multimodal :: go_error where
  "gemini_embed_multimodal = gemini_not_supported ''multimodal embeddings''"

subsection \<open>Models\<close>

definition gemini_non_chat_prefixes :: "string list" where
  "gemini_non_chat_prefixes = [''lyria-'', ''nano-banana'', ''antigravity-'', ''deep-research-'']"

definition gemini_non_chat_substrings :: "string list" where
  "gemini_non_chat_substrings = [''-tts'', ''-image'']"

definition gemini_non_chat_model :: "string \<Rightarrow> bool" where
  "gemini_non_chat_model i =
     (let lower = to_lower (trim_prefix i ''models/'') in
      list_ex (has_prefix lower) gemini_non_chat_prefixes \<or> list_ex (contains lower) gemini_non_chat_substrings)"

definition supports_generate_content :: "string list \<Rightarrow> bool" where
  "supports_generate_content methods = list_ex (\<lambda>m. m = ''generateContent'') methods"

definition gemini_embedding_model :: "string list \<Rightarrow> bool" where
  "gemini_embedding_model methods = list_ex (\<lambda>m. m = ''embedContent'' \<or> m = ''batchEmbedContents'') methods"

definition gemini_model_capabilities :: "(string \<times> capability list) list" where
  "gemini_model_capabilities =
     (let chat = [CapChat, CapTools, CapVision, CapJSONMode, CapStreaming] in
      [(''gemini-1.5-pro'', chat), (''gemini-1.5-flash'', chat), (''gemini-2.0'', chat),
       (''text-embedding-'', [CapEmbeddings]), (''embedding-'', [CapEmbeddings])])"

text \<open>A listed model: its name and its methods. \<open>table\<close> is the map in the order it is visited.\<close>

definition gemini_model_info ::
  "(string \<times> capability list) list \<Rightarrow> bool \<Rightarrow> string \<times> string list \<Rightarrow> model_info option" where
  "gemini_model_info table want_embeddings m =
     (let name = trim_prefix (fst m) ''models/'';
          info = model_entry name (lookup_capabilities table (trim_prefix name ''models/'')) 0 in
      if gemini_embedding_model (snd m) then (if want_embeddings then Some info else None)
      else if supports_generate_content (snd m) \<and> \<not> gemini_non_chat_model name then Some info
      else None)"

definition gemini_list_models ::
  "g_errors \<Rightarrow> (string \<times> capability list) list \<Rightarrow> 'x g_client \<Rightarrow> json_result \<Rightarrow> (string \<times> string list) list \<Rightarrow>
     capability list option list \<Rightarrow> go_error + model_info list" where
  "gemini_list_models X table c jr models opts =
     (case check_status (gemini_map_error X c) gemini_decode_error jr of
        Some e \<Rightarrow> Inl e
      | None \<Rightarrow>
          (let cfg = list_models_config opts
           in Inr (filter_model_infos
                (List.map_filter (gemini_model_info table (CapEmbeddings \<in> set cfg)) models) cfg)))"

end
