(* ===== verification/SseScanner.thy ===== *)
theory SseScanner
  imports Readers
begin

text \<open>
  \<open>SSEScanner\<close> (\<open>llm/internal/httpclient/httpclient.go\<close>): the data lines of an event stream, over
  \<open>bufio.Scanner\<close> with its default line splitting and its buffer of 64 KiB. The reader is the
  bytes it delivers and the error after them, \<open>None\<close> at the end of the body; it reports the
  error on a read of its own. The streams of the providers are functions of what comes out:
  the data of the events, then \<open>Err\<close>.
\<close>

subsection \<open>\<open>bufio.Scanner\<close>\<close>

definition max_token :: nat where
  "max_token = 65536"

definition err_too_long :: go_error where
  "err_too_long = PlainErr ''bufio.Scanner: token too long''"

definition drop_cr :: "bytes \<Rightarrow> bytes" where
  "drop_cr l = (if l \<noteq> [] \<and> last l = CHR 0x0D then butlast l else l)"

text \<open>
  The text of \<open>Scanner.Text\<close> after each \<open>Scan\<close>, with the \<open>Err\<close> at that moment, and the \<open>Err\<close>
  after the last. A line is a token when its newline is in a full buffer; a rest without one
  is a token once the reader has ended, by an error as well.
\<close>

function scan_lines :: "bytes \<Rightarrow> go_error option \<Rightarrow> (bytes \<times> go_error option) list \<times> go_error option" where
  "scan_lines s final =
     (if s = [] then ([], final)
      else
        (let l = takeWhile (\<lambda>c. c \<noteq> CHR 0x0A) s in
         if length l < length s \<and> length l < max_token then
           (case scan_lines (drop (Suc (length l)) s) final of (ls, e) \<Rightarrow> ((drop_cr l, None) # ls, e))
         else if max_token \<le> length s then ([], Some err_too_long)
         else ([(drop_cr l, final)], final)))"
  by pat_completeness auto

termination by (relation "measure (length \<circ> fst)") auto

declare scan_lines.simps [simp del]

subsection \<open>\<open>Scan\<close>, \<open>Data\<close> and \<open>Err\<close>\<close>

definition data_prefix :: string where
  "data_prefix = ''data: ''"

text \<open>The data of the events \<open>Scan\<close> stops at, until it returns false.\<close>

fun sse_scan :: "(bytes \<times> go_error option) list \<Rightarrow> bytes list" where
  "sse_scan [] = []"
| "sse_scan ((line, err) # ls) =
     (if err \<noteq> None then []
      else if has_prefix line data_prefix then trim_prefix line data_prefix # sse_scan ls
      else sse_scan ls)"

definition sse_events :: "bytes \<Rightarrow> go_error option \<Rightarrow> bytes list \<times> go_error option" where
  "sse_events s final = (case scan_lines s final of (ls, e) \<Rightarrow> (sse_scan ls, e))"

subsection \<open>What a stream reads as\<close>

text \<open>An event as the providers' APIs write it, and as the proxy does.\<close>

definition data_frame :: "bytes \<Rightarrow> bytes" where
  "data_frame d = data_prefix @ d @ [CHR 0x0A, CHR 0x0A]"

definition fits_line :: "bytes \<Rightarrow> bool" where
  "fits_line d \<longleftrightarrow> CHR 0x0A \<notin> set d \<and> (d \<noteq> [] \<longrightarrow> last d \<noteq> CHR 0x0D) \<and> length d + 6 < max_token"

lemma first_line: "c \<notin> set l \<Longrightarrow> takeWhile (\<lambda>x. x \<noteq> c) (l @ c # s) = l"
  by (induction l) auto

lemma whole_line: "c \<notin> set l \<Longrightarrow> takeWhile (\<lambda>x. x \<noteq> c) l = l"
  by (induction l) auto

lemma data_prefix_facts: "length data_prefix = 6" "CHR 0x0A \<notin> set data_prefix" "data_prefix \<noteq> []"
  "last data_prefix \<noteq> CHR 0x0D"
  by (simp_all add: data_prefix_def)

lemma data_line: "has_prefix (data_prefix @ d) data_prefix" "trim_prefix (data_prefix @ d) data_prefix = d"
  by (simp_all add: data_prefix_def trim_prefix_def)

lemma drop_cr_data: "d \<noteq> [] \<longrightarrow> last d \<noteq> CHR 0x0D \<Longrightarrow> drop_cr (data_prefix @ d) = data_prefix @ d"
  by (cases "d = []") (simp_all add: drop_cr_def data_prefix_facts)

lemma scan_line:
  assumes "CHR 0x0A \<notin> set l" and "length l < max_token"
  shows "scan_lines (l @ CHR 0x0A # s) final
    = (case scan_lines s final of (ls, e) \<Rightarrow> ((drop_cr l, None) # ls, e))"
  using assms by (subst scan_lines.simps) (simp add: Let_def first_line)

lemma sse_frame:
  assumes "fits_line d"
  shows "sse_events (data_frame d @ s) final = (case sse_events s final of (ds, e) \<Rightarrow> (d # ds, e))"
proof -
  have "CHR 0x0A \<notin> set (data_prefix @ d)" "length (data_prefix @ d) < max_token"
    using assms by (simp_all add: fits_line_def data_prefix_facts)
  from scan_line [OF this, of "CHR 0x0A # s" final] scan_line [of "[]" s final] assms
  have "scan_lines (data_frame d @ s) final
      = (case scan_lines s final of (ls, e) \<Rightarrow> ((data_prefix @ d, None) # ([], None) # ls, e))"
    by (simp add: data_frame_def fits_line_def drop_cr_data drop_cr_def [of "[]"] max_token_def split: prod.splits)
  then show ?thesis
    by (simp add: sse_events_def data_line split: prod.splits) (simp add: data_prefix_def)
qed

text \<open>
  A stream of events reads as their data, in order, with the error the connection ended with;
  what is cut off by an error in the middle of a line is not taken for an event.
\<close>

lemma sse_events_frames:
  assumes "list_all fits_line ds"
  shows "sse_events (concat (map data_frame ds)) final = (ds, final)"
  using assms
proof (induction ds)
  case Nil
  show ?case by (subst sse_events_def) (simp add: scan_lines.simps)
next
  case (Cons d ds)
  then show ?case by (simp add: sse_frame)
qed

lemma sse_events_cut:
  assumes "list_all fits_line ds" and "CHR 0x0A \<notin> set part" and "length part < max_token" and "part \<noteq> []"
  shows "sse_events (concat (map data_frame ds) @ part) (Some e) = (ds, Some e)"
  using assms(1)
proof (induction ds)
  case Nil
  have "scan_lines part (Some e) = ([(drop_cr part, Some e)], Some e)"
    using assms(2-4) by (subst scan_lines.simps) (simp add: Let_def whole_line)
  then show ?case by (simp add: sse_events_def)
next
  case (Cons d ds)
  then show ?case by (simp add: sse_frame)
qed

text \<open>
  An event whose line is 64 KiB or longer ends the stream with an error, whatever limit the
  options set for a response.
\<close>

lemma long_event_fails:
  assumes "CHR 0x0A \<notin> set d" and "max_token \<le> length d + 6"
  shows "sse_events (data_frame d @ s) final = ([], Some err_too_long)"
proof -
  have "takeWhile (\<lambda>c. c \<noteq> CHR 0x0A) (data_frame d @ s) = data_prefix @ d"
    using first_line [of "CHR 0x0A" "data_prefix @ d" "CHR 0x0A # s"] assms(1)
    by (simp add: data_frame_def data_prefix_facts)
  with assms(2) have "scan_lines (data_frame d @ s) final = ([], Some err_too_long)"
    by (subst scan_lines.simps) (simp add: Let_def data_frame_def data_prefix_facts)
  then show ?thesis by (simp add: sse_events_def)
qed

end
