(* ===== verification/GeminiProps.thy ===== *)
theory GeminiProps
  imports GeminiChat SseScanner
begin

text \<open>What the Gemini client guarantees: what is on the wire, the one resend, replay and streaming.\<close>

subsection \<open>No empty part\<close>

text \<open>The data fields of a part that are set; Gemini requires exactly one.\<close>

definition data_fields :: "g_part \<Rightarrow> nat" where
  "data_fields p =
     (if gp_text p \<noteq> [] then 1 else 0) + (if gp_inline p \<noteq> None then 1 else 0)
     + (if gp_file p \<noteq> None then 1 else 0) + (if gp_call p \<noteq> None then 1 else 0)
     + (if gp_response p \<noteq> None then 1 else 0)"

definition part_sendable :: "g_part \<Rightarrow> bool" where
  "part_sendable p \<longleftrightarrow> data_fields p = 1"

definition content_sendable :: "g_content \<Rightarrow> bool" where
  "content_sendable c \<longleftrightarrow> gn_parts c \<noteq> [] \<and> list_all part_sendable (gn_parts c)"

lemma media_part_fields: "list_all part_sendable (media_part u d m)"
  by (simp add: media_part_def part_sendable_def data_fields_def blank_part_def)

lemma block_parts_fields: "list_all part_sendable (block_parts J names b)"
proof (cases "cb_type b")
  case BlockImage
  then show ?thesis by (simp add: block_parts_def media_part_fields split: option.split)
next
  case BlockDocument
  then show ?thesis by (simp add: block_parts_def media_part_fields split: option.split)
qed (simp_all add: block_parts_def part_sendable_def data_fields_def blank_part_def split: option.split)

lemma convert_blocks_fields: "list_all part_sendable (fst (convert_blocks J names bs))"
  by (induction bs arbitrary: names) (simp_all add: block_parts_fields case_prod_unfold Let_def)

lemma g_contents_sendable: "list_all content_sendable (g_contents J names ms)"
proof (induction ms arbitrary: names)
  case (Cons m ms)
  then show ?case
    using convert_blocks_fields [of J names "msg_content m"]
    by (simp add: g_convert_message_def content_sendable_def case_prod_unfold Let_def)
qed simp

text \<open>
  C30: no request to Gemini has an empty contents array, a content without parts, or a part
  with no data, all of which Gemini refuses the whole request for; the request is refused
  before it is sent instead.
\<close>

theorem gemini_parts_sendable:
  "case g_build_request J c req of
     Inl e \<Rightarrow> True
   | Inr r \<Rightarrow> gr_contents r \<noteq> [] \<and> list_all content_sendable (gr_contents r)"
  using g_contents_sendable [of J Map.empty "req_messages req"]
  by (auto simp: g_build_request_def g_convert_messages_def Let_def split: sum.splits if_splits)

subsection \<open>Tool results\<close>

text \<open>The name of the latest call with the id among the blocks of a conversation so far.\<close>

definition call_of :: "content_block \<Rightarrow> (string \<times> string) option" where
  "call_of b = (case (cb_type b, cb_tool_use b) of
     (BlockToolUse, Some t) \<Rightarrow> if tu_id t \<noteq> [] then Some (tu_id t, tu_name t) else None
   | _ \<Rightarrow> None)"

definition called :: "content_block list \<Rightarrow> string \<rightharpoonup> string" where
  "called bs = map_of (rev (List.map_filter call_of bs))"

lemma learn_name_called: "learn_name (called bs) b = called (bs @ [b])"
  by (auto simp: learn_name_def called_def call_of_def map_filter_simps map_filter_def
      split: block_type.split option.split)

lemma called_Nil [simp]: "called [] = Map.empty"
  by (simp add: called_def map_filter_simps)

definition history_parts :: "g_json \<Rightarrow> content_block list \<Rightarrow> nat list \<Rightarrow> g_part list" where
  "history_parts J bs is = concat (map (\<lambda>i. block_parts J (called (take i bs)) (bs ! i)) is)"

lemma convert_blocks_history:
  "convert_blocks J (called pre) bs
    = (history_parts J (pre @ bs) [length pre..<length (pre @ bs)], called (pre @ bs))"
proof (induction bs arbitrary: pre)
  case (Cons b bs)
  have "[length pre..<length (pre @ b # bs)] = length pre # [Suc (length pre)..<length (pre @ b # bs)]"
    by (simp add: upt_rec)
  then show ?case
    using Cons.IH [of "pre @ [b]"] by (simp add: history_parts_def learn_name_called del: upt_Suc)
qed (simp add: history_parts_def)

lemma g_contents_history:
  "concat (map gn_parts (g_contents J (called pre) ms))
    = history_parts J (pre @ concat (map msg_content ms)) [length pre..<length (pre @ concat (map msg_content ms))]"
proof (induction ms arbitrary: pre)
  case (Cons m ms)
  let ?bs = "msg_content m" and ?rest = "concat (map msg_content ms)"
  have split: "[length pre..<length pre + (length ?bs + length ?rest)]
      = [length pre..<length pre + length ?bs] @ [length pre + length ?bs..<length pre + length ?bs + length ?rest]"
    using upt_add_eq_append [of "length pre" "length pre + length ?bs" "length ?rest"] by (simp add: add.assoc)
  have same: "history_parts J (pre @ ?bs @ ?rest) [length pre..<length pre + length ?bs]
      = history_parts J (pre @ ?bs) [length pre..<length pre + length ?bs]"
    unfolding history_parts_def
    by (intro arg_cong [where f = concat] map_cong refl) (auto simp: nth_append)
  have "concat (map gn_parts (g_contents J (called pre) (m # ms)))
      = history_parts J (pre @ ?bs) [length pre..<length pre + length ?bs]
        @ concat (map gn_parts (g_contents J (called (pre @ ?bs)) ms))"
    by (simp add: g_convert_message_def convert_blocks_history)
  also have "\<dots> = history_parts J (pre @ ?bs @ ?rest) [length pre..<length pre + (length ?bs + length ?rest)]"
    unfolding split Cons.IH [of "pre @ ?bs"] same [symmetric] by (simp add: history_parts_def add.assoc)
  finally show ?case by simp
qed (simp add: history_parts_def)


text \<open>
  A tool result that is the JSON literal null decodes without an error into a nil map, so it is
  the one result that is sent as no object at all: "response": null.
\<close>

lemma null_result_sent_bare:
  assumes "gj_object J ''null'' = Some None"
  shows "function_response J ((blank_block BlockToolResult)\<lparr>cb_text := ''null'', cb_tool_use_id := ''gemini-tool-f''\<rparr>) Map.empty
    = (''f'', None)"
  using assms by (simp add: function_response_def blank_block_def trim_prefix_def)

subsection \<open>The one resend\<close>

definition without_thinking :: "g_request \<Rightarrow> g_request" where
  "without_thinking r = r\<lparr>gr_config := (case gr_config r of
     None \<Rightarrow> None
   | Some g \<Rightarrow> if g\<lparr>gg_thinking := []\<rparr> = empty_config then None else Some (g\<lparr>gg_thinking := []\<rparr>))\<rparr>"

lemma build_config:
  assumes "g_build_request J c req = Inr r"
  obtains contents level where "g_convert_messages J req = Inr contents" "thinking_level c req = Inr level"
    "sent_thinking_level r = level"
    "gr_config r = (if g_config_of J c req level = empty_config then None else Some (g_config_of J c req level))"
  using assms
  by (auto simp: g_build_request_def Let_def sent_thinking_level_def g_config_of_def empty_config_def
      split: sum.splits if_splits)

lemma thinking_level_fresh:
  "thinking_level c req = Inr level \<Longrightarrow> level = [] \<or> level \<notin> set (gc_rejected_thinking c)"
  by (auto simp: thinking_level_def Let_def split: sum.splits if_splits)

lemma sent_level_fresh:
  "g_build_request J c req = Inr r \<Longrightarrow>
    sent_thinking_level r = [] \<or> sent_thinking_level r \<notin> set (gc_rejected_thinking c)"
  by (erule build_config) (auto dest: thinking_level_fresh)

lemma rebuilt_without_thinking:
  assumes "g_build_request J c req = Inr r" and "sent_thinking_level r \<noteq> []"
    and "c' = c\<lparr>gc_rejected_thinking := sent_thinking_level r # gc_rejected_thinking c, gc_log := l\<rparr>"
  shows "g_build_request J c' req = Inr (without_thinking r)"
proof -
  from assms(1) obtain contents level where b: "g_convert_messages J req = Inr contents"
    "thinking_level c req = Inr level" "sent_thinking_level r = level"
    by (rule build_config)
  have c': "thinking_level c' req = Inr []"
    using b(2,3) assms(2,3) by (auto simp: thinking_level_def Let_def split: sum.splits if_splits)
  have same: "g_config_of J c' req l = g_config_of J c req l" "g_declarations c' req = g_declarations c req" for l
    using assms(3) by (simp_all add: g_config_of_def g_declarations_def)
  have cfg: "(g_config_of J c req level)\<lparr>gg_thinking := []\<rparr> = g_config_of J c req []"
    "g_config_of J c req level \<noteq> empty_config"
    using b(3) assms(2) by (simp_all add: g_config_of_def empty_config_def)
  have r: "r = \<lparr>gr_contents = contents, gr_tools = g_declarations c req,
      gr_tool_config = map_option g_tool_config (req_tool_choice req),
      gr_system = (if req_system req \<noteq> [] then
         Some \<lparr>gn_role = [], gn_parts = [blank_part\<lparr>gp_text := req_system req\<rparr>]\<rparr> else None),
      gr_config = Some (g_config_of J c req level)\<rparr>"
    using assms(1) b(1,2) cfg(2) by (simp add: g_build_request_def Let_def)
  show ?thesis by (simp add: g_build_request_def Let_def b(1) c' same r without_thinking_def cfg(1))
qed

text \<open>
  The requests of one call: the level of the first is none the client knew to be refused, and
  a second is the first without its level, which the client now knows.
\<close>

definition sent_ok :: "'x g_client \<Rightarrow> 'x g_client \<Rightarrow> g_request list \<Rightarrow> bool" where
  "sent_ok c c' sent \<longleftrightarrow>
     (case sent of
        [] \<Rightarrow> True
      | r # rs \<Rightarrow>
          (sent_thinking_level r = [] \<or> sent_thinking_level r \<notin> set (gc_rejected_thinking c)) \<and>
          (rs = [] \<or> rs = [without_thinking r] \<and> sent_thinking_level r \<noteq> [] \<and>
             sent_thinking_level r \<in> set (gc_rejected_thinking c')))"

text \<open>What both senders of the loop promise: a refused request leaves the client as it was.\<close>

locale g_sender =
  fixes send :: "g_request \<Rightarrow> 'x g_client \<Rightarrow> 'w \<Rightarrow> 't g_sent \<times> 'x g_client \<times> 'w"
  assumes refused: "send r c w = (GRefused status body, c1, w1) \<Longrightarrow> c1 = c"
    and learns_nothing: "send r c w = (out, c1, w1) \<Longrightarrow> gc_rejected_thinking c1 = gc_rejected_thinking c"
begin

lemma second_pass:
  assumes "g_build_request J c req = Inr r" and "g_send_loop J X send req True c w = (res, c', w', sent)"
  shows "sent = [r] \<and> gc_rejected_thinking c' = gc_rejected_thinking c"
proof -
  obtain out c1 w1 where s: "send r c w = (out, c1, w1)" by (metis surj_pair)
  with assms learns_nothing [OF s] show ?thesis
    by (cases out) (auto simp: g_send_loop.simps [of _ _ _ _ True])
qed

lemma adapted:
  assumes "g_build_request J c req = Inr r" and "g_adapt_to_rejection X status body r c = (True, c2)"
  shows "sent_thinking_level r \<noteq> [] \<and> sent_thinking_level r \<in> set (gc_rejected_thinking c2)
    \<and> g_build_request J c2 req = Inr (without_thinking r)"
proof -
  have level: "sent_thinking_level r \<noteq> []" using assms(2) by (auto simp: g_adapt_to_rejection_def Let_def split: if_splits)
  with sent_level_fresh [OF assms(1)] have "sent_thinking_level r \<notin> set (gc_rejected_thinking c)" by simp
  with assms(2) have "c2 = c\<lparr>gc_rejected_thinking := sent_thinking_level r # gc_rejected_thinking c,
      gc_log := gc_log c @ [(''thinkingLevel'', ''omitted '' @ sent_thinking_level r)]\<rparr>"
    by (auto simp: g_adapt_to_rejection_def Let_def split: if_splits)
  with level rebuilt_without_thinking [OF assms(1) level] show ?thesis by simp
qed

lemma loop_ok: "case g_send_loop J X send req False c w of (res, c', w', sent) \<Rightarrow> sent_ok c c' sent"
proof (cases "g_build_request J c req")
  case (Inl e)
  then show ?thesis by (simp add: g_send_loop.simps [of _ _ _ _ False] sent_ok_def)
next
  case (Inr r)
  note fresh = sent_level_fresh [OF Inr]
  obtain out c1 w1 where s: "send r c w = (out, c1, w1)" by (metis surj_pair)
  show ?thesis
  proof (cases out)
    case (GDone res)
    with Inr s fresh show ?thesis by (simp add: g_send_loop.simps [of _ _ _ _ False] sent_ok_def)
  next
    case (GRefused status body)
    then have c1: "c1 = c" using refused s by simp
    obtain ad c2 where a: "g_adapt_to_rejection X status body r c = (ad, c2)" by (metis surj_pair)
    obtain res3 c3 w3 sent3 where l: "g_send_loop J X send req True c2 w1 = (res3, c3, w3, sent3)" by (metis surj_pair)
    show ?thesis
    proof (cases ad)
      case False
      with Inr s fresh GRefused c1 a show ?thesis by (simp add: g_send_loop.simps [of _ _ _ _ False] sent_ok_def)
    next
      case True
      then have ok: "sent_thinking_level r \<noteq> []" "sent_thinking_level r \<in> set (gc_rejected_thinking c2)"
        "g_build_request J c2 req = Inr (without_thinking r)"
        using adapted [OF Inr] a by auto
      from second_pass [OF ok(3) l] Inr s fresh GRefused c1 a True l ok show ?thesis
        by (simp add: g_send_loop.simps [of _ _ _ _ False] sent_ok_def)
    qed
  qed
qed

end

interpretation chat_sender: g_sender "g_chat_send Js post" for Js post
  by unfold_locales
    (auto simp: g_chat_send_def Let_def gemini_add_usage_def split: prod.splits option.splits if_splits)

interpretation stream_sender: g_sender "g_open_send connect" for connect
  by unfold_locales
    (auto simp: g_open_send_def split: prod.splits sum.splits if_splits)

text \<open>
  Chat and ChatStream send at most two requests, whatever Gemini answers. A second one goes
  out only after a refusal of the thinking level, is the first one without that level and
  nothing else changed, and the client knows the level from then on; the level sent is never
  one the client knew before the call.
\<close>

theorem gemini_resends_once:
  "(case gemini_chat J X post req c w of (res, c', w', sent) \<Rightarrow> length sent \<le> 2 \<and> sent_ok c c' sent) \<and>
   (case gemini_chat_stream J X connect req c w of (res, c', w', sent) \<Rightarrow> length sent \<le> 2 \<and> sent_ok c c' sent)"
proof -
  have two: "length sent \<le> 2" if "sent_ok c c' sent" for c' and sent
    using that by (auto simp: sent_ok_def split: list.splits)
  show ?thesis
    using chat_sender.loop_ok [where Js = J and J = J and X = X and post = post and req = req and c = c and w = w]
      stream_sender.loop_ok [where J = J and X = X and connect = connect and req = req and c = c and w = w]
    by (auto simp: gemini_chat_def gemini_chat_stream_def dest: two)
qed

subsection \<open>Replay\<close>

text \<open>
  A part as Gemini's models send it: text, or a function call whose arguments survive encoding;
  a signature comes with a call.
\<close>

definition part_received :: "g_json \<Rightarrow> g_part \<Rightarrow> bool" where
  "part_received J p \<longleftrightarrow>
     (\<exists>t. t \<noteq> [] \<and> p = blank_part\<lparr>gp_text := t\<rparr>) \<or>
     (\<exists>name args sig. p = blank_part\<lparr>gp_call := Some (name, args), gp_signature := sig\<rparr>
        \<and> gj_marshal J args \<noteq> [] \<and> gj_object J (gj_marshal J args) = Some args)"

lemma received_part_back:
  assumes "part_received J p"
  shows "fst (convert_blocks J names (part_blocks J p @ bs)) = p # fst (convert_blocks J (snd (convert_blocks J names (part_blocks J p))) bs)"
  using assms
  by (auto simp: part_received_def part_blocks_def received_call_def blank_part_def block_parts_def
      text_block_def tool_use_block_def blank_block_def call_args_def case_prod_unfold Let_def)

lemma received_parts_back:
  "list_all (part_received J) ps \<Longrightarrow> fst (convert_blocks J names (concat (map (part_blocks J) ps))) = ps"
  by (induction ps arbitrary: names) (simp_all add: received_part_back)

text \<open>
  C33: an assistant turn received from Gemini and put back into the conversation is sent as the
  same parts in the same order, each call with its arguments and its thought signature, which
  Gemini refuses the request without.
\<close>

theorem gemini_replay:
  assumes "gs_candidates r = k # ks" and "gk_parts k \<noteq> []" and "list_all (part_received J) (gk_parts k)"
  shows "fst (g_convert_message J names (assistant_blocks (resp_content (g_parse_response J r))))
    = [\<lparr>gn_role = ''model'', gn_parts = gk_parts k\<rparr>]"
  using received_parts_back [OF assms(3), of names] assms(1,2)
  by (simp add: g_convert_message_def g_parse_response_def assistant_blocks_def case_prod_unfold Let_def
      role_str_def map_role_def)

definition demo_g_json :: g_json where
  "demo_g_json = \<lparr>gj_object = (\<lambda>b. if b = ''{}'' then Some (Some []) else None), gj_marshal = (\<lambda>m. ''{}'')\<rparr>"

definition demo_part :: g_part where
  "demo_part = blank_part\<lparr>gp_call := Some (''f'', Some []), gp_signature := ''sig''\<rparr>"

theorem gemini_replay_witness:
  "fst (g_convert_message demo_g_json Map.empty (assistant_blocks (resp_content (g_parse_response demo_g_json
     \<lparr>gs_candidates = [\<lparr>gk_parts = [demo_part], gk_finish_reason = ''STOP''\<rparr>],
      gs_usage = \<lparr>gu_prompt = 1, gu_candidates = 1, gu_total = 2\<rparr>\<rparr>))))
    = [\<lparr>gn_role = ''model'', gn_parts = [demo_part]\<rparr>]"
proof -
  have "part_received demo_g_json demo_part"
    by (auto simp: part_received_def demo_part_def demo_g_json_def)
  then show ?thesis
    using gemini_replay [where J = demo_g_json and k = "\<lparr>gk_parts = [demo_part], gk_finish_reason = ''STOP''\<rparr>"
      and ks = "[]" and r = "\<lparr>gs_candidates = [\<lparr>gk_parts = [demo_part], gk_finish_reason = ''STOP''\<rparr>],
        gs_usage = \<lparr>gu_prompt = 1, gu_candidates = 1, gu_total = 2\<rparr>\<rparr>" and names = Map.empty]
    by simp
qed

subsection \<open>Streaming and not streaming\<close>

text \<open>Adjacent text blocks are one block when they are streamed.\<close>

definition add_block :: "content_block list \<Rightarrow> content_block \<Rightarrow> content_block list" where
  "add_block bs b =
     (if cb_type b = BlockText \<and> bs \<noteq> [] \<and> cb_type (last bs) = BlockText
      then butlast bs @ [text_block (cb_text (last bs) @ cb_text b)] else bs @ [b])"

definition join_texts :: "content_block list \<Rightarrow> content_block list" where
  "join_texts bs = foldl add_block [] bs"

text \<open>The assembler between two chunks of a Gemini stream, holding what it has assembled.\<close>

definition holds :: "assembler \<Rightarrow> content_block list \<Rightarrow> bool" where
  "holds a bs \<longleftrightarrow> as_content (flush_all a) = bs \<and> as_think a = think_init \<and>
     (case as_tool a of
        None \<Rightarrow> as_tool_buf a = [] \<and> (as_text a = [] \<longrightarrow> as_content a = [])
      | Some t \<Rightarrow> as_tool_buf a = tu_input t \<and> as_text a = [])"

lemma holds_init: "holds asm_init []"
  by (simp add: holds_def asm_init_def flush_defs)

lemma holds_cases:
  assumes "holds a bs"
  obtains (start) u where "a = asm_init\<lparr>as_usage := u\<rparr>" "bs = []"
    | (words) u pre f where "f \<noteq> []" "bs = pre @ [text_block f]"
        "a = \<lparr>as_content = pre, as_usage = u, as_text = f, as_tool_buf = [], as_tool = None, as_think = think_init\<rparr>"
    | (call) u pre t where "bs = pre @ [tool_use_block t]"
        "a = \<lparr>as_content = pre, as_usage = u, as_text = [], as_tool_buf = tu_input t, as_tool = Some t, as_think = think_init\<rparr>"
proof (cases a)
  case (fields content usage tx buf call th)
  with assms show thesis
    by (cases call; cases "tx = []")
       (auto simp: holds_def flush_defs asm_init_def intro: start words call)
qed

lemma block_types [simp]: "cb_type (text_block f) = BlockText" "cb_text (text_block f) = f"
  "cb_type (tool_use_block t) = BlockToolUse"
  by (simp_all add: text_block_def tool_use_block_def blank_block_def)

lemma holds_text:
  assumes "holds a bs" and "f \<noteq> []"
  shows "holds (accumulate a (text_chunk f)) (add_block bs (text_block f))"
  using assms(1)
  by (cases rule: holds_cases)
     (use assms(2) in \<open>auto simp: holds_def add_block_def accumulate_def chunk_makers flush_defs asm_init_def Let_def\<close>)

lemma holds_tool:
  assumes "holds a bs"
  shows "holds (accumulate a (tool_start_chunk t)) (add_block bs (tool_use_block t))"
  using assms
  by (cases rule: holds_cases; cases t)
     (auto simp: holds_def add_block_def accumulate_def chunk_makers flush_defs asm_init_def Let_def)

lemma holds_part:
  "holds a bs \<Longrightarrow> holds (foldl accumulate a (part_chunks J p)) (foldl add_block bs (part_blocks J p))"
  by (auto simp: part_chunks_def part_blocks_def holds_text holds_tool split: option.split)

lemma holds_parts:
  "holds a bs \<Longrightarrow> holds (foldl accumulate a (concat (map (part_chunks J) ps)))
     (foldl add_block bs (concat (map (part_blocks J) ps)))"
  by (induction ps arbitrary: a bs) (simp_all add: holds_part)

lemma accumulate_done [simp]: "accumulate a (done_chunk v) = a\<lparr>as_usage := v\<rparr>"
  by (simp add: accumulate_def chunk_makers)

lemma flush_all_usage: "as_content (flush_all (a\<lparr>as_usage := v\<rparr>)) = as_content (flush_all a)"
  by (cases a) (simp add: flush_defs Let_def split: option.split)

text \<open>A response streamed in events: its parts in any groups, then the finish reason and the usage.\<close>

definition part_event :: "g_part list \<Rightarrow> g_response" where
  "part_event ps = \<lparr>gs_candidates = [\<lparr>gk_parts = ps, gk_finish_reason = []\<rparr>],
     gs_usage = \<lparr>gu_prompt = 0, gu_candidates = 0, gu_total = 0\<rparr>\<rparr>"

definition last_event :: "g_part list \<Rightarrow> string \<Rightarrow> g_usage \<Rightarrow> g_response" where
  "last_event ps reason u = \<lparr>gs_candidates = [\<lparr>gk_parts = ps, gk_finish_reason = reason\<rparr>], gs_usage = u\<rparr>"

lemma g_stream_events:
  assumes "map decode ds = map Inr (map part_event pss @ [last_event ps reason u])" and "reason \<noteq> []" and "0 < gu_total u"
  shows "g_stream_loop J decode None None ds
    = (concat (map (part_chunks J) (concat pss @ ps)) @ [done_chunk (g_usage_of u)], None, [g_usage_of u])"
  using assms
proof (induction pss arbitrary: ds)
  case Nil
  then obtain d where "ds = [d]" "decode d = Inr (last_event ps reason u)" by auto
  with Nil show ?case by (simp add: g_stream_chunk_def last_event_def)
next
  case (Cons qs pss)
  then obtain d ds' where ds: "ds = d # ds'" "decode d = Inr (part_event qs)"
    and rest: "map decode ds' = map Inr (map part_event pss @ [last_event ps reason u])" by auto
  from Cons.IH [OF rest Cons.prems(2,3)] ds show ?case
    by (simp add: g_stream_chunk_def part_event_def)
qed

lemma streamed_as_whole:
  assumes "map decode ds = map Inr (map part_event pss @ [last_event ps reason u])"
    and "reason \<noteq> []" and "0 < gu_total u"
  shows "case g_stream_loop J decode None None ds of
     (chunks, err, counted) \<Rightarrow> err = None \<and> counted = [g_usage_of u] \<and>
       (let whole = g_parse_response J (last_event (concat pss @ ps) reason u) in
        resp_content (assemble chunks) = join_texts (resp_content whole)
        \<and> resp_usage (assemble chunks) = resp_usage whole)"
proof -
  let ?cs = "concat (map (part_chunks J) (concat pss @ ps))"
  let ?a = "foldl accumulate asm_init ?cs"
  have h: "holds ?a (join_texts (concat (map (part_blocks J) (concat pss @ ps))))"
    unfolding join_texts_def by (rule holds_parts [OF holds_init])
  then have "as_content (flush_all (?a\<lparr>as_usage := v\<rparr>)) = join_texts (concat (map (part_blocks J) (concat pss @ ps)))" for v
    unfolding flush_all_usage by (simp only: holds_def)
  moreover have "as_usage (flush_all (?a\<lparr>as_usage := v\<rparr>)) = v" for v by simp
  ultimately show ?thesis
    unfolding g_stream_events [OF assms]
    by (simp add: assemble_def response_of_def g_parse_response_def last_event_def)
qed



end
