(* ===== verification/Ollama.thy ===== *)
theory Ollama
  imports ProviderBase Assembly Requests
begin

text \<open>
  The Ollama provider (\<open>ollama.go\<close>, \<open>ollama/extension.go\<close>): tools by instructions in the system
  prompt and calls as JSON in the text, reasoning blocks stripped, streaming, embeddings with
  truncation, and model listing. JSON decoding and encoding are parameters.
\<close>

subsection \<open>The client\<close>

definition ollama_name :: string where
  "ollama_name = ''ollama''"

record ollama_extension =
  lx_context_length :: int
  lx_truncate :: bool

text \<open>
  The dynamic type of a \<open>ProviderExtension\<close>: Ollama's struct, a pointer to it, nil (an interface
  or a pointer of any type), or another provider's.
\<close>

datatype l_ext = OllamaExt ollama_extension | OllamaExtPtr ollama_extension | OllamaNil | OllamaForeign string

fun ollama_find_extension :: "l_ext list \<Rightarrow> ollama_extension option" where
  "ollama_find_extension [] = None"
| "ollama_find_extension (OllamaExt x # es) = Some x"
| "ollama_find_extension (OllamaExtPtr x # es) = Some x"
| "ollama_find_extension (e # es) = ollama_find_extension es"

record l_client =
  lc_model :: string
  lc_base_url :: string
  lc_temperature :: "f64 option"
  lc_extensions :: "l_ext list"
  lc_usage :: token_usage

definition ollama_new ::
  "(string \<Rightarrow> bytes option) \<Rightarrow> (string \<Rightarrow> go_error) \<Rightarrow> base_client option \<Rightarrow> l_ext client_options \<Rightarrow>
     go_error + l_client \<times> http_client" where
  "ollama_new read_file parse_err base opts0 =
     map_sum id (\<lambda>su. (\<lparr>lc_model = opt_model (su_opts su), lc_base_url = su_base_url su,
                       lc_temperature = opt_temperature (su_opts su), lc_extensions = opt_extensions (su_opts su),
                       lc_usage = zero_usage\<rparr>, su_http su))
       (provider_new read_file parse_err ollama_name ''http://localhost:11434'' base opts0)"

definition ollama_add_usage :: "l_client \<Rightarrow> token_usage \<Rightarrow> l_client" where
  "ollama_add_usage c u = c\<lparr>lc_usage := usage_add (lc_usage c) u\<rparr>"

definition ollama_reset_usage :: "l_client \<Rightarrow> l_client" where
  "ollama_reset_usage c = c\<lparr>lc_usage := zero_usage\<rparr>"

definition ollama_headers :: headers where
  "ollama_headers = [(''Content-Type'', ''application/json'')]"

definition ollama_not_supported :: "string \<Rightarrow> go_error" where
  "ollama_not_supported what = provider_err ollama_name ErrNotSupported (''Ollama does not support '' @ what)"

definition ollama_rerank :: go_error where "ollama_rerank = ollama_not_supported ''reranking''"

definition ollama_decide :: go_error where "ollama_decide = ollama_not_supported ''decision models''"

definition ollama_embed_multimodal :: go_error where
  "ollama_embed_multimodal = ollama_not_supported ''multimodal embeddings''"

subsection \<open>Errors\<close>

text \<open>\<open>message\<close> is the error of a decoded body.\<close>

definition ollama_map_error :: "(bytes \<Rightarrow> string) \<Rightarrow> int \<Rightarrow> bytes \<Rightarrow> go_error" where
  "ollama_map_error message status body =
     http_error (\<lambda>_. ErrProviderError) ollama_name [] (message body) status"

definition ollama_decode_error :: "int \<Rightarrow> go_error \<Rightarrow> go_error" where
  "ollama_decode_error status e = decode_failure ollama_name status e"

definition ollama_reject_documents :: "'x chat_request \<Rightarrow> go_error option" where
  "ollama_reject_documents req =
     (if list_ex (\<lambda>m. list_ex (\<lambda>b. cb_type b = BlockDocument) (msg_content m)) (req_messages req) then
        Some (provider_err ollama_name ErrNotSupported
          (''Ollama does not support document content blocks; pre-extract text or use ''
           @ ''a provider with native document support (Anthropic, Gemini)''))
      else None)"

subsection \<open>The request\<close>

record l_message =
  lm_role :: string
  lm_content :: string
  lm_images :: "string list"

text \<open>\<open>Format\<close>: the string "json", or a decoded schema.\<close>

datatype 'j l_format = FormatNone | FormatJSON | FormatSchema 'j

record 'j l_request =
  lr_model :: string
  lr_messages :: "l_message list"
  lr_stream :: bool
  lr_format :: "'j l_format"
  lr_stop :: "string list"
  lr_temperature :: "f64 option"

text \<open>
  The JSON the provider relies on: \<open>json.Marshal\<close> of a call (nothing when the arguments are not
  JSON), decoding of a schema, and decoding into the struct of a call, which keeps the fields
  the text does not set.
\<close>

record 'j l_json =
  lj_marshal_call :: "string \<Rightarrow> bytes \<Rightarrow> bytes"
  lj_schema :: "bytes \<Rightarrow> 'j option"
  lj_call :: "string \<times> bytes \<Rightarrow> bytes \<Rightarrow> bool \<times> string \<times> bytes"

definition tool_instruction :: "bool \<Rightarrow> tool \<Rightarrow> string" where
  "tool_instruction use_compact t =
     ''- '' @ tool_name t @ '': '' @ effective_tool_description t use_compact
     @ (if tool_schema t \<noteq> [] then '' (parameters: '' @ tool_schema t @ '')'' else []) @ [CHR 0x0A]"

definition build_tool_instructions :: "tool list \<Rightarrow> bool \<Rightarrow> string" where
  "build_tool_instructions tools use_compact =
     ''You have access to the following tools. When you need to call a tool, respond ONLY with a JSON object in this exact format:''
     @ [CHR 0x0A] @ ''{'' @ [CHR 0x22] @ ''tool'' @ [CHR 0x22] @ '':'' @ [CHR 0x22] @ ''tool_name'' @ [CHR 0x22] @ '',''
     @ [CHR 0x22] @ ''arguments'' @ [CHR 0x22] @ '':{...}}'' @ [CHR 0x0A, CHR 0x0A] @ ''Available tools:'' @ [CHR 0x0A]
     @ concat (map (tool_instruction use_compact) tools)"

text \<open>What a block adds to its message: text, images, or a tool message; an image by URL is an error.\<close>

record l_parts =
  lp_content :: string
  lp_images :: "string list"
  lp_results :: "l_message list"

definition url_image_error :: go_error where
  "url_image_error = PlainErr ''ollama: URL image input is not supported (provide base64 data instead)''"

definition l_add_block :: "'j l_json \<Rightarrow> l_parts \<Rightarrow> content_block \<Rightarrow> go_error + l_parts" where
  "l_add_block J p b =
     (case cb_type b of
        BlockText \<Rightarrow> Inr (p\<lparr>lp_content := lp_content p @ cb_text b\<rparr>)
      | BlockImage \<Rightarrow>
          (case cb_image b of
             None \<Rightarrow> Inr p
           | Some i \<Rightarrow>
               if img_data i \<noteq> [] then Inr (p\<lparr>lp_images := lp_images p @ [base64 (img_data i)]\<rparr>)
               else if img_url i \<noteq> [] then Inl url_image_error
               else Inr p)
      | BlockToolUse \<Rightarrow>
          (case cb_tool_use b of
             None \<Rightarrow> Inr p
           | Some t \<Rightarrow> Inr (p\<lparr>lp_content := lp_content p @ lj_marshal_call J (tu_name t) (tu_input t)\<rparr>))
      | BlockToolResult \<Rightarrow>
          Inr (p\<lparr>lp_results := lp_results p @
             [\<lparr>lm_role = ''tool'', lm_content = tool_result_content (cb_text b) (cb_is_error b), lm_images = []\<rparr>]\<rparr>)
      | _ \<Rightarrow> Inr p)"

fun l_add_blocks :: "'j l_json \<Rightarrow> l_parts \<Rightarrow> content_block list \<Rightarrow> go_error + l_parts" where
  "l_add_blocks J p [] = Inr p"
| "l_add_blocks J p (b # bs) =
     (case l_add_block J p b of Inl e \<Rightarrow> Inl e | Inr p' \<Rightarrow> l_add_blocks J p' bs)"

definition l_convert_message :: "'j l_json \<Rightarrow> message \<Rightarrow> go_error + l_message list" where
  "l_convert_message J m =
     map_sum id (\<lambda>p.
        (if lp_content p \<noteq> [] \<or> lp_images p \<noteq> [] \<or> (lp_results p = [] \<and> msg_content m = []) then
           [\<lparr>lm_role = role_str (msg_role m), lm_content = lp_content p, lm_images = lp_images p\<rparr>] else [])
        @ lp_results p)
       (l_add_blocks J \<lparr>lp_content = [], lp_images = [], lp_results = []\<rparr> (msg_content m))"

fun l_convert_all :: "'j l_json \<Rightarrow> message list \<Rightarrow> go_error + l_message list" where
  "l_convert_all J [] = Inr []"
| "l_convert_all J (m # ms) =
     (case l_convert_message J m of
        Inl e \<Rightarrow> Inl e
      | Inr xs \<Rightarrow> (case l_convert_all J ms of Inl e \<Rightarrow> Inl e | Inr ys \<Rightarrow> Inr (xs @ ys)))"

definition l_system_prompt :: "'x chat_request \<Rightarrow> bool \<Rightarrow> string" where
  "l_system_prompt req use_compact =
     (if req_tools req \<noteq> [] then
        (if req_system req \<noteq> [] then
           req_system req @ [CHR 0x0A, CHR 0x0A] @ build_tool_instructions (req_tools req) use_compact
         else build_tool_instructions (req_tools req) use_compact)
      else req_system req)"

definition l_convert_messages :: "'j l_json \<Rightarrow> 'x chat_request \<Rightarrow> bool \<Rightarrow> go_error + l_message list" where
  "l_convert_messages J req use_compact =
     (let sys = l_system_prompt req use_compact in
      map_sum id (\<lambda>ms. (if sys \<noteq> [] then [\<lparr>lm_role = ''system'', lm_content = sys, lm_images = []\<rparr>] else []) @ ms)
        (l_convert_all J (req_messages req)))"

definition l_format_of :: "'j l_json \<Rightarrow> response_format option \<Rightarrow> 'j l_format" where
  "l_format_of J rf =
     (case rf of
        None \<Rightarrow> FormatNone
      | Some f \<Rightarrow>
          (case rf_type f of
             ResponseFormatJSON \<Rightarrow> FormatJSON
           | ResponseFormatJSONSchema \<Rightarrow>
               (case lj_schema J (rf_schema f) of None \<Rightarrow> FormatNone | Some s \<Rightarrow> FormatSchema s)
           | _ \<Rightarrow> FormatNone))"

definition l_build_request :: "'j l_json \<Rightarrow> l_client \<Rightarrow> 'x chat_request \<Rightarrow> bool \<Rightarrow> go_error + 'j l_request" where
  "l_build_request J c req stream =
     map_sum id (\<lambda>ms. \<lparr>lr_model = lc_model c, lr_messages = ms, lr_stream = stream,
         lr_format = l_format_of J (req_format req), lr_stop = req_stop req,
         lr_temperature = (if req_temperature req \<noteq> None then req_temperature req else lc_temperature c)\<rparr>)
       (l_convert_messages J req (use_compact_descriptions req (lc_base_url c)))"

subsection \<open>Reasoning blocks\<close>

text \<open>
  \<open>indexFoldASCII\<close>; \<open>strings.EqualFold\<close> of a slice with a needle of ASCII letters is equality
  up to their case.
\<close>

fun index_fold :: "string \<Rightarrow> string \<Rightarrow> nat option" where
  "index_fold [] needle = (if needle = [] then Some 0 else None)"
| "index_fold (c # cs) needle =
     (if needle = [] then Some 0
      else if length needle \<le> length (c # cs) \<and> to_lower (take (length needle) (c # cs)) = to_lower needle then Some 0
      else map_option Suc (index_fold cs needle))"

lemma index_fold_bound: "index_fold s needle = Some i \<Longrightarrow> i + length needle \<le> length s"
  by (induction s needle arbitrary: i rule: index_fold.induct) (auto split: if_splits)

definition open_tag :: string where "open_tag = ''<think>''"

definition close_tag :: string where "close_tag = ''</think>''"

text \<open>\<open>strings.TrimLeft(rest, " \t\r\n")\<close>.\<close>

definition trim_left :: "string \<Rightarrow> string" where
  "trim_left s = dropWhile (\<lambda>c. c \<in> {CHR 0x20, CHR 0x09, CHR 0x0D, CHR 0x0A}) s"

lemma trim_left_length: "length (trim_left s) \<le> length s"
  by (simp add: trim_left_def length_dropWhile_le)

function outside_tags :: "string \<Rightarrow> string" where
  "outside_tags rest =
     (case index_fold rest open_tag of
        None \<Rightarrow> rest
      | Some i \<Rightarrow>
          (let after = drop (i + length open_tag) rest in
           case index_fold after close_tag of
             None \<Rightarrow> take i rest
           | Some j \<Rightarrow> take i rest @ outside_tags (trim_left (drop (j + length close_tag) after))))"
  by pat_completeness auto
termination
proof (relation "measure length", goal_cases)
  case (2 rest i after j)
  have "i + length open_tag \<le> length rest" using index_fold_bound [OF 2(1)] .
  moreover have "length (trim_left (drop (j + length close_tag) after)) \<le> length after"
    using trim_left_length [of "drop (j + length close_tag) after"] by simp
  ultimately show ?case using 2(2) by (simp add: open_tag_def)
qed simp

declare outside_tags.simps [simp del]

definition strip_think_tags :: "string \<Rightarrow> string" where
  "strip_think_tags s = (if s = [] then s else trim_space (outside_tags s))"

subsection \<open>Tool calls in the text\<close>

text \<open>The matching brace of the first one: the text up to it, \<open>None\<close> when there is none.\<close>

fun match_brace :: "nat \<Rightarrow> string \<Rightarrow> string option" where
  "match_brace n [] = None"
| "match_brace n (c # cs) =
     (if c = CHR ''{'' then map_option ((#) c) (match_brace (Suc n) cs)
      else if c = CHR ''}'' then (if n = 1 then Some [c] else map_option ((#) c) (match_brace (n - 1) cs))
      else map_option ((#) c) (match_brace n cs))"

definition extract_json :: "string \<Rightarrow> string" where
  "extract_json s =
     (case match_brace 0 (dropWhile (\<lambda>c. c \<noteq> CHR ''{'') s) of None \<Rightarrow> [] | Some t \<Rightarrow> t)"

definition ollama_tool_use :: "string \<times> bytes \<Rightarrow> tool_use" where
  "ollama_tool_use t = \<lparr>tu_id = ''ollama-tool-1'', tu_name = fst t, tu_input = snd t, tu_signature = []\<rparr>"

definition try_parse_tool_call :: "'j l_json \<Rightarrow> string \<Rightarrow> tool_use option" where
  "try_parse_tool_call J content =
     (let (ok, call) = lj_call J ([], []) content in
      if ok \<and> fst call \<noteq> [] then Some (ollama_tool_use call)
      else
        (let extracted = extract_json content in
         if extracted = [] then None
         else (let (ok2, call2) = lj_call J call extracted in
               if ok2 \<and> fst call2 \<noteq> [] then Some (ollama_tool_use call2) else None)))"

subsection \<open>\<open>Chat\<close>\<close>

record l_response =
  ls_content :: string
  ls_done :: bool
  ls_prompt_eval :: int
  ls_eval :: int

definition l_usage_of :: "l_response \<Rightarrow> token_usage" where
  "l_usage_of r = zero_usage\<lparr>us_prompt := ls_prompt_eval r, us_completion := ls_eval r,
     us_total := wrap64 (ls_prompt_eval r + ls_eval r)\<rparr>"

definition l_parse_response :: "'j l_json \<Rightarrow> l_response \<Rightarrow> bool \<Rightarrow> chat_response" where
  "l_parse_response J r has_tools =
     (let resp = \<lparr>resp_content = [], resp_stop = StopReasonEndTurn, resp_usage = l_usage_of r\<rparr>;
          content = strip_think_tags (ls_content r) in
      if content = [] then resp
      else (case (if has_tools then try_parse_tool_call J content else None) of
              Some t \<Rightarrow> resp\<lparr>resp_stop := StopReasonToolUse, resp_content := [tool_use_block t]\<rparr>
            | None \<Rightarrow> resp\<lparr>resp_content := [text_block content]\<rparr>))"

text \<open>\<open>post\<close> is \<open>DoJSON\<close> on /api/chat, with the struct it decoded.\<close>

definition ollama_chat ::
  "'j l_json \<Rightarrow> (bytes \<Rightarrow> string) \<Rightarrow> ('j l_request \<Rightarrow> 'w \<Rightarrow> (json_result \<times> l_response) \<times> 'w) \<Rightarrow>
     'x chat_request \<Rightarrow> l_client \<Rightarrow> 'w \<Rightarrow> (go_error + chat_response) \<times> l_client \<times> 'w" where
  "ollama_chat J message post req c w =
     (case ollama_reject_documents req of
        Some e \<Rightarrow> (Inl e, c, w)
      | None \<Rightarrow>
          (case l_build_request J c req False of
             Inl e \<Rightarrow> (Inl e, c, w)
           | Inr r \<Rightarrow>
               (let ((jr, raw), w1) = post r w in
                case check_status (ollama_map_error message) ollama_decode_error jr of
                  Some e \<Rightarrow> (Inl e, c, w1)
                | None \<Rightarrow>
                    (let resp = l_parse_response J raw (req_tools req \<noteq> [])
                     in (Inr resp, ollama_add_usage c (resp_usage resp), w1)))))"

subsection \<open>\<open>ChatStream\<close>\<close>

text \<open>
  \<open>DoSSERequest\<close>, with the status and what one \<open>Read\<close> of up to 4096 bytes of an error body gives.
\<close>

definition ollama_chat_stream ::
  "'j l_json \<Rightarrow> (bytes \<Rightarrow> string) \<Rightarrow> ('j l_request \<Rightarrow> 'w \<Rightarrow> (go_error + int \<times> bytes) \<times> 'w) \<Rightarrow>
     'x chat_request \<Rightarrow> l_client \<Rightarrow> 'w \<Rightarrow> (go_error + unit) \<times> 'w" where
  "ollama_chat_stream J message connect req c w =
     (case ollama_reject_documents req of
        Some e \<Rightarrow> (Inl e, w)
      | None \<Rightarrow>
          (case l_build_request J c req True of
             Inl e \<Rightarrow> (Inl e, w)
           | Inr r \<Rightarrow>
               (case connect r w of
                  (Inl e, w1) \<Rightarrow> (Inl e, w1)
                | (Inr (status, body), w1) \<Rightarrow>
                    if status < 200 \<or> 300 \<le> status then (Inl (ollama_map_error message status body), w1)
                    else (Inr (), w1))))"

definition final_chunks :: "'j l_json \<Rightarrow> bool \<Rightarrow> string \<Rightarrow> chunk list" where
  "final_chunks J has_tools accumulated =
     (let full = strip_think_tags accumulated in
      if has_tools then
        (case try_parse_tool_call J full of
           Some t \<Rightarrow> [tool_start_chunk (t\<lparr>tu_signature := []\<rparr>)]
         | None \<Rightarrow> if full \<noteq> [] then [text_chunk full] else [])
      else [])"

text \<open>
  The goroutine over the decoded chunks: what it sends, its error, and the usages it counts.
  \<open>stop\<close> is the error that ends the decoding, \<open>None\<close> at the end of the body.
\<close>

fun l_stream_loop ::
  "'j l_json \<Rightarrow> bool \<Rightarrow> go_error option \<Rightarrow> string \<Rightarrow> l_response list \<Rightarrow>
     chunk list \<times> go_error option \<times> token_usage list" where
  "l_stream_loop J has_tools stop accumulated [] = ([], map_option (WrapErr ''decode stream chunk: '') stop, [])"
| "l_stream_loop J has_tools stop accumulated (r # rs) =
     (let acc = accumulated @ ls_content r;
          sent = (if ls_content r \<noteq> [] \<and> \<not> has_tools then [text_chunk (ls_content r)] else [])
      in if ls_done r then
           (sent @ final_chunks J has_tools acc @ [done_chunk (l_usage_of r)], None, [l_usage_of r])
         else (let (rest, err, counted) = l_stream_loop J has_tools stop acc rs in (sent @ rest, err, counted)))"

subsection \<open>Embeddings\<close>

definition embed_num_ctx :: "l_client \<Rightarrow> int option" where
  "embed_num_ctx c =
     (case ollama_find_extension (lc_extensions c) of
        None \<Rightarrow> None
      | Some x \<Rightarrow> if 0 < lx_context_length x then Some (lx_context_length x) else None)"

text \<open>\<open>post\<close> is \<open>DoJSON\<close> on /api/embed with the embeddings and the token count it decoded.\<close>

type_synonym 'w l_embed = "string \<times> int option \<Rightarrow> 'w \<Rightarrow> (json_result \<times> vec list \<times> int) \<times> 'w"

record l_embedded =
  le_result :: "go_error + vec"
  le_status :: int
  le_body :: bytes

definition embed_once ::
  "(bytes \<Rightarrow> string) \<Rightarrow> 'w l_embed \<Rightarrow> string \<Rightarrow> l_client \<Rightarrow> 'w \<Rightarrow> l_embedded \<times> l_client \<times> 'w" where
  "embed_once message post s c w =
     (let ((jr, vecs, prompt), w1) = post (s, embed_num_ctx c) w;
          body = (case jr_body jr of None \<Rightarrow> [] | Some b \<Rightarrow> b) in
      case (if jr_status jr = 0 then jr_err jr else None) of
        Some e \<Rightarrow> (\<lparr>le_result = Inl e, le_status = 0, le_body = []\<rparr>, c, w1)
      | None \<Rightarrow>
          if jr_status jr < 200 \<or> 300 \<le> jr_status jr then
            (\<lparr>le_result = Inl (ollama_map_error message (jr_status jr) body), le_status = jr_status jr, le_body = body\<rparr>, c, w1)
          else
           (case jr_err jr of
              Some e \<Rightarrow> (\<lparr>le_result = Inl (ollama_decode_error (jr_status jr) e), le_status = jr_status jr, le_body = []\<rparr>, c, w1)
            | None \<Rightarrow>
                (case vecs of
                   [] \<Rightarrow> (\<lparr>le_result = Inl (provider_err ollama_name ErrProviderError ''no embedding data returned''),
                           le_status = jr_status jr, le_body = body\<rparr>, c, w1)
                 | v # _ \<Rightarrow> (\<lparr>le_result = Inr v, le_status = jr_status jr, le_body = body\<rparr>,
                             ollama_add_usage c (zero_usage\<lparr>us_prompt := prompt, us_total := prompt\<rparr>), w1))))"

definition should_retry_with_truncation :: "int \<Rightarrow> bytes \<Rightarrow> bool" where
  "should_retry_with_truncation status body \<longleftrightarrow>
     status = 500 \<or> contains body ''the input length exceeds the context length''"

text \<open>The last space at or before an offset other than the first, or the offset itself.\<close>

fun cut_at :: "string \<Rightarrow> nat \<Rightarrow> nat option" where
  "cut_at s 0 = None"
| "cut_at s (Suc i) = (if s ! Suc i = CHR '' '' then Some (Suc i) else cut_at s i)"

text \<open>The fractions are quarters, on which \<open>int(float64(len) * fraction)\<close> is exact.\<close>

definition truncate_at_word_boundary :: "string \<Rightarrow> nat \<Rightarrow> string" where
  "truncate_at_word_boundary s quarters =
     (let target = length s * quarters div 4 in
      if target = 0 then []
      else if length s \<le> target then s
      else (case cut_at s target of Some i \<Rightarrow> take i s | None \<Rightarrow> take target s))"

fun embed_retries ::
  "(bytes \<Rightarrow> string) \<Rightarrow> 'w l_embed \<Rightarrow> string \<Rightarrow> go_error \<Rightarrow> nat list \<Rightarrow> l_client \<Rightarrow> 'w \<Rightarrow>
     (go_error + vec) \<times> l_client \<times> 'w" where
  "embed_retries message post s err [] c w = (Inl err, c, w)"
| "embed_retries message post s err (q # qs) c w =
     (let t = truncate_at_word_boundary s q in
      if t = [] \<or> t = s then embed_retries message post s err qs c w
      else (let (r, c1, w1) = embed_once message post t c w in
            case le_result r of
              Inr v \<Rightarrow> (Inr v, c1, w1)
            | Inl e \<Rightarrow> embed_retries message post s err qs c1 w1))"

definition ollama_embed ::
  "(bytes \<Rightarrow> string) \<Rightarrow> 'w l_embed \<Rightarrow> string \<Rightarrow> l_client \<Rightarrow> 'w \<Rightarrow> (go_error + vec) \<times> l_client \<times> 'w" where
  "ollama_embed message post s c w =
     (let (r, c1, w1) = embed_once message post s c w in
      case le_result r of
        Inr v \<Rightarrow> (Inr v, c1, w1)
      | Inl e \<Rightarrow>
          if (case ollama_find_extension (lc_extensions c) of None \<Rightarrow> True | Some x \<Rightarrow> \<not> lx_truncate x) then (Inl e, c1, w1)
          else if \<not> should_retry_with_truncation (le_status r) (le_body r) then (Inl e, c1, w1)
          else embed_retries message post s e [3, 2, 1] c1 w1)"

fun ollama_embed_batch ::
  "(bytes \<Rightarrow> string) \<Rightarrow> 'w l_embed \<Rightarrow> string list \<Rightarrow> l_client \<Rightarrow> 'w \<Rightarrow> (go_error + vec list) \<times> l_client \<times> 'w" where
  "ollama_embed_batch message post [] c w = (Inr [], c, w)"
| "ollama_embed_batch message post (s # ss) c w =
     (case ollama_embed message post s c w of
        (Inl e, c1, w1) \<Rightarrow> (Inl e, c1, w1)
      | (Inr v, c1, w1) \<Rightarrow>
          (case ollama_embed_batch message post ss c1 w1 of
             (Inl e, c2, w2) \<Rightarrow> (Inl e, c2, w2)
           | (Inr vs, c2, w2) \<Rightarrow> (Inr (v # vs), c2, w2)))"

subsection \<open>Models\<close>

definition shown_capability :: "string \<Rightarrow> capability list" where
  "shown_capability s =
     (if s = ''completion'' then [CapChat, CapStreaming]
      else if s = ''embedding'' then [CapEmbeddings]
      else if s = ''tools'' then [CapTools]
      else if s = ''vision'' then [CapVision]
      else [])"

definition capabilities_for_model :: "json_result \<Rightarrow> string list \<Rightarrow> capability list" where
  "capabilities_for_model jr shown =
     (if jr_err jr \<noteq> None \<or> jr_status jr < 200 \<or> 300 \<le> jr_status jr \<or> shown = [] then [CapChat, CapStreaming]
      else (let caps = concat (map shown_capability shown) in
            if caps = [] then [CapChat, CapStreaming] else caps))"

text \<open>\<open>show\<close> is the call to /api/show for a name.\<close>

fun show_models ::
  "(string \<Rightarrow> 'w \<Rightarrow> (json_result \<times> string list) \<times> 'w) \<Rightarrow> string list \<Rightarrow> 'w \<Rightarrow> model_info list \<times> 'w" where
  "show_models show_model [] w = ([], w)"
| "show_models show_model (n # ns) w =
     (let ((jr, shown), w1) = show_model n w; (infos, w2) = show_models show_model ns w1
      in (model_entry n (capabilities_for_model jr shown) 0 # infos, w2))"

definition ollama_list_models ::
  "(bytes \<Rightarrow> string) \<Rightarrow> (string \<Rightarrow> 'w \<Rightarrow> (json_result \<times> string list) \<times> 'w) \<Rightarrow> json_result \<Rightarrow> string list \<Rightarrow>
     capability list option list \<Rightarrow> 'w \<Rightarrow> (go_error + model_info list) \<times> 'w" where
  "ollama_list_models message show_model jr names opts w =
     (case check_status (ollama_map_error message) ollama_decode_error jr of
        Some e \<Rightarrow> (Inl e, w)
      | None \<Rightarrow>
          (let (infos, w1) = show_models show_model names w
           in (Inr (filter_model_infos infos (list_models_config opts)), w1)))"

end
