(* ===== verification/OllamaProps.thy ===== *)
theory OllamaProps
  imports Ollama
begin

text \<open>What the Ollama client guarantees, and where ChatStream falls short of Chat.\<close>

subsection \<open>Streaming and not streaming\<close>

definition merged :: "string list \<Rightarrow> l_response \<Rightarrow> l_response" where
  "merged fs r = r\<lparr>ls_content := concat fs @ ls_content r\<rparr>"

lemma l_stream_loop_done:
  assumes "list_all (\<lambda>r. \<not> ls_done r) pre" and "ls_done r"
  shows "l_stream_loop J has_tools stop acc (pre @ r # post)
    = ((if has_tools then [] else map text_chunk (filter (\<lambda>f. f \<noteq> []) (map ls_content (pre @ [r]))))
       @ final_chunks J has_tools (acc @ concat (map ls_content (pre @ [r]))) @ [done_chunk (l_usage_of r)],
       None, [l_usage_of r])"
  using assms(1)
proof (induction pre arbitrary: acc)
  case Nil
  then show ?case using assms(2) by (simp add: Let_def)
next
  case (Cons p pre)
  then show ?case using Cons.IH [of "acc @ ls_content p"] by (simp add: Let_def)
qed

lemma assemble_texts:
  "assemble (map text_chunk fs @ [done_chunk u])
    = \<lparr>resp_content = (if concat fs = [] then [] else [text_block (concat fs)]), resp_stop = StopReasonUnset, resp_usage = u\<rparr>"
proof -
  have "foldl accumulate asm_init (map text_chunk fs) = asm_init\<lparr>as_text := concat fs\<rparr>"
    using foldl_text [of asm_init "[]" fs] by (simp add: asm_init_def think_init_def)
  then show ?thesis
    by (simp add: assemble_def accumulate_def chunk_makers asm_init_def flush_defs response_of_def)
qed

lemma assemble_one_call:
  "assemble [tool_start_chunk t, done_chunk u]
    = \<lparr>resp_content = [tool_use_block t], resp_stop = StopReasonUnset, resp_usage = u\<rparr>"
  by (cases t) (simp add: assemble_def accumulate_def chunk_makers asm_init_def flush_defs response_of_def Let_def)

lemma try_parse_signature: "try_parse_tool_call J s = Some t \<Longrightarrow> t\<lparr>tu_signature := []\<rparr> = t"
  by (auto simp: try_parse_tool_call_def ollama_tool_use_def Let_def split: prod.splits if_splits)


definition demo_l_json :: "unit l_json" where
  "demo_l_json = \<lparr>lj_marshal_call = (\<lambda>n i. ''{'' @ n @ ''}''), lj_schema = (\<lambda>b. None),
     lj_call = (\<lambda>old b. if b = ''{f}'' then (True, ''f'', ''{}'') else (False, old))\<rparr>"

definition l_chunk :: "string \<Rightarrow> bool \<Rightarrow> l_response" where
  "l_chunk s last_one = \<lparr>ls_content = s, ls_done = last_one, ls_prompt_eval = 1, ls_eval = 2\<rparr>"


text \<open>
  Without tools ChatStream sends the text as it comes, so a reasoning block Chat strips reaches
  the caller of ChatStream.
\<close>

lemma reasoning_streamed:
  assumes "f \<noteq> []"
  shows "content_text (resp_content (assemble (fst (l_stream_loop J False None [] [l_chunk f True])))) = f"
  using assms assemble_texts [of "[f]" "l_usage_of (l_chunk f True)"]
  by (simp add: l_chunk_def final_chunks_def Let_def)

lemma reasoning_stripped:
  "resp_content (l_parse_response J (l_chunk ''<think>a</think>b'' True) False) = [text_block ''b'']"
proof -
  have a: "index_fold ''<think>a</think>b'' open_tag = Some 0" by code_simp
  have b: "index_fold ''a</think>b'' close_tag = Some 1" by code_simp
  have c: "index_fold ''b'' open_tag = None" by code_simp
  have d: "outside_tags ''b'' = ''b''" by (subst outside_tags.simps) (simp only: c option.case)
  have after: "drop (0 + length open_tag) ''<think>a</think>b'' = ''a</think>b''" by (simp add: open_tag_def)
  have rest: "trim_left (drop (1 + length close_tag) ''a</think>b'') = ''b''"
    by (simp add: close_tag_def trim_left_def)
  have "outside_tags ''<think>a</think>b'' = ''b''"
    by (subst outside_tags.simps) (simp only: a option.case Let_def after b rest d take_0 append_Nil)
  then show ?thesis
    by (simp add: l_parse_response_def l_chunk_def strip_think_tags_def go_string)
qed

text \<open>
  A body that ends without a final chunk, as one does after an error object, is the end of the
  stream and no error: with tools, all the text buffered so far is dropped with it.
\<close>

lemma cut_stream_dropped:
  assumes "list_all (\<lambda>r. \<not> ls_done r) rs"
  shows "l_stream_loop J True None acc rs = ([], None, [])"
  using assms by (induction rs arbitrary: acc) (simp_all add: Let_def)

subsection \<open>Calls in the text\<close>

lemma match_brace_append: "match_brace n s = Some t \<Longrightarrow> match_brace n (s @ rest) = Some t"
  by (induction n s arbitrary: t rule: match_brace.induct) (auto split: if_splits)

lemma match_brace_prefix: "match_brace n s = Some t \<Longrightarrow> prefix t s"
  by (induction n s arbitrary: t rule: match_brace.induct) (auto split: if_splits)

lemma match_brace_Some_nonempty: "match_brace n s \<noteq> Some []"
  by (induction n s rule: match_brace.induct) auto

text \<open>A text whose braces match, with its last the match of its first.\<close>

definition braced :: "string \<Rightarrow> bool" where
  "braced s \<longleftrightarrow> s \<noteq> [] \<and> hd s = CHR ''{'' \<and> match_brace 0 s = Some s"

lemma extract_braced:
  assumes "braced s" and "CHR ''{'' \<notin> set pre"
  shows "extract_json (pre @ s @ post) = s"
proof -
  obtain cs where s: "s = CHR ''{'' # cs" using assms(1) by (cases s) (auto simp: braced_def)
  have "dropWhile (\<lambda>c. c \<noteq> CHR ''{'') (pre @ s @ post) = s @ post"
    using assms(2) s by (subst dropWhile_append2) auto
  moreover have "match_brace 0 (s @ post) = Some s"
    using assms(1) match_brace_append by (auto simp: braced_def)
  ultimately show ?thesis by (simp add: extract_json_def)
qed



text \<open>A brace inside a string counts, so a call with one in its arguments is cut short.\<close>

lemma brace_in_string_cuts:
  "extract_json ([CHR 0x7B, CHR 0x22, CHR 0x7D, CHR 0x22, CHR 0x7D]) = [CHR 0x7B, CHR 0x22, CHR 0x7D]"
  by (simp add: extract_json_def)

subsection \<open>Truncated embeddings\<close>

text \<open>The texts sent, recorded beside the world of a sender.\<close>

definition logged :: "'w l_embed \<Rightarrow> ('w \<times> string list) l_embed" where
  "logged post q wl = (case post q (fst wl) of (x, w') \<Rightarrow> (x, (w', snd wl @ [fst q])))"

lemma cut_at_bound: "cut_at s n = Some i \<Longrightarrow> 0 < i \<and> i \<le> n \<and> s ! i = CHR '' ''"
  by (induction s n rule: cut_at.induct) (auto split: if_splits)

lemma cut_at_None: "cut_at s n = None \<Longrightarrow> 0 < j \<Longrightarrow> j \<le> n \<Longrightarrow> s ! j \<noteq> CHR '' ''"
  by (induction s n rule: cut_at.induct) (auto simp: le_Suc_eq split: if_splits)

text \<open>A cut of at most a number of quarters, at a space when there is one to cut at.\<close>

definition cut_ok :: "string \<Rightarrow> nat \<Rightarrow> string \<Rightarrow> bool" where
  "cut_ok s q t \<longleftrightarrow> t \<noteq> [] \<and> strict_prefix t s \<and> 4 * length t \<le> q * length s \<and>
     (s ! length t = CHR '' '' \<or>
      length t = length s * q div 4 \<and> (\<forall>j. 0 < j \<and> j \<le> length t \<longrightarrow> s ! j \<noteq> CHR '' ''))"

text \<open>A text cut at one of the three fractions.\<close>

definition is_cut :: "string \<Rightarrow> string \<Rightarrow> bool" where
  "is_cut s t \<longleftrightarrow> cut_ok s 1 t \<or> cut_ok s 2 t \<or> cut_ok s 3 t"

lemma is_cut_iff: "list_all (is_cut s) ts \<longleftrightarrow> (\<forall>t \<in> set ts. \<exists>q \<in> {1, 2, 3}. cut_ok s q t)"
  by (auto simp: is_cut_def list_all_iff)

lemma truncate_ok:
  assumes "truncate_at_word_boundary s q \<noteq> []" and "truncate_at_word_boundary s q \<noteq> s"
  shows "cut_ok s q (truncate_at_word_boundary s q)"
proof -
  let ?n = "length s * q div 4"
  have n: "0 < ?n" "?n < length s" using assms by (auto simp: truncate_at_word_boundary_def Let_def split: if_splits)
  have quarters: "4 * ?n \<le> q * length s" by (simp add: mult.commute)
  have pre: "strict_prefix (take i s) s" "take i s \<noteq> []" "length (take i s) = i" if "0 < i" "i \<le> ?n" for i
  proof -
    have i: "0 < i" "i < length s" using that n by simp_all
    show len: "length (take i s) = i" using i by simp
    show "take i s \<noteq> []" using i by (metis len length_greater_0_conv)
    show "strict_prefix (take i s) s" unfolding strict_prefix_def using i len take_is_prefix [of i s] by (metis less_irrefl)
  qed
  show ?thesis
  proof (cases "cut_at s ?n")
    case None
    then have "truncate_at_word_boundary s q = take ?n s" using n by (simp add: truncate_at_word_boundary_def Let_def)
    then show ?thesis using pre [of ?n] n quarters cut_at_None [OF None] by (auto simp: cut_ok_def)
  next
    case (Some i)
    then have "truncate_at_word_boundary s q = take i s" using n by (simp add: truncate_at_word_boundary_def Let_def)
    moreover have "4 * i \<le> q * length s" using cut_at_bound [OF Some] quarters by linarith
    ultimately show ?thesis using pre [of i] cut_at_bound [OF Some] by (auto simp: cut_ok_def)
  qed
qed

text \<open>Every send of a retry is a cut; a successful one ends the retries.\<close>

lemma embed_once_logged:
  "\<exists>r c' w'. embed_once message (logged post) s c (w, log) = (r, c', (w', log @ [s]))"
  by (auto simp: embed_once_def logged_def Let_def split: prod.split option.split list.split)

lemma embed_retries_logged:
  "case embed_retries message (logged post) s err qs c (w, log) of
     (res, c', (w', log')) \<Rightarrow>
       (\<exists>ts. log' = log @ ts \<and> length ts \<le> length qs \<and> (\<forall>t \<in> set ts. \<exists>q \<in> set qs. cut_ok s q t)) \<and>
       (case res of Inl e \<Rightarrow> e = err | Inr v \<Rightarrow> True)"
proof (induction qs arbitrary: c w log)
  case (Cons q qs)
  let ?t = "truncate_at_word_boundary s q"
  show ?case
  proof (cases "?t = [] \<or> ?t = s")
    case True
    then show ?thesis using Cons.IH [where c = c and w = w and log = log] by (fastforce simp: Let_def)
  next
    case False
    then have ok: "cut_ok s q ?t" using truncate_ok by blast
    obtain r c1 w1 where o: "embed_once message (logged post) ?t c (w, log) = (r, c1, (w1, log @ [?t]))"
      using embed_once_logged [where s = ?t and c = c and w = w and log = log and message = message and post = post]
      by blast
    show ?thesis
    proof (cases "le_result r")
      case (Inr v)
      have "\<exists>ts. log @ [?t] = log @ ts \<and> length ts \<le> length (q # qs) \<and> (\<forall>t \<in> set ts. \<exists>q \<in> set (q # qs). cut_ok s q t)"
        using ok by (intro exI [of _ "[?t]"]) auto
      with False o Inr show ?thesis by (simp add: Let_def)
    next
      case (Inl e)
      obtain res c2 w2 log2 where l: "embed_retries message (logged post) s err qs c1 (w1, log @ [?t]) = (res, c2, (w2, log2))"
        by (metis surj_pair)
      then obtain ts where ts: "log2 = (log @ [?t]) @ ts" "length ts \<le> length qs"
        "\<forall>t \<in> set ts. \<exists>q \<in> set qs. cut_ok s q t" "case res of Inl e \<Rightarrow> e = err | Inr v \<Rightarrow> True"
        using Cons.IH [where c = c1 and w = w1 and log = "log @ [?t]"] by auto
      have "\<exists>ts. log2 = log @ ts \<and> length ts \<le> length (q # qs) \<and> (\<forall>t \<in> set ts. \<exists>q \<in> set (q # qs). cut_ok s q t)"
        using ts ok by (intro exI [of _ "?t # ts"]) auto
      with False o Inl l ts(4) show ?thesis by (simp add: Let_def)
    qed
  qed
qed simp

text \<open>
  Embed sends at most four requests: the whole text first, and when truncation is asked for
  and the failure calls for it, at most three cuts of it, each shorter than the text, of at
  most three quarters, and ending at a space where there is one to end at. When none succeeds
  the error is that of the whole text.
\<close>

theorem ollama_embed_bounded:
  "case ollama_embed message (logged post) s c (w, []) of
     (res, c', (w', log)) \<Rightarrow>
       (\<exists>ts. log = s # ts \<and> length ts \<le> 3 \<and> list_all (is_cut s) ts) \<and>
       (case res of
          Inl e \<Rightarrow> le_result (fst (embed_once message post s c w)) = Inl e
        | Inr v \<Rightarrow> True)"
proof -
  obtain r c1 w1 where o: "embed_once message (logged post) s c (w, []) = (r, c1, (w1, [s]))"
    using embed_once_logged [where s = s and c = c and w = w and log = "[]" and message = message and post = post] by auto
  have r: "fst (embed_once message post s c w) = r"
    using o by (auto simp: embed_once_def logged_def Let_def split: prod.splits option.splits list.splits if_splits)
  show ?thesis
  proof (cases "le_result r")
    case (Inl e)
    obtain res c2 w2 log2 where l: "embed_retries message (logged post) s e [3, 2, 1] c1 (w1, [s]) = (res, c2, (w2, log2))"
      by (metis surj_pair)
    have "(\<exists>ts. log2 = s # ts \<and> length ts \<le> 3 \<and> (\<forall>t \<in> set ts. \<exists>q \<in> {1, 2, 3}. cut_ok s q t))"
      and "case res of Inl e' \<Rightarrow> e' = e | Inr v \<Rightarrow> True"
      using embed_retries_logged [where message = message and post = post and s = s and err = e
          and qs = "[3, 2, 1]" and c = c1 and w = w1 and log = "[s]"] l by auto
    with Inl o r l show ?thesis
      by (auto simp del: embed_retries.simps simp: ollama_embed_def is_cut_iff split: option.splits sum.splits)
  qed (use o r in \<open>simp add: ollama_embed_def is_cut_iff\<close>)
qed

end
