(* ===== verification/Voyage.thy ===== *)
theory Voyage
  imports ProviderBase Requests
begin

text \<open>
  The Voyage provider (\<open>voyage.go\<close>, \<open>voyage/extension.go\<close>): embeddings, multimodal embeddings
  and reranking. The decoded error body is a parameter (\<open>detail\<close> and \<open>error.message\<close>).
\<close>

subsection \<open>The client\<close>

definition voyage_name :: string where
  "voyage_name = ''voyage''"

text \<open>An \<open>InputType\<close> and an \<open>OutputDtype\<close> are strings, empty for the provider's default.\<close>

record voyage_extension =
  vx_input_type :: string
  vx_output_dimension :: int
  vx_truncation :: "bool option"
  vx_output_dtype :: string
  vx_return_documents :: "bool option"

text \<open>
  The dynamic type of a \<open>ProviderExtension\<close> as Voyage sees it: its struct, a pointer to it, or
  another provider's, by name. \<open>findExtension\<close> calls \<open>ProviderName\<close> on every entry before it,
  which panics on nil; the model has no such entry.
\<close>

datatype v_ext = VoyageExt voyage_extension | VoyageExtPtr voyage_extension | ForeignExt string

fun voyage_find_extension :: "v_ext list \<Rightarrow> voyage_extension option" where
  "voyage_find_extension [] = None"
| "voyage_find_extension (VoyageExt x # es) = Some x"
| "voyage_find_extension (VoyageExtPtr x # es) = Some x"
| "voyage_find_extension (ForeignExt n # es) = voyage_find_extension es"

record v_client =
  vc_api_key :: string
  vc_model :: string
  vc_usage :: token_usage

definition voyage_new ::
  "(string \<Rightarrow> bytes option) \<Rightarrow> (string \<Rightarrow> string) \<Rightarrow> (string \<Rightarrow> go_error) \<Rightarrow> base_client option \<Rightarrow>
     'x client_options \<Rightarrow> go_error + v_client \<times> string \<times> http_client" where
  "voyage_new read_file getenv parse_err base opts0 =
     map_sum id (\<lambda>su. (\<lparr>vc_api_key = opt_api_key (su_opts su), vc_model = opt_model (su_opts su),
                       vc_usage = zero_usage\<rparr>, su_base_url su, su_http su))
       (keyed_new read_file getenv parse_err voyage_name ''VOYAGE_API_KEY''
         (provider_err voyage_name ErrInvalidRequest
           ''Voyage API key is required (Options.APIKey or VOYAGE_API_KEY)'')
         ''https://api.voyageai.com/v1'' base opts0)"

definition voyage_add_usage :: "v_client \<Rightarrow> int \<Rightarrow> v_client" where
  "voyage_add_usage c tokens = c\<lparr>vc_usage := usage_add (vc_usage c) (zero_usage\<lparr>us_total := tokens\<rparr>)\<rparr>"

definition voyage_reset_usage :: "v_client \<Rightarrow> v_client" where
  "voyage_reset_usage c = c\<lparr>vc_usage := zero_usage\<rparr>"

definition voyage_chat :: go_error where
  "voyage_chat = provider_err voyage_name ErrNotSupported ''Voyage does not support chat completions''"

definition voyage_decide :: go_error where
  "voyage_decide = provider_err voyage_name ErrNotSupported ''Voyage does not support decision models''"

subsection \<open>Errors\<close>

definition voyage_sentinel :: "int \<Rightarrow> sentinel" where
  "voyage_sentinel status =
     (if status = 401 \<or> status = 403 then ErrAuthentication
      else if status = 429 then ErrRateLimit
      else if status = 400 then ErrInvalidRequest
      else ErrProviderError)"

definition voyage_detail :: "(bytes \<Rightarrow> string \<times> string) \<Rightarrow> bytes \<Rightarrow> string" where
  "voyage_detail unmarshal body =
     (if fst (unmarshal body) = [] then snd (unmarshal body) else fst (unmarshal body))"

text \<open>\<open>postJSON\<close>, after the call.\<close>

definition voyage_check :: "(bytes \<Rightarrow> string \<times> string) \<Rightarrow> v_client \<Rightarrow> json_result \<Rightarrow> go_error option" where
  "voyage_check unmarshal c jr =
     keyed_check voyage_name (vc_api_key c) voyage_sentinel (voyage_detail unmarshal) jr"

definition needs_model :: go_error where
  "needs_model = provider_err voyage_name ErrInvalidRequest ''Voyage requires Options.Model''"

subsection \<open>Embeddings\<close>

record v_embed_request =
  ver_input :: "string list"
  ver_model :: string
  ver_input_type :: string
  ver_truncation :: "bool option"
  ver_output_dimension :: int
  ver_output_dtype :: string

definition voyage_embed_request :: "string list \<Rightarrow> string \<Rightarrow> voyage_extension option \<Rightarrow> v_embed_request" where
  "voyage_embed_request texts model ext =
     (case ext of
        None \<Rightarrow> \<lparr>ver_input = texts, ver_model = model, ver_input_type = [], ver_truncation = None,
                 ver_output_dimension = 0, ver_output_dtype = []\<rparr>
      | Some x \<Rightarrow> \<lparr>ver_input = texts, ver_model = model, ver_input_type = vx_input_type x,
                   ver_truncation = vx_truncation x, ver_output_dimension = vx_output_dimension x,
                   ver_output_dtype = vx_output_dtype x\<rparr>)"

text \<open>Every vector at its index, then the first index without one; a nil slice is the empty vector.\<close>

fun voyage_place :: "vec list \<Rightarrow> (vec \<times> int) list \<Rightarrow> vec list option" where
  "voyage_place out [] = Some out"
| "voyage_place out ((v, i) # ds) =
     (if i < 0 \<or> int (length out) \<le> i then None else voyage_place (out[nat i := v]) ds)"

definition voyage_vectors :: "nat \<Rightarrow> (vec \<times> int) list \<Rightarrow> go_error + vec list" where
  "voyage_vectors n ds =
     (case voyage_place (replicate n []) ds of
        None \<Rightarrow> Inl (provider_err voyage_name ErrProviderError ''embedding index out of range'')
      | Some out \<Rightarrow>
          (case first_empty 0 out of
             Some i \<Rightarrow> Inl (provider_err voyage_name ErrProviderError (''missing embedding at index '' @ itoa (int i)))
           | None \<Rightarrow> Inr out))"

text \<open>After the call, for both kinds of embeddings: the vectors and the total tokens of the body.\<close>

definition voyage_embedded ::
  "(bytes \<Rightarrow> string \<times> string) \<Rightarrow> v_client \<Rightarrow> nat \<Rightarrow> json_result \<Rightarrow> (vec \<times> int) list \<times> int \<Rightarrow>
     (go_error + vec list) \<times> v_client" where
  "voyage_embedded unmarshal c n jr resp =
     (case voyage_check unmarshal c jr of
        Some e \<Rightarrow> (Inl e, c)
      | None \<Rightarrow>
          (case voyage_vectors n (fst resp) of
             Inl e \<Rightarrow> (Inl e, c)
           | Inr out \<Rightarrow> (Inr out, voyage_add_usage c (snd resp))))"

text \<open>\<open>post\<close> is \<open>DoJSON\<close>: its result, and the decoded body.\<close>

definition voyage_embed_texts ::
  "(bytes \<Rightarrow> string \<times> string) \<Rightarrow> (v_embed_request \<Rightarrow> 'w \<Rightarrow> (json_result \<times> (vec \<times> int) list \<times> int) \<times> 'w) \<Rightarrow>
     v_client \<Rightarrow> string list \<Rightarrow> string \<Rightarrow> voyage_extension option \<Rightarrow> 'w \<Rightarrow>
     (go_error + vec list) \<times> v_client \<times> 'w" where
  "voyage_embed_texts unmarshal post c texts model ext w =
     (if model = [] then (Inl needs_model, c, w)
      else (let ((jr, resp), w1) = post (voyage_embed_request texts model ext) w;
                (res, c1) = voyage_embedded unmarshal c (length texts) jr resp
            in (res, c1, w1)))"

definition voyage_embed_batch ::
  "(bytes \<Rightarrow> string \<times> string) \<Rightarrow> (v_embed_request \<Rightarrow> 'w \<Rightarrow> (json_result \<times> (vec \<times> int) list \<times> int) \<times> 'w) \<Rightarrow>
     v_client \<Rightarrow> string list \<Rightarrow> 'w \<Rightarrow> (go_error + vec list) \<times> v_client \<times> 'w" where
  "voyage_embed_batch unmarshal post c texts w = voyage_embed_texts unmarshal post c texts (vc_model c) None w"

definition voyage_embed ::
  "(bytes \<Rightarrow> string \<times> string) \<Rightarrow> (v_embed_request \<Rightarrow> 'w \<Rightarrow> (json_result \<times> (vec \<times> int) list \<times> int) \<times> 'w) \<Rightarrow>
     v_client \<Rightarrow> string \<Rightarrow> 'w \<Rightarrow> (go_error + vec) \<times> v_client \<times> 'w" where
  "voyage_embed unmarshal post c txt w =
     (case voyage_embed_texts unmarshal post c [txt] (vc_model c) None w of
        (Inl e, c1, w1) \<Rightarrow> (Inl e, c1, w1)
      | (Inr [], c1, w1) \<Rightarrow> (Inl (provider_err voyage_name ErrProviderError ''empty embedding response''), c1, w1)
      | (Inr (v # vs), c1, w1) \<Rightarrow> (Inr v, c1, w1))"

text \<open>\<open>Ping\<close>: a client error other than an authentication failure means Voyage can be reached.\<close>

definition voyage_ping ::
  "(bytes \<Rightarrow> string \<times> string) \<Rightarrow> (v_embed_request \<Rightarrow> 'w \<Rightarrow> (json_result \<times> (vec \<times> int) list \<times> int) \<times> 'w) \<Rightarrow>
     v_client \<Rightarrow> 'w \<Rightarrow> go_error option \<times> v_client \<times> 'w" where
  "voyage_ping unmarshal post c w =
     (let model = (if vc_model c = [] then ''voyage-3.5-lite'' else vc_model c);
          (res, c1, w1) = voyage_embed_texts unmarshal post c [''.''] model None w
      in ((case res of
             Inr v \<Rightarrow> None
           | Inl (ProviderErr pe) \<Rightarrow>
               if pe_status pe = 401 \<or> pe_status pe = 403 then Some (ProviderErr pe)
               else if 400 \<le> pe_status pe \<and> pe_status pe < 500 then None
               else Some (ProviderErr pe)
           | Inl e \<Rightarrow> Some e), c1, w1))"

subsection \<open>Multimodal embeddings\<close>

record v_content =
  vcw_type :: string
  vcw_text :: string
  vcw_image_url :: string
  vcw_image_base64 :: string

definition content_to_wire :: "multimodal_content \<Rightarrow> go_error + v_content" where
  "content_to_wire m =
     (case mc_type m of
        MultimodalText \<Rightarrow> Inr \<lparr>vcw_type = ''text'', vcw_text = mc_text m, vcw_image_url = [], vcw_image_base64 = []\<rparr>
      | MultimodalImageURL \<Rightarrow>
          Inr \<lparr>vcw_type = ''image_url'', vcw_text = [], vcw_image_url = mc_image_url m, vcw_image_base64 = []\<rparr>
      | MultimodalImageData \<Rightarrow>
          Inr \<lparr>vcw_type = ''image_base64'', vcw_text = [], vcw_image_url = [],
               vcw_image_base64 = base64 (mc_image_data m)\<rparr>
      | MultimodalOther t \<Rightarrow>
          Inl (provider_err voyage_name ErrInvalidRequest (''unsupported multimodal content type '' @ go_quote t)))"

fun map_result :: "('a \<Rightarrow> 'e + 'b) \<Rightarrow> 'a list \<Rightarrow> 'e + 'b list" where
  "map_result f [] = Inr []"
| "map_result f (x # xs) =
     (case f x of
        Inl e \<Rightarrow> Inl e
      | Inr y \<Rightarrow> (case map_result f xs of Inl e \<Rightarrow> Inl e | Inr ys \<Rightarrow> Inr (y # ys)))"

record v_multimodal_request =
  vmr_inputs :: "v_content list list"
  vmr_options :: v_embed_request

definition voyage_multimodal_request ::
  "v_client \<Rightarrow> v_ext multimodal_request \<Rightarrow> v_content list list \<Rightarrow> v_multimodal_request" where
  "voyage_multimodal_request c req inputs =
     \<lparr>vmr_inputs = inputs,
      vmr_options = voyage_embed_request [] (vc_model c) (voyage_find_extension (mm_extensions req))\<rparr>"

definition voyage_embed_multimodal ::
  "(bytes \<Rightarrow> string \<times> string) \<Rightarrow> (v_multimodal_request \<Rightarrow> 'w \<Rightarrow> (json_result \<times> (vec \<times> int) list \<times> int) \<times> 'w) \<Rightarrow>
     v_client \<Rightarrow> v_ext multimodal_request \<Rightarrow> 'w \<Rightarrow> (go_error + vec list) \<times> v_client \<times> 'w" where
  "voyage_embed_multimodal unmarshal post c req w =
     (if vc_model c = [] then (Inl needs_model, c, w)
      else (case map_result (map_result content_to_wire) (mm_inputs req) of
              Inl e \<Rightarrow> (Inl e, c, w)
            | Inr inputs \<Rightarrow>
                (let ((jr, resp), w1) = post (voyage_multimodal_request c req inputs) w;
                     (res, c1) = voyage_embedded unmarshal c (length (mm_inputs req)) jr resp
                 in (res, c1, w1))))"

subsection \<open>Reranking\<close>

record v_rerank_request =
  vrr_query :: string
  vrr_documents :: "string list"
  vrr_model :: string
  vrr_top_k :: "int option"
  vrr_return_documents :: "bool option"
  vrr_truncation :: "bool option"

definition voyage_rerank_request :: "v_client \<Rightarrow> v_ext rerank_request \<Rightarrow> v_rerank_request" where
  "voyage_rerank_request c req =
     (let ext = voyage_find_extension (rk_extensions req) in
      \<lparr>vrr_query = rk_query req, vrr_documents = rk_documents req, vrr_model = vc_model c,
       vrr_top_k = rk_top_k req, vrr_return_documents = Option.bind ext vx_return_documents,
       vrr_truncation = Option.bind ext vx_truncation\<rparr>)"

definition voyage_rerank ::
  "(bytes \<Rightarrow> string \<times> string) \<Rightarrow> (v_rerank_request \<Rightarrow> 'w \<Rightarrow> (json_result \<times> rerank_result list \<times> int) \<times> 'w) \<Rightarrow>
     v_client \<Rightarrow> v_ext rerank_request \<Rightarrow> 'w \<Rightarrow> (go_error + rerank_response) \<times> v_client \<times> 'w" where
  "voyage_rerank unmarshal post c req w =
     (if vc_model c = [] then (Inl needs_model, c, w)
      else (let ((jr, data, tokens), w1) = post (voyage_rerank_request c req) w in
            case voyage_check unmarshal c jr of
              Some e \<Rightarrow> (Inl e, c, w1)
            | None \<Rightarrow> (Inr \<lparr>rk_results = data, rk_usage = zero_usage\<lparr>us_total := tokens\<rparr>\<rparr>,
                       voyage_add_usage c tokens, w1)))"

subsection \<open>Models\<close>

definition voyage_entry :: "string \<Rightarrow> capability list \<Rightarrow> int \<Rightarrow> int \<Rightarrow> model_info" where
  "voyage_entry i caps context_window dims = (model_entry i caps dims)\<lparr>mi_context := context_window\<rparr>"

definition voyage_catalog :: "model_info list" where
  "voyage_catalog =
     (let embed = [CapEmbeddings] in
      [voyage_entry ''voyage-3.5'' embed 32000 1024, voyage_entry ''voyage-3.5-lite'' embed 32000 1024,
       voyage_entry ''voyage-3-large'' embed 32000 1024, voyage_entry ''voyage-3'' embed 32000 1024,
       voyage_entry ''voyage-3-lite'' embed 32000 512, voyage_entry ''voyage-code-3'' embed 32000 1024,
       voyage_entry ''voyage-finance-2'' embed 32000 1024, voyage_entry ''voyage-law-2'' embed 16000 1024,
       voyage_entry ''voyage-2'' embed 4000 1024,
       voyage_entry ''voyage-multimodal-3'' [CapEmbeddings, CapMultimodalEmbeddings] 32000 1024,
       voyage_entry ''rerank-2.5'' [CapReranking] 8000 0, voyage_entry ''rerank-2.5-lite'' [CapReranking] 8000 0])"

definition voyage_list_models :: "capability list option list \<Rightarrow> model_info list" where
  "voyage_list_models opts = filter_model_infos voyage_catalog (list_models_config opts)"

subsection \<open>What a caller may rely on\<close>

text \<open>The vectors the API gave for index \<open>i\<close>.\<close>

definition given :: "(vec \<times> int) list \<Rightarrow> nat \<Rightarrow> vec list" where
  "given ds i = map fst (filter (\<lambda>(v, j). j = int i) ds)"

lemma voyage_place_length: "voyage_place out ds = Some out' \<Longrightarrow> length out' = length out"
  by (induction out ds arbitrary: out' rule: voyage_place.induct) (auto split: if_splits)

lemma voyage_place_None: "voyage_place out ds = None \<longleftrightarrow> \<not> list_all (\<lambda>(v, i). 0 \<le> i \<and> i < int (length out)) ds"
  by (induction out ds rule: voyage_place.induct) auto

lemma given_Cons: "given ((v, i) # ds) k = (if i = int k then v # given ds k else given ds k)"
  by (simp add: given_def)

lemma voyage_place_nth:
  "voyage_place out ds = Some out' \<Longrightarrow> k < length out \<Longrightarrow> out' ! k = last (out ! k # given ds k)"
proof (induction out ds arbitrary: out' rule: voyage_place.induct)
  case (1 out)
  then show ?case by (simp add: given_def)
next
  case (2 out v i ds)
  then have i: "0 \<le> i" "i < int (length out)" and rest: "voyage_place (out[nat i := v]) ds = Some out'"
    by (auto split: if_splits)
  with "2.IH" [OF _ rest] 2(3) have "out' ! k = last (out[nat i := v] ! k # given ds k)" by simp
  with i 2(3) show ?case by (cases "i = int k") (auto simp: given_Cons)
qed

text \<open>Every vector has an index in range, and every index has a vector, the last of them not empty.\<close>

definition vectors_ok :: "nat \<Rightarrow> (vec \<times> int) list \<Rightarrow> bool" where
  "vectors_ok n ds \<longleftrightarrow> list_all (\<lambda>(v, i). 0 \<le> i \<and> i < int n) ds \<and>
     list_all (\<lambda>i. given ds i \<noteq> [] \<and> last (given ds i) \<noteq> []) [0..<n]"

lemma voyage_vectors_spec:
  "case voyage_vectors n ds of
     Inl e \<Rightarrow> \<not> vectors_ok n ds
   | Inr out \<Rightarrow> vectors_ok n ds \<and> out = map (\<lambda>i. last (given ds i)) [0..<n]"
proof (cases "voyage_place (replicate n []) ds")
  case None
  then have "\<not> vectors_ok n ds"
    using voyage_place_None [of "replicate n []" ds] by (simp add: vectors_ok_def)
  with None show ?thesis by (simp add: voyage_vectors_def)
next
  case (Some out)
  then have len: "length out = n" by (auto dest: voyage_place_length)
  have nth: "i < n \<Longrightarrow> out ! i = last ([] # given ds i)" for i
    using voyage_place_nth [OF Some] by simp
  have range: "list_all (\<lambda>(v, i). 0 \<le> i \<and> i < int n) ds"
    using Some voyage_place_None [of "replicate n []" ds] by simp
  have "[] \<notin> set out \<longleftrightarrow> (\<forall>i < n. out ! i \<noteq> [])" by (metis in_set_conv_nth len)
  also have "\<dots> \<longleftrightarrow> (\<forall>i < n. given ds i \<noteq> [] \<and> last (given ds i) \<noteq> [])"
    by (intro all_cong) (simp add: nth)
  finally have "[] \<notin> set out \<longleftrightarrow> list_all (\<lambda>i. given ds i \<noteq> [] \<and> last (given ds i) \<noteq> []) [0..<n]"
    by (simp add: list_all_iff Ball_def)
  then have miss: "first_empty 0 out = None \<longleftrightarrow> vectors_ok n ds"
    using range by (simp add: first_empty_None vectors_ok_def)
  show ?thesis
  proof (cases "first_empty 0 out")
    case None
    then have ok: "vectors_ok n ds" by (simp add: miss)
    then have "i < n \<Longrightarrow> given ds i \<noteq> []" for i by (simp add: vectors_ok_def list_all_iff)
    then have "i < n \<Longrightarrow> out ! i = last (given ds i)" for i using nth by simp
    then have "out = map (\<lambda>i. last (given ds i)) [0..<n]" by (intro nth_equalityI) (simp_all add: len)
    with ok None Some show ?thesis by (simp add: voyage_vectors_def)
  next
    case (Some i)
    with miss show ?thesis using \<open>voyage_place _ ds = Some out\<close> by (auto simp: voyage_vectors_def)
  qed
qed

lemma voyage_embedded_spec:
  "case voyage_embedded unmarshal c n jr (ds, tokens) of
     (res, c') \<Rightarrow>
       (let ok = (200 \<le> jr_status jr \<and> jr_status jr < 300 \<and> jr_err jr = None \<and> vectors_ok n ds) in
        (case res of Inl e \<Rightarrow> \<not> ok | Inr out \<Rightarrow> ok \<and> out = map (\<lambda>i. last (given ds i)) [0..<n]) \<and>
        vc_usage c' = (if ok then usage_add (vc_usage c) (zero_usage\<lparr>us_total := tokens\<rparr>) else vc_usage c))"
proof (cases "voyage_check unmarshal c jr")
  case None
  then have "200 \<le> jr_status jr \<and> jr_status jr < 300 \<and> jr_err jr = None"
    using keyed_check_None [of voyage_name "vc_api_key c" voyage_sentinel "voyage_detail unmarshal" jr]
    by (simp add: voyage_check_def)
  with None show ?thesis
    using voyage_vectors_spec [of n ds]
    by (cases "voyage_vectors n ds") (simp_all add: voyage_embedded_def voyage_add_usage_def)
next
  case (Some e)
  then have "\<not> (200 \<le> jr_status jr \<and> jr_status jr < 300 \<and> jr_err jr = None)"
    using keyed_check_None [of voyage_name "vc_api_key c" voyage_sentinel "voyage_detail unmarshal" jr]
    by (auto simp: voyage_check_def)
  with Some show ?thesis by (auto simp: voyage_embedded_def)
qed

text \<open>
  C40: EmbedBatch on Voyage succeeds exactly when there is a model, the call succeeded, every
  index the API gave is in range and every text has a vector that is not empty; the result is
  then one vector per text, in the order of the texts whatever the order of the response, and
  the tokens are counted once, and only then.
\<close>

theorem voyage_embed_batch_exact:
  "case voyage_embed_batch unmarshal post c texts w of
     (res, c', w') \<Rightarrow>
       if vc_model c = [] then res = Inl needs_model \<and> c' = c \<and> w' = w
       else (case post (voyage_embed_request texts (vc_model c) None) w of
               ((jr, ds, tokens), w1) \<Rightarrow> w' = w1 \<and>
                 (let ok = (200 \<le> jr_status jr \<and> jr_status jr < 300 \<and> jr_err jr = None \<and> vectors_ok (length texts) ds) in
                  (case res of
                     Inl e \<Rightarrow> \<not> ok
                   | Inr out \<Rightarrow> ok \<and> out = map (\<lambda>i. last (given ds i)) [0..<length texts]) \<and>
                  vc_usage c' = (if ok then usage_add (vc_usage c) (zero_usage\<lparr>us_total := tokens\<rparr>) else vc_usage c)))"
proof -
  obtain jr ds tokens w1 where "post (voyage_embed_request texts (vc_model c) None) w = ((jr, ds, tokens), w1)"
    by (metis surj_pair)
  moreover obtain res c1 where "voyage_embedded unmarshal c (length texts) jr (ds, tokens) = (res, c1)"
    by (metis surj_pair)
  ultimately show ?thesis
    using voyage_embedded_spec [where unmarshal = unmarshal and c = c and n = "length texts" and jr = jr
      and ds = ds and tokens = tokens]
    by (cases "vc_model c = []")
       (simp_all add: voyage_embed_batch_def voyage_embed_texts_def Let_def)
qed

end
