(* ===== verification/TypeSafe.thy ===== *)
theory TypeSafe
  imports Decisions
begin

text \<open>
  The TypeSafe provider (\<open>typesafe.go\<close>, \<open>typesafe/decide.go\<close>): decision models only. Decoding
  JSON is a parameter; \<open>fmt.Sprint\<close> of a location entry comes with it.
\<close>

subsection \<open>The client\<close>

definition typesafe_name :: string where
  "typesafe_name = ''typesafe''"

definition typesafe_default_model :: string where
  "typesafe_default_model = ''jev-latest''"

record t_client =
  tc_api_key :: string
  tc_model :: string
  tc_usage :: token_usage

definition typesafe_new ::
  "(string \<Rightarrow> bytes option) \<Rightarrow> (string \<Rightarrow> string) \<Rightarrow> (string \<Rightarrow> go_error) \<Rightarrow> base_client option \<Rightarrow>
     'x client_options \<Rightarrow> go_error + t_client \<times> string \<times> http_client" where
  "typesafe_new read_file getenv parse_err base opts0 =
     map_sum id (\<lambda>su. (\<lparr>tc_api_key = opt_api_key (su_opts su), tc_model = opt_model (su_opts su),
                       tc_usage = zero_usage\<rparr>, su_base_url su, su_http su))
       (keyed_new read_file getenv parse_err typesafe_name ''TYPESAFE_API_KEY''
         (provider_err typesafe_name ErrInvalidRequest
           ''TypeSafe API key is required (Options.APIKey, Options.APIKeyFile or TYPESAFE_API_KEY)'')
         ''https://api.typesafe.ai/v1'' base opts0)"

definition typesafe_add_usage :: "t_client \<Rightarrow> token_usage \<Rightarrow> t_client" where
  "typesafe_add_usage c u = c\<lparr>tc_usage := usage_add (tc_usage c) u\<rparr>"

definition typesafe_reset_usage :: "t_client \<Rightarrow> t_client" where
  "typesafe_reset_usage c = c\<lparr>tc_usage := zero_usage\<rparr>"

definition typesafe_not_supported :: "string \<Rightarrow> go_error" where
  "typesafe_not_supported what = provider_err typesafe_name ErrNotSupported (''TypeSafe does not support '' @ what)"

subsection \<open>Errors\<close>

text \<open>
  \<open>tj_detail\<close> is the raw detail of an error body; it is read as a string, as an object with a
  message, or as a list of locations and messages.
\<close>

record t_json =
  tj_detail :: "bytes \<Rightarrow> bytes"
  tj_string :: "bytes \<Rightarrow> string option"
  tj_object :: "bytes \<Rightarrow> string option"
  tj_list :: "bytes \<Rightarrow> (string list \<times> string) list option"

fun join_dots :: "string list \<Rightarrow> string" where
  "join_dots [] = []"
| "join_dots [p] = p"
| "join_dots (p # q # ps) = p @ ''.'' @ join_dots (q # ps)"

definition detail_text :: "t_json \<Rightarrow> bytes \<Rightarrow> string" where
  "detail_text J raw =
     (case tj_string J raw of
        Some s \<Rightarrow> s
      | None \<Rightarrow>
          (case tj_object J raw of
             Some (c # cs) \<Rightarrow> c # cs
           | _ \<Rightarrow>
               (case tj_list J raw of
                  Some ((loc, msg) # _) \<Rightarrow> if loc = [] then msg else join_dots loc @ '': '' @ msg
                | _ \<Rightarrow> [])))"

definition typesafe_sentinel :: "int \<Rightarrow> sentinel" where
  "typesafe_sentinel status =
     (if status = 401 \<or> status = 403 then ErrAuthentication
      else if status = 429 then ErrRateLimit
      else if status = 400 \<or> status = 422 then ErrInvalidRequest
      else ErrProviderError)"

text \<open>\<open>doJSON\<close>: \<open>ctx_err\<close> is \<open>ctx.Err()\<close> after the call.\<close>

definition typesafe_check :: "t_json \<Rightarrow> t_client \<Rightarrow> go_error option \<Rightarrow> json_result \<Rightarrow> go_error option" where
  "typesafe_check J c ctx_err jr =
     (if jr_err jr \<noteq> None \<and> ctx_err \<noteq> None then ctx_err
      else keyed_check typesafe_name (tc_api_key c) typesafe_sentinel (detail_text J \<circ> tj_detail J) jr)"

definition typesafe_list_models ::
  "t_json \<Rightarrow> t_client \<Rightarrow> go_error option \<Rightarrow> json_result \<Rightarrow> string list \<Rightarrow> capability list option list \<Rightarrow>
     go_error + model_info list" where
  "typesafe_list_models J c ctx_err jr names opts =
     (case typesafe_check J c ctx_err jr of
        Some e \<Rightarrow> Inl e
      | None \<Rightarrow>
          Inr (filter_model_infos
            (map (\<lambda>n. model_entry n [CapDecisions] 0) names)
            (list_models_config opts)))"

definition typesafe_ping :: "t_json \<Rightarrow> t_client \<Rightarrow> go_error option \<Rightarrow> json_result \<Rightarrow> string list \<Rightarrow> go_error option" where
  "typesafe_ping J c ctx_err jr names =
     (case typesafe_list_models J c ctx_err jr names [] of Inl e \<Rightarrow> Some e | Inr _ \<Rightarrow> None)"

subsection \<open>The request\<close>

definition max_score_levels :: nat where
  "max_score_levels = 10"

datatype t_level = PlainLevel string | DescribedLevel string string

datatype t_criteria = NoCriteria | ChoiceCriteria "string \<rightharpoonup> string option" | ScoreCriteria "t_level list"

record t_question =
  tq_type :: string
  tq_instructions :: string
  tq_criteria :: t_criteria

record t_request =
  trq_model :: string
  trq_state :: string
  trq_questions :: "string \<rightharpoonup> t_question"

definition t_wire_type :: "decision_kind \<Rightarrow> string" where
  "t_wire_type k =
     (case k of
        DecisionYesNo \<Rightarrow> ''noul''
      | DecisionChoice \<Rightarrow> ''choice''
      | DecisionScore \<Rightarrow> ''score''
      | DecisionOther s \<Rightarrow> [])"

fun choice_criteria :: "(string \<rightharpoonup> string option) \<Rightarrow> decision_option list \<Rightarrow> (string \<rightharpoonup> string option)" where
  "choice_criteria m [] = m"
| "choice_criteria m (d # ds) =
     choice_criteria (m(do_value d \<mapsto> (if do_description d = [] then None else Some (do_description d)))) ds"

definition score_level :: "decision_option \<Rightarrow> t_level" where
  "score_level d = (if do_description d = [] then PlainLevel (do_value d)
                    else DescribedLevel (do_value d) (do_description d))"

definition t_question_of :: "decision_question \<Rightarrow> go_error + t_question" where
  "t_question_of q =
     (let wq = \<lparr>tq_type = t_wire_type (dq_kind q), tq_instructions = dq_instructions q, tq_criteria = NoCriteria\<rparr> in
      case dq_kind q of
        DecisionChoice \<Rightarrow> Inr (wq\<lparr>tq_criteria := ChoiceCriteria (choice_criteria Map.empty (dq_options q))\<rparr>)
      | DecisionScore \<Rightarrow>
          if max_score_levels < length (dq_options q) then
            Inl (provider_err typesafe_name ErrInvalidRequest
              (''score question '' @ go_quote (dq_name q) @ '' has '' @ itoa (int (length (dq_options q)))
               @ '' levels; TypeSafe allows at most '' @ itoa (int max_score_levels)))
          else Inr (wq\<lparr>tq_criteria := ScoreCriteria (map score_level (dq_options q))\<rparr>)
      | _ \<Rightarrow> Inr wq)"

fun t_questions_of :: "(string \<rightharpoonup> t_question) \<Rightarrow> decision_question list \<Rightarrow> go_error + (string \<rightharpoonup> t_question)" where
  "t_questions_of m [] = Inr m"
| "t_questions_of m (q # qs) =
     (case t_question_of q of
        Inl e \<Rightarrow> Inl e
      | Inr wq \<Rightarrow> t_questions_of (m(dq_name q \<mapsto> wq)) qs)"

definition t_build_request :: "t_client \<Rightarrow> decision_request \<Rightarrow> go_error + t_request" where
  "t_build_request c req =
     map_sum id (\<lambda>qs. \<lparr>trq_model = (if dr_model req \<noteq> [] then dr_model req
                                   else if tc_model c \<noteq> [] then tc_model c else typesafe_default_model),
                      trq_state = dr_input req, trq_questions = qs\<rparr>)
       (t_questions_of Map.empty (dr_questions req))"

subsection \<open>The response\<close>

record t_answer =
  ta_type :: string
  ta_noul :: "f64 option"
  ta_choice :: string
  ta_score :: "f64 option"
  ta_confidence :: "f64 option"
  ta_probabilities :: "string \<rightharpoonup> f64 option"

record t_response =
  tr_model :: string
  tr_answers :: "string \<rightharpoonup> t_answer"
  tr_input_tokens :: int
  tr_output_tokens :: int

definition t_prob_of :: "t_answer \<Rightarrow> (nat \<Rightarrow> decision_option \<Rightarrow> string) \<Rightarrow> nat \<Rightarrow> decision_option \<Rightarrow> f64 option" where
  "t_prob_of wa key i d = Option.bind (ta_probabilities wa (key i d)) id"

text \<open>The \<open>key\<close> of an option: its value, or the index of a level.\<close>

definition t_key :: "decision_question \<Rightarrow> nat \<Rightarrow> decision_option \<Rightarrow> string" where
  "t_key q i d = (if dq_kind q = DecisionChoice then do_value d else itoa (int i))"

definition t_convert_answer :: "(string \<rightharpoonup> t_answer) \<Rightarrow> decision_question \<Rightarrow> go_error + decision_answer" where
  "t_convert_answer answers q =
     (case answers (dq_name q) of
        None \<Rightarrow> Inl (no_answer typesafe_name q)
      | Some wa \<Rightarrow>
          if ta_type wa \<noteq> t_wire_type (dq_kind q) then
            Inl (answer_error typesafe_name q '' has an unexpected type'')
          else graded_answer typesafe_name q (ta_noul wa) (Inr (ta_choice wa)) (ta_score wa) (ta_confidence wa)
                 (t_prob_of wa (t_key q)))"

subsection \<open>\<open>Decide\<close>\<close>

definition t_usage :: "t_response \<Rightarrow> token_usage" where
  "t_usage r = zero_usage\<lparr>us_prompt := tr_input_tokens r, us_completion := tr_output_tokens r,
     us_total := wrap64 (tr_input_tokens r + tr_output_tokens r)\<rparr>"

definition typesafe_decide ::
  "t_json \<Rightarrow> (t_request \<Rightarrow> 'w \<Rightarrow> (json_result \<times> t_response \<times> go_error option) \<times> 'w) \<Rightarrow>
     t_client \<Rightarrow> decision_request \<Rightarrow> 'w \<Rightarrow> (go_error + decision_response) \<times> t_client \<times> 'w" where
  "typesafe_decide J post c req w =
     (case validate_decision req of
        Some pe \<Rightarrow> (Inl (ProviderErr (pe\<lparr>pe_provider := typesafe_name\<rparr>)), c, w)
      | None \<Rightarrow>
          if dr_images req \<noteq> [] then (Inl (typesafe_not_supported ''image input to decision models''), c, w)
          else (case t_build_request c req of
                  Inl e \<Rightarrow> (Inl e, c, w)
                | Inr wire \<Rightarrow>
                    (let ((jr, raw, ctx_err), w1) = post wire w in
                     case typesafe_check J c ctx_err jr of
                       Some e \<Rightarrow> (Inl e, c, w1)
                     | None \<Rightarrow>
                         (map_sum id (\<lambda>as. \<lparr>ds_answers = as, ds_model = tr_model raw, ds_usage = t_usage raw\<rparr>)
                            (convert_answers (t_convert_answer (tr_answers raw)) (dr_questions req)),
                          typesafe_add_usage c (t_usage raw), w1))))"

subsection \<open>What a caller may rely on\<close>

definition t_answered :: "(string \<rightharpoonup> t_answer) \<Rightarrow> decision_question \<Rightarrow> bool" where
  "t_answered answers q \<longleftrightarrow>
     (\<exists>wa. answers (dq_name q) = Some wa \<and> ta_type wa = t_wire_type (dq_kind q) \<and>
        gradable q (ta_noul wa) (Inr (ta_choice wa)) (ta_score wa) (ta_confidence wa)
          (t_prob_of wa (t_key q)))"

interpretation typesafe_answers: answer_source t_convert_answer t_answered
proof unfold_locales
  fix m q
  have "case t_convert_answer m q of Inl e \<Rightarrow> \<not> t_answered m q | Inr a \<Rightarrow> t_answered m q \<and> answer_ok q a"
  proof (cases "m (dq_name q)")
    case (Some wa)
    then show ?thesis
      using graded_answer_spec [where provider = typesafe_name and q = q and prob = "ta_noul wa"
          and choice = "Inr (ta_choice wa)" and score = "ta_score wa" and conf = "ta_confidence wa"
          and p = "t_prob_of wa (t_key q)"]
      by (cases "ta_type wa = t_wire_type (dq_kind q)")
         (simp_all add: t_convert_answer_def t_answered_def split: sum.splits)
  qed (simp add: t_convert_answer_def t_answered_def)
  then show "t_convert_answer m q = Inr a \<Longrightarrow> answer_ok q a \<and> t_answered m q"
    and "t_convert_answer m q = Inl e \<Longrightarrow> \<not> t_answered m q" for a e by auto
qed

text \<open>What TypeSafe can be asked.\<close>

definition typesafe_ok :: "decision_request \<Rightarrow> bool" where
  "typesafe_ok req \<longleftrightarrow> decision_ok req \<and> dr_images req = [] \<and>
     list_all (\<lambda>q. dq_kind q = DecisionScore \<longrightarrow> length (dq_options q) \<le> max_score_levels) (dr_questions req)"

lemma t_question_of_Inr:
  "(\<exists>wq. t_question_of q = Inr wq) \<longleftrightarrow> (dq_kind q = DecisionScore \<longrightarrow> length (dq_options q) \<le> max_score_levels)"
  by (cases "dq_kind q") (auto simp: t_question_of_def)

lemma t_questions_of_Inr:
  "(\<exists>m'. t_questions_of m qs = Inr m')
    \<longleftrightarrow> list_all (\<lambda>q. dq_kind q = DecisionScore \<longrightarrow> length (dq_options q) \<le> max_score_levels) qs"
proof (induction qs arbitrary: m)
  case (Cons q qs)
  then show ?case using t_question_of_Inr [of q] by (cases "t_question_of q") auto
qed simp

lemma t_build_request_Inr:
  "(\<exists>wire. t_build_request c req = Inr wire)
    \<longleftrightarrow> list_all (\<lambda>q. dq_kind q = DecisionScore \<longrightarrow> length (dq_options q) \<le> max_score_levels) (dr_questions req)"
  unfolding t_questions_of_Inr [of Map.empty "dr_questions req", symmetric]
  by (cases "t_questions_of Map.empty (dr_questions req)") (auto simp: t_build_request_def)

lemma typesafe_check_None:
  "typesafe_check J c ctx_err jr = None \<longleftrightarrow> 200 \<le> jr_status jr \<and> jr_status jr < 300 \<and> jr_err jr = None"
  by (auto simp: typesafe_check_def keyed_check_None)

lemma typesafe_decide_refuses:
  assumes "\<not> typesafe_ok req"
  shows "\<exists>e. typesafe_decide J post c req w = (Inl e, c, w)"
proof (cases "validate_decision req")
  case None
  with assms show ?thesis
    using validate_decision_None [of req] t_build_request_Inr [of c req]
    by (cases "t_build_request c req") (auto simp: typesafe_decide_def typesafe_ok_def)
qed (simp add: typesafe_decide_def)

text \<open>
  Decide on TypeSafe succeeds exactly when the request is valid, has no images and no score
  question with more than ten levels, the call succeeded, and the response has a usable answer
  to every question, of its kind, with the choice among the options and all numbers present and
  in range. The answers come one per question, in order, with the probabilities in the order of
  the options; a call that succeeded is counted once, and a request that TypeSafe cannot be
  asked is not sent.
\<close>

theorem typesafe_decide_exact:
  "case typesafe_decide J post c req w of
     (res, c', w') \<Rightarrow>
       if typesafe_ok req then
         (\<exists>wire. t_build_request c req = Inr wire \<and>
           (case post wire w of
              ((jr, raw, ctx_err), w1) \<Rightarrow>
                (let called = (200 \<le> jr_status jr \<and> jr_status jr < 300 \<and> jr_err jr = None) in
                 w' = w1 \<and> tc_usage c' = (if called then usage_add (tc_usage c) (t_usage raw) else tc_usage c) \<and>
                 (case res of
                    Inr resp \<Rightarrow> called \<and> list_all (t_answered (tr_answers raw)) (dr_questions req)
                      \<and> list_all2 answer_ok (dr_questions req) (ds_answers resp) \<and> ds_usage resp = t_usage raw
                  | Inl e \<Rightarrow> \<not> (called \<and> list_all (t_answered (tr_answers raw)) (dr_questions req))))))
       else c' = c \<and> w' = w \<and> (\<exists>e. res = Inl e)"
proof (cases "typesafe_ok req")
  case True
  then obtain wire where wire: "t_build_request c req = Inr wire"
    using t_build_request_Inr [of c req] by (auto simp: typesafe_ok_def)
  obtain jr raw ctx_err w1 where post: "post wire w = ((jr, raw, ctx_err), w1)" by (metis surj_pair)
  have v: "validate_decision req = None" "dr_images req = []"
    using True by (simp_all add: validate_decision_None typesafe_ok_def)
  show ?thesis
  proof (cases "typesafe_check J c ctx_err jr")
    case None
    then show ?thesis
      using True wire post v typesafe_answers.answers [of "tr_answers raw" "dr_questions req"]
        typesafe_check_None [of J c ctx_err jr]
      by (auto simp: typesafe_decide_def typesafe_add_usage_def split: sum.splits)
  next
    case (Some e)
    then show ?thesis
      using True wire post v typesafe_check_None [of J c ctx_err jr]
      by (auto simp: typesafe_decide_def)
  qed
next
  case False
  then show ?thesis using typesafe_decide_refuses [of req J post c w] by auto
qed

end
