(* ===== verification/ProxySse.thy ===== *)
theory ProxySse
  imports Collect Redact
begin

text \<open>
  The proxy's stream writer (\<open>proxy/sse.go\<close>): \<open>writeSSE\<close> reads a stream, writes each chunk as a
  server-sent event and assembles the same chunks into a response for the hooks, with its own
  copy of the closures of \<open>Stream.Collect\<close>. What the calls of \<open>Recv\<close> return is the list of
  chunks, then the error of the call after them (\<open>None\<close> for the end of the stream); encoding a
  chunk as JSON is a parameter, which an unencodable chunk makes fail.
\<close>

datatype sse_event =
    SseData chunk
  | SseDone chunk
  | SseError string

subsection \<open>The closures of \<open>writeSSE\<close>\<close>

definition sse_flush_text :: "assembler \<Rightarrow> assembler" where
  "sse_flush_text a =
     (if 0 < length (as_text a) then
        a\<lparr>as_content := as_content a @ [(blank_block BlockText)\<lparr>cb_text := as_text a\<rparr>], as_text := []\<rparr>
      else a)"

definition sse_flush_tool :: "assembler \<Rightarrow> assembler" where
  "sse_flush_tool a =
     (case as_tool a of
        None \<Rightarrow> a
      | Some t \<Rightarrow>
          a\<lparr>as_content := as_content a @ [(blank_block BlockToolUse)\<lparr>cb_tool_use := Some (t\<lparr>tu_input := as_tool_buf a\<rparr>)\<rparr>],
            as_tool := None, as_tool_buf := []\<rparr>)"

definition sse_flush_thinking :: "assembler \<Rightarrow> assembler" where
  "sse_flush_thinking a =
     (case think_flush (as_think a) of
        (b, th) \<Rightarrow> a\<lparr>as_content := as_content a @ (case b of None \<Rightarrow> [] | Some x \<Rightarrow> [x]), as_think := th\<rparr>)"

definition sse_flush_all :: "assembler \<Rightarrow> assembler" where
  "sse_flush_all a = sse_flush_thinking (sse_flush_tool (sse_flush_text a))"

definition sse_accumulate :: "assembler \<Rightarrow> chunk \<Rightarrow> assembler" where
  "sse_accumulate a c =
     (case ck_type c of
        ChunkText \<Rightarrow>
          (let a1 = sse_flush_thinking (sse_flush_tool a) in a1\<lparr>as_text := as_text a1 @ ck_text c\<rparr>)
      | ChunkToolUseStart \<Rightarrow>
          (let a1 = sse_flush_all a in
           case ck_tool_use c of
             None \<Rightarrow> a1
           | Some t \<Rightarrow>
               (let a2 = a1\<lparr>as_tool := Some \<lparr>tu_id = tu_id t, tu_name = tu_name t, tu_input = tu_input t,
                              tu_signature = tu_signature t\<rparr>\<rparr> in
                if 0 < length (tu_input t) then a2\<lparr>as_tool_buf := as_tool_buf a2 @ tu_input t\<rparr> else a2))
      | ChunkToolUseDelta \<Rightarrow> a\<lparr>as_tool_buf := as_tool_buf a @ ck_partial c\<rparr>
      | ChunkThinkingStart \<Rightarrow>
          (let a1 = sse_flush_all a in a1\<lparr>as_think := snd (think_add (as_think a1) c)\<rparr>)
      | ChunkThinkingDelta \<Rightarrow> a\<lparr>as_think := snd (think_add (as_think a) c)\<rparr>
      | _ \<Rightarrow> a)"

subsection \<open>The loop\<close>

fun sse_loop ::
  "(chunk \<Rightarrow> go_error option) \<Rightarrow> string list \<Rightarrow> go_error option \<Rightarrow> assembler \<Rightarrow> chunk list
     \<Rightarrow> sse_event list \<times> chat_response \<times> go_error option" where
  "sse_loop marshal secrets final a [] =
     (case final of
        None \<Rightarrow> ([SseDone (blank_chunk ChunkDone)], response_of (sse_flush_all a), None)
      | Some e \<Rightarrow>
          if is_eof e then ([SseDone (blank_chunk ChunkDone)], response_of (sse_flush_all a), None)
          else ([SseError (redact_message (error_text e) secrets)], response_of (sse_flush_all a), Some e))"
| "sse_loop marshal secrets final a (c # cs) =
     (case marshal c of
        Some e \<Rightarrow> ([], response_of (sse_flush_all a), Some (WrapErr ''marshal chunk: '' e))
      | None \<Rightarrow>
          if ck_type c = ChunkDone then
            (let a1 = (case ck_usage c of None \<Rightarrow> a | Some u \<Rightarrow> a\<lparr>as_usage := u\<rparr>) in
             ([SseDone c], response_of (sse_flush_all a1), None))
          else
            (let (events, r, err) = sse_loop marshal secrets final (sse_accumulate a c) cs
             in (SseData c # events, r, err)))"

definition write_sse ::
  "(chunk \<Rightarrow> go_error option) \<Rightarrow> string list \<Rightarrow> chunk list \<times> go_error option
     \<Rightarrow> sse_event list \<times> chat_response \<times> go_error option" where
  "write_sse marshal secrets stream = sse_loop marshal secrets (snd stream) asm_init (fst stream)"

subsection \<open>The copy agrees with the original\<close>

lemma sse_flush_text_eq: "sse_flush_text = flush_text"
  by (auto simp: fun_eq_iff sse_flush_text_def flush_text_def text_block_def)

lemma sse_flush_tool_eq: "sse_flush_tool = flush_tool"
  by (auto simp: fun_eq_iff sse_flush_tool_def flush_tool_def tool_use_block_def split: option.splits)

lemma sse_flush_thinking_eq: "sse_flush_thinking = flush_thinking"
  by (auto simp: fun_eq_iff sse_flush_thinking_def flush_thinking_def split: option.splits prod.splits)

lemma sse_flush_all_eq: "sse_flush_all = flush_all"
  by (simp add: fun_eq_iff sse_flush_all_def flush_all_def sse_flush_text_eq sse_flush_tool_eq sse_flush_thinking_eq)

lemmas sse_eqs = sse_flush_text_eq sse_flush_tool_eq sse_flush_thinking_eq sse_flush_all_eq

lemma sse_accumulate_eq: "ck_type c \<noteq> ChunkDone \<Longrightarrow> sse_accumulate a c = accumulate a c"
  by (auto simp: sse_accumulate_def accumulate_def sse_eqs Let_def split: chunk_type.splits option.splits)

subsection \<open>What the client of the proxy receives\<close>

text \<open>The event of a chunk, and how a stream that ran out of chunks is terminated.\<close>

definition event_of :: "chunk \<Rightarrow> sse_event" where
  "event_of c = (if is_done c then SseDone c else SseData c)"

definition ending :: "string list \<Rightarrow> go_error option \<Rightarrow> sse_event list \<times> go_error option" where
  "ending secrets final =
     (case final of
        None \<Rightarrow> ([SseDone (blank_chunk ChunkDone)], None)
      | Some e \<Rightarrow> if is_eof e then ([SseDone (blank_chunk ChunkDone)], None)
                  else ([SseError (redact_message (error_text e) secrets)], Some e))"

definition encodable :: "(chunk \<Rightarrow> go_error option) \<Rightarrow> chunk \<Rightarrow> bool" where
  "encodable marshal c \<longleftrightarrow> marshal c = None"

definition sse_spec ::
  "(chunk \<Rightarrow> go_error option) \<Rightarrow> string list \<Rightarrow> chunk list \<times> go_error option
     \<Rightarrow> sse_event list \<times> chat_response \<times> go_error option" where
  "sse_spec marshal secrets stream =
     (let seen = upto_done (fst stream);
          sent = takeWhile (encodable marshal) seen;
          (last_events, err) =
            (if sent \<noteq> seen then ([], map_option (WrapErr ''marshal chunk: '') (marshal (seen ! length sent)))
             else if no_done seen then ending secrets (snd stream)
             else ([], None))
      in (map event_of sent @ last_events, assemble sent, err))"

lemma sse_loop_spec:
  "sse_loop marshal secrets final a cs =
     (let seen = upto_done cs;
          sent = takeWhile (encodable marshal) seen;
          (last_events, err) =
            (if sent \<noteq> seen then ([], map_option (WrapErr ''marshal chunk: '') (marshal (seen ! length sent)))
             else if no_done seen then ending secrets final
             else ([], None))
      in (map event_of sent @ last_events, response_of (flush_all (foldl accumulate a sent)), err))"
proof (induction cs arbitrary: a)
  case Nil
  show ?case by (auto simp: sse_eqs ending_def split: option.splits)
next
  case (Cons c cs)
  show ?case
  proof (cases "marshal c")
    case None
    show ?thesis
    proof (cases "is_done c")
      case True
      with None show ?thesis
        by (auto simp: encodable_def event_of_def is_done_def sse_eqs accumulate_def split: option.splits)
    next
      case False
      with None Cons [of "accumulate a c"] show ?thesis
        by (auto simp: encodable_def event_of_def is_done_def sse_accumulate_eq Let_def split: prod.splits)
    qed
  next
    case (Some e)
    then show ?thesis by (auto simp: encodable_def sse_eqs)
  qed
qed

lemma write_sse_spec: "write_sse marshal secrets stream = sse_spec marshal secrets stream"
  by (simp add: write_sse_def sse_spec_def sse_loop_spec assemble_def)

definition terminator :: "sse_event \<Rightarrow> bool" where
  "terminator e = (case e of SseData c \<Rightarrow> False | _ \<Rightarrow> True)"

lemma event_of_terminator: "terminator (event_of c) = is_done c"
  by (simp add: event_of_def terminator_def)

lemma ending_one: "\<exists>e. fst (ending secrets final) = [e] \<and> terminator e"
  by (auto simp: ending_def terminator_def split: option.splits)

lemma upto_done_cases: "no_done (upto_done cs) \<or> (\<exists>pre d. upto_done cs = pre @ [d] \<and> is_done d \<and> no_done pre)"
proof (induction cs)
  case (Cons c cs)
  show ?case
  proof (cases "is_done c")
    case True
    then have "upto_done (c # cs) = [] @ [c] \<and> is_done c \<and> no_done []" by simp
    then show ?thesis by blast
  next
    case False
    from Cons.IH show ?thesis
    proof
      assume "\<exists>pre d. upto_done cs = pre @ [d] \<and> is_done d \<and> no_done pre"
      then obtain pre d where "upto_done cs = pre @ [d]" "is_done d" "no_done pre" by blast
      with False have "upto_done (c # cs) = (c # pre) @ [d] \<and> is_done d \<and> no_done (c # pre)" by simp
      then show ?thesis by blast
    qed (use False in simp)
  qed
qed simp

lemma no_done_no_terminator: "no_done cs \<Longrightarrow> filter terminator (map event_of cs) = []"
  by (induction cs) (simp_all add: event_of_terminator)

lemma map_event_of_no_done: "no_done cs \<Longrightarrow> map event_of cs = map SseData cs"
  by (induction cs) (simp_all add: event_of_def)

subsection \<open>The contract of the event stream\<close>

lemma sse_terminated:
  assumes "list_all (encodable marshal) (upto_done cs)"
  shows "case write_sse marshal secrets (cs, final) of
     (events, r, err) \<Rightarrow> r = assemble (upto_done cs) \<and>
       (\<exists>sent t. events = map SseData sent @ [t] \<and> no_done sent \<and>
         (case t of
            SseData c \<Rightarrow> False
          | SseDone d \<Rightarrow> err = None \<and>
              (upto_done cs = sent @ [d] \<and> is_done d
               \<or> cs = sent \<and> d = blank_chunk ChunkDone \<and> (case final of None \<Rightarrow> True | Some e \<Rightarrow> is_eof e))
          | SseError m \<Rightarrow> cs = sent \<and> final = err \<and>
              (case err of None \<Rightarrow> False | Some e \<Rightarrow> \<not> is_eof e \<and> m = redact_message (error_text e) secrets)))"
proof -
  have sent: "takeWhile (encodable marshal) (upto_done cs) = upto_done cs"
    using assms by (simp add: list_all_iff)
  show ?thesis using upto_done_cases [of cs]
  proof
    assume n: "no_done (upto_done cs)"
    then have cs: "no_done cs" "upto_done cs = cs"
      by (induction cs) (auto split: if_splits)
    have all_sent: "takeWhile (encodable marshal) cs = cs" using sent cs(2) by (simp only:)
    have "write_sse marshal secrets (cs, final)
        = (map SseData cs @ fst (ending secrets final), assemble cs, snd (ending secrets final))"
      using cs assms
      by (simp add: write_sse_spec sse_spec_def Let_def map_event_of_no_done case_prod_unfold all_sent list_all_iff)
    with cs show ?thesis
      by (cases final) (auto simp: ending_def intro!: exI [of _ cs])
  next
    assume "\<exists>pre d. upto_done cs = pre @ [d] \<and> is_done d \<and> no_done pre"
    then obtain pre d where u: "upto_done cs = pre @ [d]" "is_done d" "no_done pre" by blast
    have all_sent: "takeWhile (encodable marshal) (pre @ [d]) = pre @ [d]" using sent u(1) by (simp only:)
    have "write_sse marshal secrets (cs, final) = (map SseData pre @ [SseDone d], assemble (pre @ [d]), None)"
      using u assms by (simp add: write_sse_spec sse_spec_def Let_def map_event_of_no_done event_of_def all_sent list_all_iff)
    with u show ?thesis by auto
  qed
qed

lemma sse_terminator:
  assumes "list_all (encodable marshal) (upto_done cs)"
  shows "\<exists>sent t. fst (write_sse marshal secrets (cs, final)) = map SseData sent @ [t] \<and> no_done sent \<and> terminator t"
  using sse_terminated [where secrets = secrets and final = final, OF assms]
  apply (simp add: case_prod_unfold)
  apply (elim exE conjE)
  subgoal for sent t
    by (cases t) (auto simp: terminator_def)
  done

text \<open>
  C29: a client of the streaming endpoint receives the chunks before the first done chunk, in
  order, and then exactly one terminator, the last event: the done chunk, a done event without
  usage when the provider ended the stream without one, or an error event when the provider
  failed, its text redacted. The response the hooks see is assembled from the same chunks as
  Collect would, and the error they see is the provider's. (The chunks are ones that encode as
  JSON.)
\<close>

theorem sse_terminated_once:
  assumes "list_all (encodable marshal) (upto_done cs)"
  shows "case write_sse marshal secrets (cs, final) of
     (events, r, err) \<Rightarrow> r = assemble (upto_done cs) \<and>
       (\<exists>sent t. events = map SseData sent @ [t] \<and> no_done sent \<and>
         (case t of
            SseData c \<Rightarrow> False
          | SseDone d \<Rightarrow> err = None \<and>
              (upto_done cs = sent @ [d] \<and> is_done d
               \<or> cs = sent \<and> d = blank_chunk ChunkDone \<and> (case final of None \<Rightarrow> True | Some e \<Rightarrow> is_eof e))
          | SseError m \<Rightarrow> cs = sent \<and> final = err \<and>
              (case err of None \<Rightarrow> False | Some e \<Rightarrow> \<not> is_eof e \<and> m = redact_message (error_text e) secrets)))"
  using assms by (rule sse_terminated)

theorem sse_terminated_once_witness:
  "case write_sse (\<lambda>_. None) [''secret''] ([text_chunk ''a''], Some (PlainErr ''cut'')) of
     (events, r, err) \<Rightarrow> r = assemble (upto_done [text_chunk ''a'']) \<and>
       (\<exists>sent t. events = map SseData sent @ [t] \<and> no_done sent \<and>
         (case t of
            SseData c \<Rightarrow> False
          | SseDone d \<Rightarrow> err = None \<and>
              (upto_done [text_chunk ''a''] = sent @ [d] \<and> is_done d
               \<or> [text_chunk ''a''] = sent \<and> d = blank_chunk ChunkDone
                 \<and> (case Some (PlainErr ''cut'') of None \<Rightarrow> True | Some e \<Rightarrow> is_eof e))
          | SseError m \<Rightarrow> [text_chunk ''a''] = sent \<and> Some (PlainErr ''cut'') = err \<and>
              (case err of None \<Rightarrow> False | Some e \<Rightarrow> \<not> is_eof e \<and> m = redact_message (error_text e) [''secret''])))"
  by (rule sse_terminated_once) (simp add: encodable_def text_chunk_def is_done_def blank_chunk_def)

text \<open>
  The contract of \<open>types.go\<close> promises a done or an error event before the connection closes. A
  chunk that does not encode as JSON ends the events without either.
\<close>

lemma unencodable_unterminated:
  assumes "marshal c = Some e" and "no_done sent" and "list_all (encodable marshal) sent"
  shows "fst (write_sse marshal secrets (sent @ c # cs, final)) = map SseData sent"
proof -
  have no: "\<not> encodable marshal c" using assms(1) by (simp add: encodable_def)
  have up: "upto_done (sent @ c # cs) = sent @ c # (if is_done c then [] else upto_done cs)"
    using assms(2) by (simp add: upto_done_append)
  have "takeWhile (encodable marshal) (upto_done (sent @ c # cs)) = sent"
    using assms(3) no unfolding up by (simp add: takeWhile_append2 list_all_iff)
  then show ?thesis
    unfolding write_sse_spec sse_spec_def Let_def using up
    by (simp add: map_event_of_no_done [OF assms(2)] case_prod_unfold)
qed

end
