(* ===== verification/Proxy.thy ===== *)
theory Proxy
  imports ProxySse Registry Requests Decision HttpClient
begin

text \<open>
  The proxy itself (\<open>proxy/proxy.go\<close>) and its wire types (\<open>proxy/types.go\<close>): configuration, hooks,
  request ids, errors. A request is served on an \<open>exchange\<close>: the response as \<open>net/http\<close> sends it,
  a log of the hooks invoked and the provider calls made, in order, and the outside world \<open>'w\<close>
  the providers act on. The hooks \<open>Authorize\<close> and \<open>TransformRequest\<close> are functions; the others
  only observe, so invoking them is an entry of the log. Durations are left out.
\<close>

subsection \<open>The \<open>Client\<close> interface\<close>

text \<open>
  \<open>llm.Client\<close>: a client acts on the world, its own state included. A stream is the chunks its
  \<open>Recv\<close> returns and the error after them (\<open>None\<close> for the end of the stream). An option of the
  model list is the capabilities it appends.
\<close>

record ('x, 'w) llm_client =
  cl_chat :: "'x chat_request \<Rightarrow> 'w \<Rightarrow> (go_error + chat_response) \<times> 'w"
  cl_chat_stream :: "'x chat_request \<Rightarrow> 'w \<Rightarrow> (go_error + (chunk list \<times> go_error option)) \<times> 'w"
  cl_embed :: "string \<Rightarrow> 'w \<Rightarrow> (go_error + vec) \<times> 'w"
  cl_embed_batch :: "string list \<Rightarrow> 'w \<Rightarrow> (go_error + vec list) \<times> 'w"
  cl_rerank :: "'x rerank_request \<Rightarrow> 'w \<Rightarrow> (go_error + rerank_response) \<times> 'w"
  cl_decide :: "decision_request \<Rightarrow> 'w \<Rightarrow> (go_error + decision_response) \<times> 'w"
  cl_embed_multimodal :: "'x multimodal_request \<Rightarrow> 'w \<Rightarrow> (go_error + vec list) \<times> 'w"
  cl_list_models :: "capability list option list \<Rightarrow> 'w \<Rightarrow> (go_error + string list) \<times> 'w"
  cl_list_metadata :: "capability list option list \<Rightarrow> 'w \<Rightarrow> (go_error + model_info list) \<times> 'w"
  cl_ping :: "'w \<Rightarrow> go_error option \<times> 'w"
  cl_provider :: string
  cl_model :: string
  cl_usage :: "'w \<Rightarrow> token_usage"
  cl_reset_usage :: "'w \<Rightarrow> 'w"

subsection \<open>Wire types\<close>

record proxy_chat_request =
  pq_messages :: "message list"
  pq_tools :: "tool list"
  pq_system :: string
  pq_max_tokens :: "int option"
  pq_temperature :: "f64 option"
  pq_provider :: string
  pq_model :: string
  pq_format :: "response_format option"
  pq_tool_choice :: "tool_choice option"
  pq_stop :: "string list"
  pq_descriptions :: tool_description_mode

record proxy_embed_request =
  qe_provider :: string
  qe_model :: string
  qe_input :: "string list"

record multimodal_content_request =
  mr_type :: string
  mr_text :: string
  mr_image_url :: string
  mr_image_base64 :: string
  mr_mime_type :: string

record proxy_multimodal_request =
  pm_provider :: string
  pm_model :: string
  pm_inputs :: "multimodal_content_request list list"

record proxy_rerank_request =
  pr_provider :: string
  pr_model :: string
  pr_query :: string
  pr_documents :: "string list"
  pr_top_k :: "int option"

record provider_info =
  pi_name :: string
  pi_display :: string
  pi_model :: string
  pi_default :: bool

record provider_health =
  ph_status :: string
  ph_error :: string

text \<open>The bodies of responses, and the events of a stream.\<close>

datatype payload =
    ErrorResponse string
  | ProvidersResponse "provider_info list" string
  | ModelsResponse "string list"
  | ModelsMetadataResponse "model_info list"
  | ProxyChatResponse "content_block list" stop_reason token_usage
  | HealthResponse string "(string \<times> provider_health) list"
  | EmbedResponse "vec list"
  | EmbedMultimodalResponse "vec list"
  | RerankResponse "rerank_result list" int
  | Event sse_event

subsection \<open>Requests, hooks and configuration\<close>

text \<open>
  An incoming request: its body is the bytes reading it gives and the error after them
  (\<open>None\<close> at its end), its query the parameters in order.
\<close>

record proxy_request =
  in_headers :: headers
  in_query :: "(string \<times> string) list"
  in_body :: "bytes \<times> go_error option"
  in_context_id :: "string option"

record 'x request_info =
  ri_provider :: string
  ri_model :: string
  ri_stream :: bool
  ri_request_id :: string
  ri_request :: "'x chat_request"

record error_info =
  ei_provider :: string
  ei_model :: string
  ei_stream :: bool
  ei_status :: int
  ei_err :: "go_error option"
  ei_request_id :: string

record response_info =
  rs_provider :: string
  rs_model :: string
  rs_stream :: bool
  rs_code :: int
  rs_request_id :: string
  rs_response :: chat_response

record 'x proxy_config =
  pc_default :: string
  pc_providers :: "(string \<times> 'x client_options) list"
  pc_on_request :: bool
  pc_on_response :: bool
  pc_on_error :: bool
  pc_authorize :: "(proxy_request \<Rightarrow> go_error option \<times> proxy_request) option"
  pc_transform :: "(proxy_request \<Rightarrow> 'x chat_request \<Rightarrow> go_error option \<times> 'x chat_request) option"
  pc_id_header :: string
  pc_prefix :: string
  pc_max_body :: int

datatype 'x log_entry =
    OnRequest "'x request_info"
  | OnResponse response_info
  | OnError error_info
  | CallChat string "'x chat_request"
  | CallStream string "'x chat_request"
  | CallOther string

subsection \<open>The exchange\<close>

text \<open>
  \<open>ex_headers\<close> is the header map of the \<open>ResponseWriter\<close>; \<open>ex_sent\<close> the status and headers
  once they are on the wire, which later calls of \<open>WriteHeader\<close> do not change. (The status
  of a hook's error is one \<open>net/http\<close> sends as a response, 200 to 999.)
\<close>

record ('x, 'w) exchange =
  ex_headers :: headers
  ex_sent :: "(int \<times> headers) option"
  ex_bodies :: "payload list"
  ex_log :: "'x log_entry list"
  ex_world :: 'w

definition new_exchange :: "'w \<Rightarrow> ('x, 'w) exchange" where
  "new_exchange w = \<lparr>ex_headers = [], ex_sent = None, ex_bodies = [], ex_log = [], ex_world = w\<rparr>"

definition set_header :: "string \<Rightarrow> string \<Rightarrow> ('x, 'w) exchange \<Rightarrow> ('x, 'w) exchange" where
  "set_header k v e = e\<lparr>ex_headers := header_set k v (ex_headers e)\<rparr>"

definition write_header :: "int \<Rightarrow> ('x, 'w) exchange \<Rightarrow> ('x, 'w) exchange" where
  "write_header status e =
     (case ex_sent e of None \<Rightarrow> e\<lparr>ex_sent := Some (status, ex_headers e)\<rparr> | Some s \<Rightarrow> e)"

text \<open>\<open>Write\<close> sends the status 200 first when no status was sent.\<close>

definition write_body :: "payload \<Rightarrow> ('x, 'w) exchange \<Rightarrow> ('x, 'w) exchange" where
  "write_body p e = (let e1 = write_header 200 e in e1\<lparr>ex_bodies := ex_bodies e1 @ [p]\<rparr>)"

definition log_that :: "'x log_entry \<Rightarrow> ('x, 'w) exchange \<Rightarrow> ('x, 'w) exchange" where
  "log_that l e = e\<lparr>ex_log := ex_log e @ [l]\<rparr>"

definition call ::
  "'x log_entry \<Rightarrow> ('w \<Rightarrow> 'r \<times> 'w) \<Rightarrow> ('x, 'w) exchange \<Rightarrow> 'r \<times> ('x, 'w) exchange" where
  "call l f e = (case f (ex_world e) of (r, w) \<Rightarrow> (r, (log_that l e)\<lparr>ex_world := w\<rparr>))"

text \<open>
  What the handlers need from outside: the file system and the registry behind
  \<open>NewClient\<close>, the random id of the request, whether a body encodes as JSON and whether
  writing it to the connection fails, and the decoders of request bodies, which see
  the bytes they can read and the error after them.
\<close>

record ('x, 'w) proxy_env =
  px_read_file :: "string \<Rightarrow> bytes option"
  px_registry :: "('x client_options, ('x, 'w) llm_client) providers"
  px_random_id :: string
  px_marshal :: "payload \<Rightarrow> go_error option"
  px_write :: "payload \<Rightarrow> go_error option"
  px_chat_body :: "bytes \<times> go_error option \<Rightarrow> go_error + proxy_chat_request"
  px_embed_body :: "bytes \<times> go_error option \<Rightarrow> go_error + proxy_embed_request"
  px_multimodal_body :: "bytes \<times> go_error option \<Rightarrow> go_error + proxy_multimodal_request"
  px_rerank_body :: "bytes \<times> go_error option \<Rightarrow> go_error + proxy_rerank_request"
  px_base64_error :: "string \<Rightarrow> go_error"

text \<open>
  \<open>encodeJSON\<close>: the encoder marshals before it writes, so a value that does not marshal leaves
  the response untouched.
\<close>

definition encode_json ::
  "('x, 'w) proxy_env \<Rightarrow> payload \<Rightarrow> ('x, 'w) exchange \<Rightarrow> go_error option \<times> ('x, 'w) exchange" where
  "encode_json E p e =
     (case px_marshal E p of
        Some err \<Rightarrow> (Some err, e)
      | None \<Rightarrow> (px_write E p, write_body p e))"

subsection \<open>Errors\<close>

text \<open>\<open>errors.As\<close> for the method \<open>HTTPStatus\<close>, which \<open>AuthError\<close> has.\<close>

definition auth_status :: "int \<Rightarrow> int" where
  "auth_status status = (if status = 0 then 401 else status)"

fun http_status_of :: "go_error \<Rightarrow> int \<Rightarrow> int" where
  "http_status_of (AuthErr e status) fallback = auth_status status"
| "http_status_of (WrapErr p e) fallback = http_status_of e fallback"
| "http_status_of _ fallback = fallback"

definition proxy_secrets :: "'x proxy_config \<Rightarrow> string list" where
  "proxy_secrets cfg = filter (\<lambda>k. k \<noteq> []) (map (opt_api_key \<circ> snd) (pc_providers cfg))"

definition redact_error :: "'x proxy_config \<Rightarrow> go_error option \<Rightarrow> string" where
  "redact_error cfg err =
     (case err of None \<Rightarrow> [] | Some e \<Rightarrow> redact_message (error_text e) (proxy_secrets cfg))"

definition write_error ::
  "('x, 'w) proxy_env \<Rightarrow> 'x proxy_config \<Rightarrow> error_info \<Rightarrow> ('x, 'w) exchange \<Rightarrow> ('x, 'w) exchange" where
  "write_error E cfg info e =
     (let e1 = (if pc_on_error cfg then log_that (OnError info) e else e);
          e2 = write_header (ei_status info) (set_header ''Content-Type'' ''application/json'' e1)
      in snd (encode_json E (ErrorResponse (redact_error cfg (ei_err info))) e2))"

definition no_info :: "string \<Rightarrow> error_info" where
  "no_info req_id = \<lparr>ei_provider = [], ei_model = [], ei_stream = False, ei_status = 0, ei_err = None,
     ei_request_id = req_id\<rparr>"

definition failure :: "error_info \<Rightarrow> int \<Rightarrow> go_error \<Rightarrow> error_info" where
  "failure info status err = info\<lparr>ei_status := status, ei_err := Some err\<rparr>"

subsection \<open>Request ids and hooks\<close>

definition request_id_header_name :: "'x proxy_config \<Rightarrow> string" where
  "request_id_header_name cfg = (if pc_id_header cfg = [] then ''X-Request-ID'' else pc_id_header cfg)"

definition ensure_request_id ::
  "('x, 'w) proxy_env \<Rightarrow> 'x proxy_config \<Rightarrow> proxy_request \<Rightarrow> proxy_request \<times> string" where
  "ensure_request_id E cfg r =
     (if pc_id_header cfg = ''-'' then (r, [])
      else
        (let header = (if pc_id_header cfg = [] then ''X-Request-ID'' else pc_id_header cfg);
             given = header_get (in_headers r) header;
             req_id = (if given = [] then px_random_id E else given)
         in (r\<lparr>in_context_id := Some req_id\<rparr>, req_id)))"

definition request_id_from_context :: "proxy_request \<Rightarrow> string" where
  "request_id_from_context r = (case in_context_id r of None \<Rightarrow> [] | Some i \<Rightarrow> i)"

definition authorize ::
  "('x, 'w) proxy_env \<Rightarrow> 'x proxy_config \<Rightarrow> proxy_request \<Rightarrow> error_info \<Rightarrow> ('x, 'w) exchange
     \<Rightarrow> bool \<times> proxy_request \<times> ('x, 'w) exchange" where
  "authorize E cfg r info e =
     (case pc_authorize cfg of
        None \<Rightarrow> (True, r, e)
      | Some hook \<Rightarrow>
          (case hook r of
             (None, r1) \<Rightarrow> (True, r1, e)
           | (Some err, r1) \<Rightarrow> (False, r1, write_error E cfg (failure info (http_status_of err 401) err) e)))"

definition transform ::
  "('x, 'w) proxy_env \<Rightarrow> 'x proxy_config \<Rightarrow> proxy_request \<Rightarrow> error_info \<Rightarrow> 'x chat_request
     \<Rightarrow> ('x, 'w) exchange \<Rightarrow> bool \<times> 'x chat_request \<times> ('x, 'w) exchange" where
  "transform E cfg r info req e =
     (case pc_transform cfg of
        None \<Rightarrow> (True, req, e)
      | Some hook \<Rightarrow>
          (case hook r req of
             (None, req1) \<Rightarrow> (True, req1, e)
           | (Some err, req1) \<Rightarrow> (False, req1, write_error E cfg (failure info (http_status_of err 400) err) e)))"

text \<open>
  What every handler begins with: the request id, its header, and \<open>Authorize\<close>; \<open>k\<close> is the rest
  of the handler.
\<close>

definition admit ::
  "('x, 'w) proxy_env \<Rightarrow> 'x proxy_config \<Rightarrow> proxy_request \<Rightarrow> 'w
     \<Rightarrow> (proxy_request \<Rightarrow> string \<Rightarrow> ('x, 'w) exchange \<Rightarrow> ('x, 'w) exchange) \<Rightarrow> ('x, 'w) exchange" where
  "admit E cfg r w k =
     (let (r1, req_id) = ensure_request_id E cfg r;
          e1 = (if req_id \<noteq> [] then set_header (request_id_header_name cfg) req_id (new_exchange w)
                else new_exchange w)
      in case authorize E cfg r1 (no_info req_id) e1 of
           (ok, r2, e2) \<Rightarrow> if ok then k r2 req_id e2 else e2)"

subsection \<open>\<open>New\<close> and the routes\<close>

definition proxy_with_defaults :: "'x proxy_config \<Rightarrow> 'x proxy_config" where
  "proxy_with_defaults cfg =
     (let trimmed = trim_char CHR ''/'' (pc_prefix cfg)
      in cfg\<lparr>pc_prefix := CHR ''/'' # (if trimmed = [] then ''v1'' else trimmed)\<rparr>)"

definition new_proxy :: "'x proxy_config \<Rightarrow> 'x proxy_config" where
  "new_proxy cfg = proxy_with_defaults cfg"

datatype endpoint =
    Health | Providers | Models | Chat | ChatStream | Embed | EmbedMultimodal | Rerank

definition proxy_routes :: "'x proxy_config \<Rightarrow> ((string \<times> string) \<times> endpoint) list" where
  "proxy_routes cfg =
     (let pfx = pc_prefix cfg in
      [((''GET'', pfx @ ''/health''), Health),
       ((''GET'', pfx @ ''/providers''), Providers),
       ((''GET'', pfx @ ''/models''), Models),
       ((''POST'', pfx @ ''/chat''), Chat),
       ((''POST'', pfx @ ''/chat/stream''), ChatStream),
       ((''POST'', pfx @ ''/embed''), Embed),
       ((''POST'', pfx @ ''/embed/multimodal''), EmbedMultimodal),
       ((''POST'', pfx @ ''/rerank''), Rerank)])"

end
