(* ===== verification/ProxyHandlers.thy ===== *)
theory ProxyHandlers
  imports Proxy Encodings
begin

text \<open>
  The endpoints of the proxy (\<open>proxy/handlers.go\<close>), each a function of the configuration, the
  request and the world to the exchange it leaves.
\<close>

subsection \<open>\<open>GET /providers\<close>\<close>

definition provider_display_names :: "(string \<times> string) list" where
  "provider_display_names =
     [(''anthropic'', ''Anthropic''), (''openai'', ''OpenAI''), (''gemini'', ''Google Gemini''),
      (''ollama'', ''Ollama''), (''voyage'', ''Voyage AI'')]"

definition display_name_for :: "string \<Rightarrow> string" where
  "display_name_for name =
     (case map_of provider_display_names name of Some d \<Rightarrow> d | None \<Rightarrow> name)"

definition provider_infos :: "'x proxy_config \<Rightarrow> provider_info list" where
  "provider_infos cfg =
     sort_key pi_name
       (map (\<lambda>(name, opts). \<lparr>pi_name = name, pi_display = display_name_for name, pi_model = opt_model opts,
               pi_default = (name = pc_default cfg)\<rparr>) (pc_providers cfg))"

text \<open>A response body, and the error response when it cannot be encoded or written.\<close>

definition respond ::
  "('x, 'w) proxy_env \<Rightarrow> 'x proxy_config \<Rightarrow> error_info \<Rightarrow> payload \<Rightarrow> ('x, 'w) exchange
     \<Rightarrow> bool \<times> ('x, 'w) exchange" where
  "respond E cfg info p e =
     (case encode_json E p (set_header ''Content-Type'' ''application/json'' e) of
        (None, e1) \<Rightarrow> (True, e1)
      | (Some err, e1) \<Rightarrow> (False, write_error E cfg (failure info 500 err) e1))"

definition handle_providers ::
  "('x, 'w) proxy_env \<Rightarrow> 'x proxy_config \<Rightarrow> proxy_request \<Rightarrow> 'w \<Rightarrow> ('x, 'w) exchange" where
  "handle_providers E cfg r w =
     admit E cfg r w (\<lambda>r1 req_id e.
       snd (respond E cfg (no_info req_id) (ProvidersResponse (provider_infos cfg) (pc_default cfg)) e))"

subsection \<open>\<open>GET /models\<close>\<close>

definition query_get :: "proxy_request \<Rightarrow> string \<Rightarrow> string" where
  "query_get r key = (case map_of (in_query r) key of None \<Rightarrow> [] | Some v \<Rightarrow> v)"

definition query_all :: "proxy_request \<Rightarrow> string \<Rightarrow> string list" where
  "query_all r key = map snd (filter (\<lambda>p. fst p = key) (in_query r))"

definition capability_of :: "string \<Rightarrow> capability" where
  "capability_of s =
     (if s = ''chat'' then CapChat else if s = ''tools'' then CapTools
      else if s = ''vision'' then CapVision else if s = ''embeddings'' then CapEmbeddings
      else if s = ''json_mode'' then CapJSONMode else if s = ''streaming'' then CapStreaming
      else if s = ''multimodal_embeddings'' then CapMultimodalEmbeddings
      else if s = ''reranking'' then CapReranking else if s = ''decisions'' then CapDecisions
      else CapOther s)"

definition list_options :: "proxy_request \<Rightarrow> capability list option list" where
  "list_options r =
     (let caps = query_all r ''capability'' in
      if caps \<noteq> [] then [Some (map capability_of caps)] else [])"

definition not_configured :: "string \<Rightarrow> go_error" where
  "not_configured provider = PlainErr (''provider '' @ go_quote provider @ '' is not configured'')"

definition open_client ::
  "('x, 'w) proxy_env \<Rightarrow> string \<Rightarrow> 'x client_options \<Rightarrow> go_error + ('x, 'w) llm_client" where
  "open_client E provider opts = new_client (px_read_file E) (px_registry E) provider opts"

definition send_models ::
  "('x, 'w) proxy_env \<Rightarrow> 'x proxy_config \<Rightarrow> ('x, 'w) llm_client \<Rightarrow> proxy_request \<Rightarrow> error_info
     \<Rightarrow> ('x, 'w) exchange \<Rightarrow> ('x, 'w) exchange" where
  "send_models E cfg client r info e =
     (if query_get r ''metadata'' = ''true'' then
        (case call (CallOther (ei_provider info)) (cl_list_metadata client (list_options r)) e of
           (Inl err, e1) \<Rightarrow> write_error E cfg (failure info 502 err) e1
         | (Inr models, e1) \<Rightarrow> snd (respond E cfg info (ModelsMetadataResponse models) e1))
      else
        (case call (CallOther (ei_provider info)) (cl_list_models client (list_options r)) e of
           (Inl err, e1) \<Rightarrow> write_error E cfg (failure info 502 err) e1
         | (Inr models, e1) \<Rightarrow> snd (respond E cfg info (ModelsResponse models) e1)))"

definition handle_models ::
  "('x, 'w) proxy_env \<Rightarrow> 'x proxy_config \<Rightarrow> proxy_request \<Rightarrow> 'w \<Rightarrow> ('x, 'w) exchange" where
  "handle_models E cfg r w =
     admit E cfg r w (\<lambda>r1 req_id e.
       (let provider = query_get r1 ''provider''; info = (no_info req_id)\<lparr>ei_provider := provider\<rparr> in
        if provider = [] then
          write_error E cfg (failure (no_info req_id) 400
            (PlainErr (''missing required query parameter '' @ [CHR 0x27] @ ''provider'' @ [CHR 0x27]))) e
        else (case map_of (pc_providers cfg) provider of
          None \<Rightarrow> write_error E cfg (failure info 400 (not_configured provider)) e
        | Some opts \<Rightarrow>
            (case open_client E provider opts of
               Inl err \<Rightarrow> write_error E cfg (failure info 500 err) e
             | Inr client \<Rightarrow> send_models E cfg client r1 info e))))"

subsection \<open>\<open>POST /chat\<close> and \<open>POST /chat/stream\<close>\<close>

text \<open>
  \<open>MaxBytesReader\<close>: a body over the limit reads as its first bytes and then an error.
\<close>

definition max_bytes :: "int \<Rightarrow> bytes \<times> go_error option \<Rightarrow> bytes \<times> go_error option" where
  "max_bytes n body =
     (if n < int (length (fst body)) then (take (nat n) (fst body), Some (PlainErr ''http: request body too large''))
      else body)"

definition limited :: "'x proxy_config \<Rightarrow> proxy_request \<Rightarrow> bytes \<times> go_error option" where
  "limited cfg r = (if 0 < pc_max_body cfg then max_bytes (pc_max_body cfg) (in_body r) else in_body r)"

definition build_llm_request :: "proxy_chat_request \<Rightarrow> 'x chat_request" where
  "build_llm_request q =
     \<lparr>req_messages = pq_messages q, req_tools = pq_tools q, req_system = pq_system q,
      req_max_tokens = pq_max_tokens q, req_temperature = pq_temperature q, req_extensions = [],
      req_format = pq_format q, req_tool_choice = pq_tool_choice q, req_stop = pq_stop q,
      req_descriptions = pq_descriptions q, req_effort = EffortDefault, req_caching = CachingDefault\<rparr>"

definition parse_chat_request ::
  "('x, 'w) proxy_env \<Rightarrow> 'x proxy_config \<Rightarrow> proxy_request
     \<Rightarrow> go_error + (proxy_chat_request \<times> 'x client_options \<times> string \<times> string)" where
  "parse_chat_request E cfg r =
     (case px_chat_body E (limited cfg r) of
        Inl err \<Rightarrow> Inl (WrapErr ''invalid request body: '' err)
      | Inr q \<Rightarrow>
          (let provider = (if pq_provider q = [] then pc_default cfg else pq_provider q) in
           if provider = [] then Inl (PlainErr ''no provider specified and no default configured'')
           else (case map_of (pc_providers cfg) provider of
                   None \<Rightarrow> Inl (not_configured provider)
                 | Some opts \<Rightarrow>
                     (let opts1 = (if pq_model q \<noteq> [] then opts\<lparr>opt_model := pq_model q\<rparr> else opts)
                      in Inr (q, opts1, provider, opt_model opts1)))))"

definition chat_info :: "string \<Rightarrow> string \<Rightarrow> bool \<Rightarrow> string \<Rightarrow> error_info" where
  "chat_info provider model stream req_id =
     (no_info req_id)\<lparr>ei_provider := provider, ei_model := model, ei_stream := stream\<rparr>"

text \<open>
  What the two chat handlers share: parsing, \<open>TransformRequest\<close>, \<open>OnRequest\<close> and
  \<open>NewClient\<close>; \<open>k\<close> is what follows with the client and the request to dispatch.
\<close>

definition begin_chat ::
  "('x, 'w) proxy_env \<Rightarrow> 'x proxy_config \<Rightarrow> bool \<Rightarrow> proxy_request \<Rightarrow> string \<Rightarrow> ('x, 'w) exchange
     \<Rightarrow> (('x, 'w) llm_client \<Rightarrow> 'x chat_request \<Rightarrow> error_info \<Rightarrow> ('x, 'w) exchange \<Rightarrow> ('x, 'w) exchange)
     \<Rightarrow> ('x, 'w) exchange" where
  "begin_chat E cfg stream r req_id e k =
     (case parse_chat_request E cfg r of
        Inl err \<Rightarrow> write_error E cfg (failure (no_info req_id) 400 err) e
      | Inr (q, opts, provider, model) \<Rightarrow>
          (let info = chat_info provider model stream req_id in
           case transform E cfg r info (build_llm_request q) e of
             (ok, req, e1) \<Rightarrow>
               if \<not> ok then e1
               else
                 (let e2 = (if pc_on_request cfg then
                              log_that (OnRequest \<lparr>ri_provider = provider, ri_model = model, ri_stream = stream,
                                ri_request_id = req_id, ri_request = req\<rparr>) e1
                            else e1)
                  in case open_client E provider opts of
                       Inl err \<Rightarrow> write_error E cfg (failure info 500 err) e2
                     | Inr client \<Rightarrow> k client req info e2)))"

definition on_response ::
  "'x proxy_config \<Rightarrow> error_info \<Rightarrow> int \<Rightarrow> chat_response \<Rightarrow> ('x, 'w) exchange \<Rightarrow> ('x, 'w) exchange" where
  "on_response cfg info status resp e =
     (if pc_on_response cfg then
        log_that (OnResponse \<lparr>rs_provider = ei_provider info, rs_model = ei_model info, rs_stream = ei_stream info,
          rs_code = status, rs_request_id = ei_request_id info, rs_response = resp\<rparr>) e
      else e)"

definition finish_chat ::
  "('x, 'w) proxy_env \<Rightarrow> 'x proxy_config \<Rightarrow> ('x, 'w) llm_client \<Rightarrow> 'x chat_request \<Rightarrow> error_info
     \<Rightarrow> ('x, 'w) exchange \<Rightarrow> ('x, 'w) exchange" where
  "finish_chat E cfg client req info e =
     (case call (CallChat (ei_provider info) req) (cl_chat client req) e of
        (Inl err, e1) \<Rightarrow> write_error E cfg (failure info 502 err) e1
      | (Inr resp, e1) \<Rightarrow>
          (case respond E cfg info (ProxyChatResponse (resp_content resp) (resp_stop resp) (resp_usage resp)) e1 of
             (ok, e2) \<Rightarrow> if ok then on_response cfg info 200 resp e2 else e2))"

definition handle_chat ::
  "('x, 'w) proxy_env \<Rightarrow> 'x proxy_config \<Rightarrow> proxy_request \<Rightarrow> 'w \<Rightarrow> ('x, 'w) exchange" where
  "handle_chat E cfg r w =
     admit E cfg r w (\<lambda>r1 req_id e. begin_chat E cfg False r1 req_id e (finish_chat E cfg))"

text \<open>The writer of the events, each written to the response and flushed.\<close>

definition write_events :: "sse_event list \<Rightarrow> ('x, 'w) exchange \<Rightarrow> ('x, 'w) exchange" where
  "write_events events e = foldl (\<lambda>e1 ev. write_body (Event ev) e1) e events"

definition stream_headers :: "('x, 'w) exchange \<Rightarrow> ('x, 'w) exchange" where
  "stream_headers e =
     write_header 200 (set_header ''X-Accel-Buffering'' ''no'' (set_header ''Connection'' ''keep-alive''
       (set_header ''Cache-Control'' ''no-cache'' (set_header ''Content-Type'' ''text/event-stream'' e))))"

definition marshal_chunk :: "('x, 'w) proxy_env \<Rightarrow> chunk \<Rightarrow> go_error option" where
  "marshal_chunk E c = px_marshal E (Event (SseData c))"

definition finish_stream ::
  "('x, 'w) proxy_env \<Rightarrow> 'x proxy_config \<Rightarrow> ('x, 'w) llm_client \<Rightarrow> 'x chat_request \<Rightarrow> error_info
     \<Rightarrow> ('x, 'w) exchange \<Rightarrow> ('x, 'w) exchange" where
  "finish_stream E cfg client req info e =
     (case call (CallStream (ei_provider info) req) (cl_chat_stream client req) e of
        (Inl err, e1) \<Rightarrow> write_error E cfg (failure info 502 err) e1
      | (Inr stream, e1) \<Rightarrow>
          (case write_sse (marshal_chunk E) (proxy_secrets cfg) stream of
             (events, resp, err) \<Rightarrow>
               (let e2 = write_events events (stream_headers e1);
                    e3 = on_response cfg info (if err = None then 200 else 502) resp e2
                in case err of
                     Some x \<Rightarrow> if pc_on_error cfg then log_that (OnError (failure info 502 x)) e3 else e3
                   | None \<Rightarrow> e3)))"

definition handle_chat_stream ::
  "('x, 'w) proxy_env \<Rightarrow> 'x proxy_config \<Rightarrow> proxy_request \<Rightarrow> 'w \<Rightarrow> ('x, 'w) exchange" where
  "handle_chat_stream E cfg r w =
     admit E cfg r w (\<lambda>r1 req_id e. begin_chat E cfg True r1 req_id e (finish_stream E cfg))"

subsection \<open>\<open>GET /health\<close>\<close>

definition provider_down :: "'x proxy_config \<Rightarrow> go_error \<Rightarrow> provider_health" where
  "provider_down cfg err = \<lparr>ph_status = ''down'', ph_error = redact_error cfg (Some err)\<rparr>"

fun check_providers ::
  "('x, 'w) proxy_env \<Rightarrow> 'x proxy_config \<Rightarrow> (string \<times> 'x client_options) list \<Rightarrow> ('x, 'w) exchange
     \<Rightarrow> bool \<times> (string \<times> provider_health) list \<times> ('x, 'w) exchange" where
  "check_providers E cfg [] e = (True, [], e)"
| "check_providers E cfg ((name, opts) # ps) e =
     (let (up, h, e1) =
        (case open_client E name opts of
           Inl err \<Rightarrow> (False, provider_down cfg err, e)
         | Inr client \<Rightarrow>
             (case call (CallOther name) (cl_ping client) e of
                (Some err, e1) \<Rightarrow> (False, provider_down cfg err, e1)
              | (None, e1) \<Rightarrow> (True, \<lparr>ph_status = ''ok'', ph_error = []\<rparr>, e1)))
      in case check_providers E cfg ps e1 of
           (all_ok, hs, e2) \<Rightarrow> (up \<and> all_ok, (name, h) # hs, e2))"

definition handle_health ::
  "('x, 'w) proxy_env \<Rightarrow> 'x proxy_config \<Rightarrow> proxy_request \<Rightarrow> 'w \<Rightarrow> ('x, 'w) exchange" where
  "handle_health E cfg r w =
     admit E cfg r w (\<lambda>r1 req_id e.
       (case check_providers E cfg (pc_providers cfg) e of
          (all_ok, hs, e1) \<Rightarrow>
            (let e2 = set_header ''Content-Type'' ''application/json'' e1;
                 e3 = (if \<not> all_ok then write_header 503 e2 else e2)
             in snd (encode_json E (HealthResponse (if all_ok then ''ok'' else ''degraded'') hs) e3))))"

subsection \<open>\<open>POST /embed\<close> and \<open>POST /rerank\<close>\<close>

text \<open>
  What the three other endpoints do once their body is checked: the provider named or the
  default one, its options with the model named, and \<open>NewClient\<close>; \<open>k\<close> is the rest.
\<close>

definition named_client ::
  "('x, 'w) proxy_env \<Rightarrow> 'x proxy_config \<Rightarrow> string \<Rightarrow> string \<Rightarrow> string \<Rightarrow> ('x, 'w) exchange
     \<Rightarrow> (('x, 'w) llm_client \<Rightarrow> error_info \<Rightarrow> ('x, 'w) exchange \<Rightarrow> ('x, 'w) exchange) \<Rightarrow> ('x, 'w) exchange" where
  "named_client E cfg named model req_id e k =
     (let provider = (if named = [] then pc_default cfg else named);
          info = (no_info req_id)\<lparr>ei_provider := provider\<rparr>
      in case map_of (pc_providers cfg) provider of
           None \<Rightarrow> write_error E cfg (failure info 400 (not_configured provider)) e
         | Some opts \<Rightarrow>
             (case open_client E provider (if model \<noteq> [] then opts\<lparr>opt_model := model\<rparr> else opts) of
                Inl err \<Rightarrow> write_error E cfg (failure info 500 err) e
              | Inr client \<Rightarrow> k client info e))"

definition provider_status :: "go_error \<Rightarrow> int" where
  "provider_status err = (if is_sentinel ErrNotSupported err then 501 else 502)"

definition answer_with ::
  "('x, 'w) proxy_env \<Rightarrow> 'x proxy_config \<Rightarrow> error_info \<Rightarrow> ('r \<Rightarrow> payload)
     \<Rightarrow> (go_error + 'r) \<times> ('x, 'w) exchange \<Rightarrow> ('x, 'w) exchange" where
  "answer_with E cfg info body out =
     (case out of
        (Inl err, e) \<Rightarrow> write_error E cfg (failure info (provider_status err) err) e
      | (Inr r, e) \<Rightarrow> snd (respond E cfg info (body r) e))"

definition handle_embed ::
  "('x, 'w) proxy_env \<Rightarrow> 'x proxy_config \<Rightarrow> proxy_request \<Rightarrow> 'w \<Rightarrow> ('x, 'w) exchange" where
  "handle_embed E cfg r w =
     admit E cfg r w (\<lambda>r1 req_id e.
       (case px_embed_body E (limited cfg r1) of
          Inl err \<Rightarrow> write_error E cfg (failure (no_info req_id) 400 err) e
        | Inr q \<Rightarrow>
            if qe_input q = [] then
              write_error E cfg (failure (no_info req_id) 400 (PlainErr ''input must contain at least one string'')) e
            else
              named_client E cfg (qe_provider q) (qe_model q) req_id e (\<lambda>client info e1.
                answer_with E cfg info EmbedResponse
                  (call (CallOther (ei_provider info)) (cl_embed_batch client (qe_input q)) e1))))"

definition rerank_body :: "rerank_response \<Rightarrow> payload" where
  "rerank_body resp =
     RerankResponse
       (map (\<lambda>res. \<lparr>rk_index = rk_index res, rk_score = rk_score res, rk_document = rk_document res\<rparr>) (rk_results resp))
       (us_total (rk_usage resp))"

definition handle_rerank ::
  "('x, 'w) proxy_env \<Rightarrow> 'x proxy_config \<Rightarrow> proxy_request \<Rightarrow> 'w \<Rightarrow> ('x, 'w) exchange" where
  "handle_rerank E cfg r w =
     admit E cfg r w (\<lambda>r1 req_id e.
       (case px_rerank_body E (limited cfg r1) of
          Inl err \<Rightarrow> write_error E cfg (failure (no_info req_id) 400 err) e
        | Inr q \<Rightarrow>
            if pr_query q = [] \<or> pr_documents q = [] then
              write_error E cfg (failure (no_info req_id) 400 (PlainErr ''query and documents are required'')) e
            else
              named_client E cfg (pr_provider q) (pr_model q) req_id e (\<lambda>client info e1.
                answer_with E cfg info rerank_body
                  (call (CallOther (ei_provider info))
                    (cl_rerank client \<lparr>rk_query = pr_query q, rk_documents = pr_documents q,
                       rk_top_k = pr_top_k q, rk_extensions = []\<rparr>) e1))))"

subsection \<open>\<open>POST /embed/multimodal\<close>\<close>

definition max_embed_multimodal_body_bytes :: int where
  "max_embed_multimodal_body_bytes = 16777216"

definition max_decoded_image_bytes :: int where
  "max_decoded_image_bytes = 10485760"

text \<open>\<open>StdEncoding.DecodedLen\<close>, and \<open>DecodeString\<close>, which skips line ends.\<close>

definition decoded_len :: "nat \<Rightarrow> int" where
  "decoded_len n = int (n div 4 * 3)"

definition decode_base64 :: "('x, 'w) proxy_env \<Rightarrow> string \<Rightarrow> go_error + bytes" where
  "decode_base64 E s =
     (case unbase64 (filter (\<lambda>c. c \<noteq> CHR 0x0A \<and> c \<noteq> CHR 0x0D) s) of
        Some d \<Rightarrow> Inr d
      | None \<Rightarrow> Inl (px_base64_error E s))"

definition multimodal_type_of :: "string \<Rightarrow> multimodal_type" where
  "multimodal_type_of s =
     (if s = ''text'' then MultimodalText else if s = ''image_url'' then MultimodalImageURL
      else if s = ''image_base64'' then MultimodalImageData else MultimodalOther s)"

definition image_bytes :: "('x, 'w) proxy_env \<Rightarrow> string \<Rightarrow> go_error + bytes" where
  "image_bytes E s =
     (if s = [] then Inr []
      else if max_decoded_image_bytes < decoded_len (length s) then
        Inl (PlainErr ''image_base64 exceeds max decoded size'')
      else decode_base64 E s)"

definition content_of ::
  "('x, 'w) proxy_env \<Rightarrow> multimodal_content_request \<Rightarrow> go_error + multimodal_content" where
  "content_of E c =
     (case image_bytes E (mr_image_base64 c) of
        Inl err \<Rightarrow> Inl err
      | Inr d \<Rightarrow> Inr \<lparr>mc_type = multimodal_type_of (mr_type c), mc_text = mr_text c,
                     mc_image_url = mr_image_url c, mc_image_data = d, mc_mime_type = mr_mime_type c\<rparr>)"

fun each :: "('a \<Rightarrow> go_error + 'b) \<Rightarrow> 'a list \<Rightarrow> go_error + 'b list" where
  "each f [] = Inr []"
| "each f (x # xs) =
     (case f x of
        Inl err \<Rightarrow> Inl err
      | Inr y \<Rightarrow> (case each f xs of Inl err \<Rightarrow> Inl err | Inr ys \<Rightarrow> Inr (y # ys)))"

definition multimodal_inputs ::
  "('x, 'w) proxy_env \<Rightarrow> multimodal_content_request list list \<Rightarrow> go_error + multimodal_input list" where
  "multimodal_inputs E inputs = each (each (content_of E)) inputs"

definition handle_embed_multimodal ::
  "('x, 'w) proxy_env \<Rightarrow> 'x proxy_config \<Rightarrow> proxy_request \<Rightarrow> 'w \<Rightarrow> ('x, 'w) exchange" where
  "handle_embed_multimodal E cfg r w =
     admit E cfg r w (\<lambda>r1 req_id e.
       (case px_multimodal_body E (max_bytes max_embed_multimodal_body_bytes (in_body r1)) of
          Inl err \<Rightarrow> write_error E cfg (failure (no_info req_id) 400 err) e
        | Inr q \<Rightarrow>
            if pm_inputs q = [] then
              write_error E cfg (failure (no_info req_id) 400 (PlainErr ''inputs must contain at least one item'')) e
            else
              named_client E cfg (pm_provider q) (pm_model q) req_id e (\<lambda>client info e1.
                (case multimodal_inputs E (pm_inputs q) of
                   Inl err \<Rightarrow> write_error E cfg (failure info 400 err) e1
                 | Inr inputs \<Rightarrow>
                     answer_with E cfg info EmbedMultimodalResponse
                       (call (CallOther (ei_provider info))
                         (cl_embed_multimodal client \<lparr>mm_inputs = inputs, mm_extensions = []\<rparr>) e1)))))"

subsection \<open>Serving\<close>

text \<open>The handler the mux runs for an endpoint.\<close>

definition serve ::
  "('x, 'w) proxy_env \<Rightarrow> 'x proxy_config \<Rightarrow> endpoint \<Rightarrow> proxy_request \<Rightarrow> 'w \<Rightarrow> ('x, 'w) exchange" where
  "serve E cfg ep =
     (case ep of
        Health \<Rightarrow> handle_health E cfg
      | Providers \<Rightarrow> handle_providers E cfg
      | Models \<Rightarrow> handle_models E cfg
      | Chat \<Rightarrow> handle_chat E cfg
      | ChatStream \<Rightarrow> handle_chat_stream E cfg
      | Embed \<Rightarrow> handle_embed E cfg
      | EmbedMultimodal \<Rightarrow> handle_embed_multimodal E cfg
      | Rerank \<Rightarrow> handle_rerank E cfg)"

end
