(* ===== verification/ProxyRules.thy ===== *)
theory ProxyRules
  imports ProxyHandlers
begin

text \<open>
  How the endpoints of the proxy treat an exchange, as two locales: \<open>exchange_outcome\<close> for a
  property that holds until the response is sent and one that holds after, and
  \<open>exchange_invariant\<close> for a single property every step keeps. The clients' lemmas go through the
  handlers once; the properties of the proxy are interpretations.
\<close>

subsection \<open>Error texts, and the calls a configuration allows\<close>

definition error_texts :: "payload \<Rightarrow> string list" where
  "error_texts p =
     (case p of
        ErrorResponse m \<Rightarrow> [m]
      | HealthResponse s hs \<Rightarrow> map (ph_error \<circ> snd) hs
      | Event (SseError m) \<Rightarrow> [m]
      | _ \<Rightarrow> [])"

definition plain_body :: "payload \<Rightarrow> bool" where
  "plain_body p = (case p of ErrorResponse m \<Rightarrow> False | HealthResponse s hs \<Rightarrow> False | Event ev \<Rightarrow> False | _ \<Rightarrow> True)"

lemma plain_no_errors: "plain_body p \<Longrightarrow> error_texts p = []"
  by (simp add: plain_body_def error_texts_def split: payload.splits)

definition redacted :: "'x proxy_config \<Rightarrow> string \<Rightarrow> bool" where
  "redacted cfg m \<longleftrightarrow> m = [] \<or> (\<exists>t. m = redact_message t (proxy_secrets cfg))"

definition configured :: "'x proxy_config \<Rightarrow> string \<Rightarrow> bool" where
  "configured cfg p \<longleftrightarrow> map_of (pc_providers cfg) p \<noteq> None"

definition call_allowed :: "'x proxy_config \<Rightarrow> 'x log_entry \<Rightarrow> bool" where
  "call_allowed cfg l =
     (case l of
        CallChat p r \<Rightarrow> configured cfg p
      | CallStream p r \<Rightarrow> configured cfg p
      | CallOther p \<Rightarrow> configured cfg p
      | _ \<Rightarrow> True)"

lemma sse_loop_redacted:
  "list_all (\<lambda>ev. list_all (redacted cfg) (error_texts (Event ev)))
     (fst (sse_loop marshal (proxy_secrets cfg) final a cs))"
  by (induction cs arbitrary: a)
     (auto simp: error_texts_def redacted_def case_prod_unfold Let_def split: option.splits)

lemma write_sse_redacted:
  "write_sse marshal (proxy_secrets cfg) stream = (events, resp, err) \<Longrightarrow>
    list_all (\<lambda>ev. list_all (redacted cfg) (error_texts (Event ev))) events"
  using sse_loop_redacted [of cfg marshal "snd stream" asm_init "fst stream"] by (simp add: write_sse_def)

subsection \<open>What every endpoint does to an exchange\<close>

text \<open>
  A handler prepares a response, in which a property \<open>O\<close> of exchanges holds, until it sends it,
  after which a property \<open>A\<close> does: with an error, with a body, with the state of the providers, or
  with the events of a stream. Whatever keeps to these rules holds of every endpoint.
\<close>

locale exchange_outcome =
  fixes E :: "('x, 'w) proxy_env" and cfg :: "'x proxy_config"
    and prepared :: "('x, 'w) exchange \<Rightarrow> bool" and answered :: "('x, 'w) exchange \<Rightarrow> bool"
  assumes fresh: "prepared (new_exchange w)"
    and headers: "prepared e \<Longrightarrow> prepared (set_header k v e)"
    and logging: "prepared e \<Longrightarrow> call_allowed cfg l \<Longrightarrow> prepared (log_that l e)"
    and world: "prepared e \<Longrightarrow> prepared (e\<lparr>ex_world := w\<rparr>)"
    and hooks: "answered e \<Longrightarrow> call_allowed cfg l \<Longrightarrow> answered (log_that l e)"
    and error: "prepared e \<Longrightarrow> answered (write_error E cfg info e)"
    and responds: "prepared e \<Longrightarrow> plain_body p \<Longrightarrow> answered (snd (respond E cfg info p e))"
    and health: "prepared e \<Longrightarrow> list_all (redacted cfg) (map (ph_error \<circ> snd) hs) \<Longrightarrow>
      answered (snd (encode_json E (HealthResponse (if all_ok then ''ok'' else ''degraded'') hs)
        (if \<not> all_ok then write_header 503 (set_header ''Content-Type'' ''application/json'' e)
         else set_header ''Content-Type'' ''application/json'' e)))"
    and streams: "prepared e \<Longrightarrow> write_sse (marshal_chunk E) (proxy_secrets cfg) stream = (events, resp, err) \<Longrightarrow>
      answered (write_events events (stream_headers e))"
begin

lemma call_keeps: "prepared e \<Longrightarrow> call_allowed cfg l \<Longrightarrow> call l f e = (r, e1) \<Longrightarrow> prepared e1"
  by (auto simp: call_def logging world split: prod.splits)

lemma admit_answers: "(\<And>r1 i e. prepared e \<Longrightarrow> answered (k r1 i e)) \<Longrightarrow> answered (admit E cfg r w k)"
  by (auto simp: admit_def authorize_def Let_def intro!: error headers fresh split: prod.splits option.splits)

lemma begin_chat_answers:
  assumes "prepared e"
    and k: "\<And>client req info e. prepared e \<Longrightarrow> configured cfg (ei_provider info) \<Longrightarrow> answered (k client req info e)"
  shows "answered (begin_chat E cfg stream r i e k)"
proof (cases "parse_chat_request E cfg r")
  case (Inl err)
  then show ?thesis using assms(1) by (simp add: begin_chat_def error)
next
  case (Inr p)
  obtain q opts provider model where p: "p = (q, opts, provider, model)" by (metis surj_pair)
  have known: "configured cfg provider"
    using Inr p by (auto simp: parse_chat_request_def configured_def Let_def split: sum.splits if_splits option.splits)
  show ?thesis using Inr p assms(1) known
    by (auto simp: begin_chat_def transform_def chat_info_def call_allowed_def Let_def
        intro!: error k logging split: sum.splits option.splits prod.splits)
qed

lemma on_response_answers: "answered e \<Longrightarrow> answered (on_response cfg info st resp e)"
  by (simp add: on_response_def hooks call_allowed_def)

lemma finish_chat_answers:
  assumes "prepared e" and "configured cfg (ei_provider info)"
  shows "answered (finish_chat E cfg client req info e)"
proof -
  obtain r e1 where c: "call (CallChat (ei_provider info) req) (cl_chat client req) e = (r, e1)" by (metis surj_pair)
  have e1: "prepared e1" using call_keeps [OF assms(1) _ c] assms(2) by (simp add: call_allowed_def)
  show ?thesis
  proof (cases r)
    case (Inr resp)
    let ?body = "ProxyChatResponse (resp_content resp) (resp_stop resp) (resp_usage resp)"
    obtain ok e2 where "respond E cfg info ?body e1 = (ok, e2)" by (metis surj_pair)
    moreover from this have "answered e2"
      using responds [OF e1, of ?body info] by (simp add: plain_body_def)
    ultimately show ?thesis by (simp add: finish_chat_def c Inr on_response_answers)
  qed (simp add: finish_chat_def c error e1)
qed

lemma finish_stream_answers:
  assumes "prepared e" and "configured cfg (ei_provider info)"
  shows "answered (finish_stream E cfg client req info e)"
proof -
  obtain r e1 where c: "call (CallStream (ei_provider info) req) (cl_chat_stream client req) e = (r, e1)" by (metis surj_pair)
  have e1: "prepared e1" using call_keeps [OF assms(1) _ c] assms(2) by (simp add: call_allowed_def)
  show ?thesis
  proof (cases r)
    case (Inr stream)
    obtain events resp err where w: "write_sse (marshal_chunk E) (proxy_secrets cfg) stream = (events, resp, err)"
      by (metis surj_pair)
    from streams [OF e1 w] c Inr w show ?thesis
      by (auto simp: finish_stream_def Let_def call_allowed_def intro!: hooks on_response_answers split: option.splits)
  qed (simp add: finish_stream_def c error e1)
qed

lemma answer_answers:
  assumes "prepared e" and "configured cfg (ei_provider info)" and "\<And>r. plain_body (b r)"
  shows "answered (answer_with E cfg info b (call (CallOther (ei_provider info)) f e))"
proof -
  obtain r e1 where c: "call (CallOther (ei_provider info)) f e = (r, e1)" by (metis surj_pair)
  have "prepared e1" using call_keeps [OF assms(1) _ c] assms(2) by (simp add: call_allowed_def)
  then show ?thesis using assms(3) by (cases r) (simp_all add: answer_with_def c error responds)
qed

lemma named_answers:
  assumes "prepared e"
    and "\<And>client info e. prepared e \<Longrightarrow> configured cfg (ei_provider info) \<Longrightarrow> answered (k client info e)"
  shows "answered (named_client E cfg named model i e k)"
  using assms
  by (auto simp: named_client_def configured_def Let_def intro!: error split: option.splits sum.splits)

lemma send_models_answers:
  assumes "prepared e" and "configured cfg (ei_provider info)"
  shows "answered (send_models E cfg client r info e)"
proof -
  obtain m e1 where m: "call (CallOther (ei_provider info)) (cl_list_metadata client (list_options r)) e = (m, e1)"
    by (metis surj_pair)
  obtain n e2 where n: "call (CallOther (ei_provider info)) (cl_list_models client (list_options r)) e = (n, e2)"
    by (metis surj_pair)
  have "prepared e1" "prepared e2"
    using call_keeps [OF assms(1) _ m] call_keeps [OF assms(1) _ n] assms(2) by (simp_all add: call_allowed_def)
  then show ?thesis
    by (cases m; cases n) (simp_all add: send_models_def m n error responds plain_body_def)
qed

lemma check_prepared:
  assumes "prepared e" and "\<And>p. p \<in> set ps \<Longrightarrow> configured cfg (fst p)"
  shows "prepared (snd (snd (check_providers E cfg ps e)))
    \<and> list_all (redacted cfg) (map (ph_error \<circ> snd) (fst (snd (check_providers E cfg ps e))))"
  using assms
proof (induction ps arbitrary: e)
  case (Cons p ps)
  obtain name opts where p: "p = (name, opts)" by (metis surj_pair)
  show ?case
  proof (cases "open_client E name opts")
    case (Inl err)
    with Cons.IH [of e] Cons.prems p show ?thesis
      by (auto simp: provider_down_def redact_error_def redacted_def split: prod.splits)
  next
    case (Inr client)
    obtain r e1 where c: "call (CallOther name) (cl_ping client) e = (r, e1)" by (metis surj_pair)
    have "prepared e1" using call_keeps [OF Cons.prems(1) _ c] Cons.prems(2) [of p] p by (simp add: call_allowed_def)
    then show ?thesis
      using Cons.IH [of e1] Cons.prems p Inr c
      by (auto simp: provider_down_def redact_error_def redacted_def Let_def split: prod.splits option.splits)
  qed
qed simp

lemma health_answers: "answered (handle_health E cfg r w)"
  unfolding handle_health_def
proof (rule admit_answers)
  fix r1 i and e :: "('x, 'w) exchange"
  assume e: "prepared e"
  have known: "configured cfg (fst p)" if "p \<in> set (pc_providers cfg)" for p
    using that by (simp add: configured_def map_of_eq_None_iff)
  from check_prepared [where ps = "pc_providers cfg", OF e known]
  show "answered (case check_providers E cfg (pc_providers cfg) e of
      (all_ok, hs, e1) \<Rightarrow>
        let e2 = set_header ''Content-Type'' ''application/json'' e1;
            e3 = if \<not> all_ok then write_header 503 e2 else e2
        in snd (encode_json E (HealthResponse (if all_ok then ''ok'' else ''degraded'') hs) e3))"
    by (simp add: case_prod_unfold Let_def health)
qed

lemma models_answers: "answered (handle_models E cfg r w)"
  unfolding handle_models_def
  by (rule admit_answers)
     (auto simp: configured_def Let_def intro!: error send_models_answers split: option.splits sum.splits)

lemma providers_answers: "answered (handle_providers E cfg r w)"
  unfolding handle_providers_def by (rule admit_answers) (simp add: responds plain_body_def)

lemma chat_answers: "answered (handle_chat E cfg r w)" "answered (handle_chat_stream E cfg r w)"
  unfolding handle_chat_def handle_chat_stream_def
  by (auto intro!: admit_answers begin_chat_answers finish_chat_answers finish_stream_answers)

lemma batch_answers:
  "answered (handle_embed E cfg r w)" "answered (handle_rerank E cfg r w)" "answered (handle_embed_multimodal E cfg r w)"
  unfolding handle_embed_def handle_rerank_def handle_embed_multimodal_def
  by (rule admit_answers;
      auto simp: plain_body_def rerank_body_def intro!: error named_answers answer_answers split: sum.split)+

lemma serve_answers: "answered (serve E cfg ep r w)"
  by (cases ep) (simp_all add: serve_def health_answers providers_answers models_answers chat_answers batch_answers)

end

subsection \<open>Invariants\<close>

text \<open>
  The special case of one property kept by every step: setting headers, sending the status,
  redacted error texts, logging a hook, and calling a provider of the configuration.
\<close>

locale exchange_invariant =
  fixes cfg :: "'x proxy_config" and I :: "('x, 'w) exchange \<Rightarrow> bool"
  assumes fresh: "I (new_exchange w)"
    and headers: "I e \<Longrightarrow> I (set_header k v e)"
    and status: "I e \<Longrightarrow> I (write_header st e)"
    and body: "I e \<Longrightarrow> list_all (redacted cfg) (error_texts p) \<Longrightarrow> I (write_body p e)"
    and logging: "I e \<Longrightarrow> call_allowed cfg l \<Longrightarrow> I (log_that l e)"
    and world: "I e \<Longrightarrow> I (e\<lparr>ex_world := w\<rparr>)"
begin

lemma encode: "I e \<Longrightarrow> list_all (redacted cfg) (error_texts p) \<Longrightarrow> I (snd (encode_json E p e))"
  by (auto simp: encode_json_def body split: option.splits)

lemma error: "I e \<Longrightarrow> I (write_error E cfg info e)"
  by (auto simp: write_error_def Let_def error_texts_def redacted_def redact_error_def call_allowed_def
      intro!: encode status headers logging split: option.splits)

lemma responds: "I e \<Longrightarrow> error_texts p = [] \<Longrightarrow> I (snd (respond E cfg info p e))"
  using encode [of "set_header ''Content-Type'' ''application/json'' e" p E] headers [of e]
  by (auto simp: respond_def intro!: error split: prod.splits option.splits)

lemma events_keep:
  "I e \<Longrightarrow> list_all (\<lambda>ev. list_all (redacted cfg) (error_texts (Event ev))) events \<Longrightarrow> I (write_events events e)"
  unfolding write_events_def by (induction events arbitrary: e) (simp_all add: body)

end

sublocale exchange_invariant \<subseteq> outcome: exchange_outcome E cfg I I for E
proof
  fix e :: "('x, 'w) exchange" and hs all_ok stream events resp err
  assume e: "I e"
  show "list_all (redacted cfg) (map (ph_error \<circ> snd) hs) \<Longrightarrow>
      I (snd (encode_json E (HealthResponse (if all_ok then ''ok'' else ''degraded'') hs)
        (if \<not> all_ok then write_header 503 (set_header ''Content-Type'' ''application/json'' e)
         else set_header ''Content-Type'' ''application/json'' e)))"
    using e by (auto simp: error_texts_def intro!: encode status headers)
  show "I (write_events events (stream_headers e))"
    if "write_sse (marshal_chunk E) (proxy_secrets cfg) stream = (events, resp, err)"
    using e write_sse_redacted [OF that] by (intro events_keep) (simp_all add: stream_headers_def status headers)
qed (simp_all add: fresh headers logging world error responds plain_no_errors)

named_theorems exchange_steps \<open>unfolding of the primitive steps of an exchange\<close>

declare new_exchange_def [exchange_steps] set_header_def [exchange_steps] write_header_def [exchange_steps]
  write_body_def [exchange_steps] log_that_def [exchange_steps] Let_def [exchange_steps]

text \<open>Error texts on the wire are redacted.\<close>

definition wire_redacted :: "'x proxy_config \<Rightarrow> ('x, 'w) exchange \<Rightarrow> bool" where
  "wire_redacted cfg e \<longleftrightarrow> list_all (redacted cfg) (concat (map error_texts (ex_bodies e)))"

interpretation wire: exchange_invariant cfg "wire_redacted cfg"
  by unfold_locales (auto simp: wire_redacted_def exchange_steps list_all_iff split: option.splits)

text \<open>Calls go to configured providers.\<close>

definition calls_configured :: "'x proxy_config \<Rightarrow> ('x, 'w) exchange \<Rightarrow> bool" where
  "calls_configured cfg e \<longleftrightarrow> list_all (call_allowed cfg) (ex_log e)"

interpretation calls: exchange_invariant cfg "calls_configured cfg"
  by unfold_locales (auto simp: calls_configured_def exchange_steps split: option.splits)

end
