(* ===== verification/ProxyProps.thy ===== *)
theory ProxyProps
  imports ProxyRules Transport
begin

text \<open>
  The properties of the proxy: one response per request, refusals that reach no provider,
  redaction of every error text, dispatch to configured providers only, and the path prefix.
\<close>

subsection \<open>One response\<close>

text \<open>
  A connection that takes what is written, and an encoder that encodes what it always can:
  strings, and chunks whose JSON is valid.
\<close>

definition writer_ok :: "('x, 'w) proxy_env \<Rightarrow> bool" where
  "writer_ok E \<longleftrightarrow> (\<forall>p. px_write E p = None) \<and> (\<forall>m. px_marshal E (ErrorResponse m) = None) \<and>
     (\<forall>s hs. px_marshal E (HealthResponse s hs) = None) \<and> (\<forall>c. marshal_chunk E c = None)"

definition unsent :: "('x, 'w) exchange \<Rightarrow> bool" where
  "unsent e \<longleftrightarrow> ex_sent e = None \<and> ex_bodies e = []"

text \<open>The status a body goes out with, and a stream with its one terminator.\<close>

definition status_fits :: "int \<Rightarrow> payload \<Rightarrow> bool" where
  "status_fits st p =
     (case p of
        ErrorResponse m \<Rightarrow> True
      | HealthResponse s hs \<Rightarrow> st = (if s = ''ok'' then 200 else 503)
      | Event ev \<Rightarrow> False
      | _ \<Rightarrow> st = 200)"

definition complete_stream :: "payload list \<Rightarrow> bool" where
  "complete_stream ps \<longleftrightarrow>
     (\<exists>sent t. ps = map (Event \<circ> SseData) sent @ [Event t] \<and> no_done sent \<and> terminator t)"

definition one_response :: "('x, 'w) exchange \<Rightarrow> bool" where
  "one_response e =
     (case ex_sent e of
        None \<Rightarrow> False
      | Some (st, hs) \<Rightarrow>
          header_get hs ''Content-Type'' = ''application/json'' \<and>
            (case ex_bodies e of [p] \<Rightarrow> status_fits st p | _ \<Rightarrow> False)
          \<or> header_get hs ''Content-Type'' = ''text/event-stream'' \<and> st = 200 \<and> complete_stream (ex_bodies e))"

lemma write_error_one:
  assumes "unsent e" and "writer_ok E"
  shows "one_response (write_error E cfg info e)"
  using assms
  by (auto simp: write_error_def encode_json_def exchange_steps writer_ok_def unsent_def one_response_def
      header_get_set status_fits_def)

lemma respond_one:
  assumes "unsent e" and "writer_ok E" and "plain_body p"
  shows "one_response (snd (respond E cfg info p e))"
proof (cases "px_marshal E p")
  case None
  then show ?thesis using assms
    by (cases p) (auto simp: respond_def encode_json_def exchange_steps writer_ok_def unsent_def one_response_def
        header_get_set status_fits_def plain_body_def)
next
  case (Some err)
  have "unsent (set_header ''Content-Type'' ''application/json'' e)"
    using assms(1) by (simp add: unsent_def set_header_def)
  with assms(2) Some show ?thesis by (simp add: respond_def encode_json_def write_error_one)
qed

lemma health_one:
  assumes "unsent e" and "writer_ok E"
  shows "one_response (snd (encode_json E (HealthResponse (if all_ok then ''ok'' else ''degraded'') hs)
    (if \<not> all_ok then write_header 503 (set_header ''Content-Type'' ''application/json'' e)
     else set_header ''Content-Type'' ''application/json'' e)))"
  using assms
  by (auto simp: encode_json_def exchange_steps writer_ok_def unsent_def one_response_def
      header_get_set status_fits_def)

lemma write_events_sent:
  "ex_sent e = Some s \<Longrightarrow> ex_sent (write_events events e) = Some s
    \<and> ex_bodies (write_events events e) = ex_bodies e @ map Event events"
  unfolding write_events_def by (induction events arbitrary: e) (simp_all add: exchange_steps)

lemma stream_one:
  assumes "unsent e" and "writer_ok E"
    and "write_sse (marshal_chunk E) secrets stream = (events, resp, err)"
  shows "one_response (write_events events (stream_headers e))"
proof -
  obtain cs final where s: "stream = (cs, final)" by (metis surj_pair)
  have "list_all (encodable (marshal_chunk E)) (upto_done cs)"
    using assms(2) by (simp add: writer_ok_def encodable_def list_all_iff)
  from sse_terminator [where secrets = secrets and final = final, OF this] assms(3) s
  obtain sent t where ev: "events = map SseData sent @ [t]" "no_done sent" "terminator t" by auto
  have h: "ex_sent (stream_headers e) = Some (200, ex_headers (stream_headers e))" "ex_bodies (stream_headers e) = []"
    using assms(1) by (simp_all add: stream_headers_def exchange_steps unsent_def)
  have ct: "header_get (ex_headers (stream_headers e)) ''Content-Type'' = ''text/event-stream''"
    using assms(1) by (simp add: stream_headers_def exchange_steps unsent_def header_get_set to_lower_def lower_char_def)
  show ?thesis
    using write_events_sent [OF h(1), of events] h(2) ct ev
    by (auto simp: one_response_def complete_stream_def)
qed

lemma log_frame: "ex_sent (log_that l e) = ex_sent e" "ex_bodies (log_that l e) = ex_bodies e"
  by (simp_all add: log_that_def)

lemma log_one: "one_response (log_that l e) = one_response e"
  unfolding one_response_def log_frame ..

lemma unsent_steps [simp]:
  "unsent (new_exchange w)"
  "unsent (set_header k v e) = unsent e"
  "unsent (log_that l e) = unsent e"
  "unsent (e\<lparr>ex_world := w\<rparr>) = unsent e"
  by (simp_all add: unsent_def exchange_steps)

definition proxy_answer :: "('x, 'w) proxy_env \<Rightarrow> ('x, 'w) exchange \<Rightarrow> bool" where
  "proxy_answer E e \<longleftrightarrow> (writer_ok E \<longrightarrow> one_response e)"

interpretation single: exchange_outcome E cfg unsent "proxy_answer E"
  for E :: "('x, 'w) proxy_env" and cfg :: "'x proxy_config"
proof
  fix e :: "('x, 'w) exchange" and l
  show "proxy_answer E e \<Longrightarrow> call_allowed cfg l \<Longrightarrow> proxy_answer E (log_that l e)"
    by (simp add: proxy_answer_def log_one)
qed (auto simp: proxy_answer_def write_error_one respond_one health_one stream_one)

text \<open>
  C26: every request gets exactly one response, on every endpoint and whatever the hooks, the
  body, the configuration and the provider do: a status and a single JSON body, 200 with every
  body that is no error (503 with the health of a proxy a provider of which is down), or 200
  and an event stream with exactly one terminator, its last event. (The connection takes what
  is written, and errors, health reports and chunks encode as JSON.)
\<close>

theorem proxy_one_response:
  assumes "writer_ok E"
  shows "one_response (serve E cfg ep r w)"
  using single.serve_answers [of E cfg ep r w] assms by (simp add: proxy_answer_def)

definition demo_env :: "(unit, unit) proxy_env" where
  "demo_env = \<lparr>px_read_file = (\<lambda>_. None), px_registry = [], px_random_id = ''1f'', px_marshal = (\<lambda>_. None),
     px_write = (\<lambda>_. None), px_chat_body = (\<lambda>_. Inl (PlainErr ''EOF'')), px_embed_body = (\<lambda>_. Inl (PlainErr ''EOF'')),
     px_multimodal_body = (\<lambda>_. Inl (PlainErr ''EOF'')), px_rerank_body = (\<lambda>_. Inl (PlainErr ''EOF'')),
     px_base64_error = (\<lambda>_. PlainErr ''illegal base64 data'')\<rparr>"

definition demo_config :: "unit proxy_config" where
  "demo_config = \<lparr>pc_default = ''openai'', pc_providers = [(''openai'', key_file_options\<lparr>opt_api_key := ''hunter22''\<rparr>)],
     pc_on_request = True, pc_on_response = True, pc_on_error = True,
     pc_authorize = Some (\<lambda>r. (Some (AuthErr (PlainErr ''token hunter22 expired'') 0), r)), pc_transform = None,
     pc_id_header = [], pc_prefix = ''/v1'', pc_max_body = 0\<rparr>"

definition demo_request :: proxy_request where
  "demo_request = \<lparr>in_headers = [], in_query = [], in_body = ([], None), in_context_id = None\<rparr>"

lemma demo_writer: "writer_ok demo_env"
  by (simp add: writer_ok_def demo_env_def marshal_chunk_def)

theorem proxy_one_response_witness:
  "one_response (serve demo_env demo_config Chat demo_request ())"
  by (rule proxy_one_response [OF demo_writer])

subsection \<open>Redaction\<close>

lemma redacted_hides:
  assumes "k \<in> set (map (opt_api_key \<circ> snd) (pc_providers cfg))" and "hideable k" and "redacted cfg m"
  shows "\<not> contains m k"
proof -
  have "k \<noteq> []" using assms(2) by (rule hideable_nonempty)
  with assms(1) have "k \<in> set (proxy_secrets cfg)" by (simp add: proxy_secrets_def)
  with assms(2,3) \<open>k \<noteq> []\<close> show ?thesis
    using rd.hides [of k "proxy_secrets cfg"] by (auto simp: redacted_def)
qed

text \<open>
  C25: no error text the proxy puts on the wire contains an API key of its configuration: not in
  an error response, the health report or an error event of a stream, on any endpoint, whoever
  the error comes from, a hook, a provider or the proxy itself.
\<close>

theorem proxy_hides_keys:
  assumes "k \<in> set (map (opt_api_key \<circ> snd) (pc_providers cfg))" and "hideable k"
  shows "list_all (\<lambda>m. \<not> contains m k) (concat (map error_texts (ex_bodies (serve E cfg ep r w))))"
  using wire.outcome.serve_answers [of cfg E ep r w] redacted_hides [OF assms]
  by (auto simp: wire_redacted_def list_all_iff)

theorem proxy_hides_keys_witness:
  "list_all (\<lambda>m. \<not> contains m ''hunter22'')
    (concat (map error_texts (ex_bodies (serve demo_env demo_config Chat demo_request ()))))"
  by (rule proxy_hides_keys) (simp_all add: demo_config_def hideable_def min_exact_len_def)

text \<open>
  The comment on \<open>redactError\<close> promises every configured provider credential. A key that comes
  from a key file is read by NewClient and is not among the secrets.
\<close>

lemma key_file_not_redacted:
  assumes "pc_providers cfg = [(n, key_file_options)]"
  shows "proxy_secrets cfg = []"
    and "opt_api_key (with_defaults (\<lambda>_. Some ''hunter22'') key_file_options) = ''hunter22''"
  using assms
  by (simp_all add: proxy_secrets_def key_file_options_def with_defaults_def Let_def go_string)

subsection \<open>Admission\<close>

text \<open>The request as the hook left it, the request id, and the hook's error.\<close>

definition admission ::
  "('x, 'w) proxy_env \<Rightarrow> 'x proxy_config \<Rightarrow> proxy_request \<Rightarrow> proxy_request \<times> string \<times> go_error option" where
  "admission E cfg r =
     (case ensure_request_id E cfg r of
        (r1, req_id) \<Rightarrow>
          (case pc_authorize cfg of
             None \<Rightarrow> (r1, req_id, None)
           | Some hook \<Rightarrow> (case hook r1 of (err, r2) \<Rightarrow> (r2, req_id, err))))"

definition started :: "'x proxy_config \<Rightarrow> string \<Rightarrow> 'w \<Rightarrow> ('x, 'w) exchange" where
  "started cfg req_id w =
     (if req_id \<noteq> [] then set_header (request_id_header_name cfg) req_id (new_exchange w) else new_exchange w)"

lemma started_select [simp]:
  "ex_sent (started cfg i w) = None" "ex_bodies (started cfg i w) = []" "ex_log (started cfg i w) = []"
  "ex_world (started cfg i w) = w"
  by (simp_all add: started_def exchange_steps)

lemma admit_eq:
  "admit E cfg r w k =
     (case admission E cfg r of
        (r1, req_id, err) \<Rightarrow>
          (case err of
             None \<Rightarrow> k r1 req_id (started cfg req_id w)
           | Some x \<Rightarrow> write_error E cfg (failure (no_info req_id) (http_status_of x 401) x) (started cfg req_id w)))"
  by (auto simp: admit_def admission_def authorize_def started_def Let_def split: prod.splits option.splits)

lemma serve_admits: "\<exists>k. \<forall>r w. serve E cfg ep r w = admit E cfg r w k"
  by (cases ep; simp only: serve_def endpoint.case handle_health_def handle_providers_def handle_models_def
      handle_chat_def handle_chat_stream_def handle_embed_def handle_embed_multimodal_def handle_rerank_def;
      rule exI; intro allI; rule refl)

text \<open>
  C27: a request \<open>Authorize\<close> rejects goes no further, on any endpoint: no provider is called, no
  other hook but \<open>OnError\<close> sees it, and the client gets one error response, with the status the
  error asks for (401 if it asks for none), the redacted text of the error, and the request id.
\<close>

theorem proxy_refusal:
  assumes "pc_authorize cfg = Some hook" and "hook (fst (ensure_request_id E cfg r)) = (Some err, r1)"
    and "writer_ok E"
  shows "let e = serve E cfg ep r w; req_id = snd (ensure_request_id E cfg r);
      status = http_status_of err 401 in
    ex_world e = w \<and> ex_bodies e = [ErrorResponse (redact_error cfg (Some err))] \<and>
    map_option fst (ex_sent e) = Some status \<and>
    ex_log e = (if pc_on_error cfg then [OnError (failure (no_info req_id) status err)] else [])"
proof -
  obtain r0 req_id where r0: "ensure_request_id E cfg r = (r0, req_id)" by (metis surj_pair)
  with assms(1,2) have a: "admission E cfg r = (r1, req_id, Some err)" by (simp add: admission_def)
  obtain k where "\<And>r w. serve E cfg ep r w = admit E cfg r w k" using serve_admits by blast
  with a r0 assms(3) show ?thesis
    by (simp add: admit_eq write_error_def encode_json_def writer_ok_def exchange_steps failure_def)
qed

theorem proxy_refusal_witness:
  "let e = serve demo_env demo_config Embed demo_request (); req_id = snd (ensure_request_id demo_env demo_config demo_request);
      status = http_status_of (AuthErr (PlainErr ''token hunter22 expired'') 0) 401 in
    ex_world e = () \<and> ex_bodies e = [ErrorResponse (redact_error demo_config (Some (AuthErr (PlainErr ''token hunter22 expired'') 0)))] \<and>
    map_option fst (ex_sent e) = Some status \<and>
    ex_log e = (if pc_on_error demo_config
      then [OnError (failure (no_info req_id) status (AuthErr (PlainErr ''token hunter22 expired'') 0))] else [])"
  by (rule proxy_refusal [OF _ _ demo_writer]) (simp_all add: demo_config_def)

subsection \<open>Dispatch\<close>

fun is_call :: "'x log_entry \<Rightarrow> bool" where
  "is_call (CallChat p q) = True"
| "is_call (CallStream p q) = True"
| "is_call (CallOther p) = True"
| "is_call _ = False"

definition chat_call :: "bool \<Rightarrow> string \<Rightarrow> 'x chat_request \<Rightarrow> 'x log_entry" where
  "chat_call stream p q = (if stream then CallStream p q else CallChat p q)"

definition transformed :: "'x proxy_config \<Rightarrow> proxy_request \<Rightarrow> 'x chat_request \<Rightarrow> 'x chat_request \<Rightarrow> bool" where
  "transformed cfg r q req =
     (case pc_transform cfg of None \<Rightarrow> req = q | Some hook \<Rightarrow> hook r q = (None, req))"

definition announced :: "'x proxy_config \<Rightarrow> bool \<Rightarrow> string \<Rightarrow> string \<Rightarrow> string \<Rightarrow> 'x chat_request \<Rightarrow> 'x log_entry list" where
  "announced cfg stream provider model req_id req =
     (if pc_on_request cfg then
        [OnRequest \<lparr>ri_provider = provider, ri_model = model, ri_stream = stream, ri_request_id = req_id, ri_request = req\<rparr>]
      else [])"

text \<open>What the log of a chat exchange is, from its start to the call and after it.\<close>

definition dispatch_ok ::
  "('x, 'w) proxy_env \<Rightarrow> 'x proxy_config \<Rightarrow> bool \<Rightarrow> proxy_request \<Rightarrow> string \<Rightarrow> 'x log_entry list \<Rightarrow> bool" where
  "dispatch_ok E cfg stream r req_id lg \<longleftrightarrow>
     (filter is_call lg = [] \<or>
      (\<exists>q opts provider model req post. parse_chat_request E cfg r = Inr (q, opts, provider, model) \<and>
         transformed cfg r (build_llm_request q) req \<and>
         lg = announced cfg stream provider model req_id req @ chat_call stream provider req # post \<and>
         filter is_call post = []))"

lemma write_error_log [simp]:
  "ex_log (write_error E cfg info e) = ex_log e @ (if pc_on_error cfg then [OnError info] else [])"
  by (simp add: write_error_def encode_json_def exchange_steps split: option.splits)

lemma respond_log: "filter is_call (ex_log (snd (respond E cfg info p e))) = filter is_call (ex_log e)"
  by (simp add: respond_def encode_json_def exchange_steps split: option.splits)

lemma on_response_log:
  "\<exists>post. ex_log (on_response cfg info st resp e) = ex_log e @ post \<and> filter is_call post = []"
  by (simp add: on_response_def log_that_def)

lemma write_events_log [simp]: "ex_log (write_events events e) = ex_log e"
  unfolding write_events_def by (induction events arbitrary: e) (simp_all add: exchange_steps split: option.splits)

lemma call_log: "call l f e = (r, e1) \<Longrightarrow> ex_log e1 = ex_log e @ [l]"
  by (auto simp: call_def log_that_def split: prod.splits)

lemma respond_log_ends:
  "respond E cfg info p e = (ok, e1) \<Longrightarrow> \<exists>post. ex_log e1 = ex_log e @ post \<and> filter is_call post = []"
  by (auto simp: respond_def encode_json_def exchange_steps split: option.splits prod.splits if_splits)

lemma finish_chat_log:
  "\<exists>post. ex_log (finish_chat E cfg client req info e) = ex_log e @ chat_call False (ei_provider info) req # post
     \<and> filter is_call post = []"
proof -
  obtain r e1 where c: "call (CallChat (ei_provider info) req) (cl_chat client req) e = (r, e1)" by (metis surj_pair)
  note l = call_log [OF c]
  show ?thesis
  proof (cases r)
    case (Inr resp)
    obtain ok e2 where d: "respond E cfg info (ProxyChatResponse (resp_content resp) (resp_stop resp) (resp_usage resp)) e1
        = (ok, e2)" by (metis surj_pair)
    from respond_log_ends [OF d] l c Inr d show ?thesis
      by (auto simp: finish_chat_def chat_call_def on_response_def log_that_def)
  qed (use c l in \<open>simp add: finish_chat_def chat_call_def\<close>)
qed

lemma finish_stream_log:
  "\<exists>post. ex_log (finish_stream E cfg client req info e) = ex_log e @ chat_call True (ei_provider info) req # post
     \<and> filter is_call post = []"
proof -
  obtain r e1 where c: "call (CallStream (ei_provider info) req) (cl_chat_stream client req) e = (r, e1)" by (metis surj_pair)
  note l = call_log [OF c]
  have h: "ex_log (stream_headers e1) = ex_log e1" by (simp add: stream_headers_def exchange_steps split: option.splits)
  show ?thesis
  proof (cases r)
    case (Inr stream)
    obtain events resp err where w: "write_sse (marshal_chunk E) (proxy_secrets cfg) stream = (events, resp, err)"
      by (metis surj_pair)
    with c l h Inr show ?thesis
      by (cases err) (simp_all add: finish_stream_def chat_call_def on_response_def log_that_def Let_def)
  qed (use c l in \<open>simp add: finish_stream_def chat_call_def\<close>)
qed

lemma dispatch_okI:
  assumes "parse_chat_request E cfg r = Inr (q, opts, provider, model)"
    and "transformed cfg r (build_llm_request q) req"
    and "lg = announced cfg stream provider model i req @ chat_call stream provider req # post"
    and "filter is_call post = []"
  shows "dispatch_ok E cfg stream r i lg"
  unfolding dispatch_ok_def using assms by blast

lemma begin_chat_log:
  assumes "\<And>client req info e. \<exists>post. ex_log (k client req info e) = ex_log e @ chat_call stream (ei_provider info) req # post
      \<and> filter is_call post = []"
    and "ex_log e = []"
  shows "dispatch_ok E cfg stream r i (ex_log (begin_chat E cfg stream r i e k))"
proof (cases "parse_chat_request E cfg r")
  case (Inl err)
  with assms(2) show ?thesis by (simp add: begin_chat_def dispatch_ok_def)
next
  case (Inr x)
  obtain q opts provider model where x: "x = (q, opts, provider, model)" by (metis surj_pair)
  let ?info = "chat_info provider model stream i"
  obtain ok req e1 where t: "transform E cfg r ?info (build_llm_request q) e = (ok, req, e1)" by (metis surj_pair)
  show ?thesis
  proof (cases ok)
    case False
    with t assms(2) have "filter is_call (ex_log e1) = []"
      by (auto simp: transform_def split: option.splits prod.splits)
    with Inr x t False show ?thesis by (simp add: begin_chat_def dispatch_ok_def)
  next
    case True
    with t have e1: "e1 = e" and tr: "transformed cfg r (build_llm_request q) req"
      by (auto simp: transform_def transformed_def split: option.splits prod.splits)
    let ?e2 = "if pc_on_request cfg then log_that (OnRequest \<lparr>ri_provider = provider, ri_model = model,
        ri_stream = stream, ri_request_id = i, ri_request = req\<rparr>) e else e"
    have l: "ex_log ?e2 = announced cfg stream provider model i req"
      using assms(2) by (simp add: announced_def log_that_def)
    show ?thesis
    proof (cases "open_client E provider opts")
      case (Inl err)
      then show ?thesis using Inr x t True e1 l
        by (simp add: begin_chat_def Let_def dispatch_ok_def announced_def split: if_splits)
    next
      case client: (Inr client)
      have "ex_log (begin_chat E cfg stream r i e k) = ex_log (k client req ?info ?e2)"
        using Inr x t True e1 client by (simp add: begin_chat_def Let_def)
      moreover obtain post where "ex_log (k client req ?info ?e2)
          = announced cfg stream provider model i req @ chat_call stream provider req # post" "filter is_call post = []"
        using assms(1) [of client req ?info ?e2] l by (auto simp: chat_info_def)
      ultimately show ?thesis using Inr x tr by (intro dispatch_okI) auto
    qed
  qed
qed


subsection \<open>The path prefix\<close>

lemma trim_char_ends:
  assumes "trim_char c s \<noteq> []"
  shows "hd (trim_char c s) \<noteq> c \<and> last (trim_char c s) \<noteq> c"
proof -
  let ?t = "dropWhile (\<lambda>d. d = c) s"
  let ?u = "dropWhile (\<lambda>d. d = c) (rev ?t)"
  have u: "trim_char c s = rev ?u" "?u \<noteq> []" using assms by (simp_all add: trim_char_def)
  have t: "?t \<noteq> []"
  proof
    assume "?t = []"
    then have "?u = []" by (simp only: rev.simps dropWhile.simps)
    with u(2) show False ..
  qed
  have "hd ?u \<noteq> c" using hd_dropWhile [OF u(2)] by simp
  moreover have "last ?u = last (rev ?t)" using u(2) by (metis last_appendR takeWhile_dropWhile_id)
  moreover have "hd ?t \<noteq> c" using hd_dropWhile [OF t] by simp
  ultimately show ?thesis using u t by (simp add: last_rev hd_rev)
qed

lemma trim_char_trimmed:
  assumes "hd s \<noteq> c" and "last s \<noteq> c" and "s \<noteq> []"
  shows "trim_char c (c # s) = s"
proof -
  obtain x xs where s: "s = x # xs" using assms(3) by (cases s) auto
  obtain y ys where r: "rev s = y # ys" using assms(3) by (cases "rev s") auto
  then have "y \<noteq> c" using assms(2) by (metis hd_rev list.sel(1))
  with r have "dropWhile (\<lambda>d. d = c) (rev s) = rev s" by simp
  with s assms(1) show ?thesis by (simp add: trim_char_def)
qed

text \<open>
  The prefix the routes are registered under starts with one slash and ends with none, whatever
  is configured, and normalising it again changes nothing.
\<close>

lemma proxy_prefix:
  "\<exists>p. pc_prefix (new_proxy cfg) = CHR ''/'' # p \<and> p \<noteq> [] \<and> hd p \<noteq> CHR ''/'' \<and> last p \<noteq> CHR ''/''"
  "new_proxy (new_proxy cfg) = new_proxy cfg"
proof -
  let ?p = "if trim_char CHR ''/'' (pc_prefix cfg) = [] then ''v1'' else trim_char CHR ''/'' (pc_prefix cfg)"
  have p: "?p \<noteq> []" "hd ?p \<noteq> CHR ''/''" "last ?p \<noteq> CHR ''/''"
    using trim_char_ends [of "CHR ''/''" "pc_prefix cfg"] by auto
  have n: "new_proxy cfg = cfg\<lparr>pc_prefix := CHR ''/'' # ?p\<rparr>"
    by (simp add: new_proxy_def proxy_with_defaults_def Let_def)
  with p show "\<exists>p. pc_prefix (new_proxy cfg) = CHR ''/'' # p \<and> p \<noteq> [] \<and> hd p \<noteq> CHR ''/'' \<and> last p \<noteq> CHR ''/''"
    by auto
  have "trim_char CHR ''/'' (CHR ''/'' # ?p) = ?p" by (rule trim_char_trimmed [OF p(2,3,1)])
  then show "new_proxy (new_proxy cfg) = new_proxy cfg"
    unfolding n using p(1) by (simp add: new_proxy_def proxy_with_defaults_def Let_def)
qed

text \<open>
  A method and path name at most one endpoint.
\<close>

lemma routes_distinct: "distinct (map fst (proxy_routes cfg))"
  by (simp add: proxy_routes_def Let_def)

end
