(* ===== verification/HardCancel.thy ===== *)
theory HardCancel
  imports Prelude
begin

text \<open>
  \<open>withHardCancel\<close> (\<open>llm/internal/httpclient/hardcancel.go\<close>): the watchdog goroutine, the trace
  hook the transport runs when it has a connection, and \<open>release\<close>, as a system of steps under
  every interleaving with the cancellation of the context. A step is what the code does between
  two points at which another goroutine can run; the lock around the captured connection makes
  its accesses single steps.
\<close>

subsection \<open>Connections\<close>

text \<open>A \<open>net.Conn\<close>: a TCP connection, TLS over one with its negotiated protocol, or another.\<close>

datatype net_conn =
    TCPConn nat
  | TLSConn net_conn string
  | OtherConn nat

fun is_multiplexed :: "net_conn \<Rightarrow> bool" where
  "is_multiplexed (TLSConn c protocol) = (protocol = ''h2'')"
| "is_multiplexed _ = False"

fun underlying_tcp_conn :: "net_conn \<Rightarrow> nat option" where
  "underlying_tcp_conn (TLSConn c protocol) = (case c of TCPConn i \<Rightarrow> Some i | _ \<Rightarrow> None)"
| "underlying_tcp_conn (TCPConn i) = Some i"
| "underlying_tcp_conn (OtherConn i) = None"

datatype socket_op =
    SetLinger0 nat
  | CloseConn net_conn

definition hard_close_conn :: "net_conn \<Rightarrow> socket_op list" where
  "hard_close_conn c =
     (if is_multiplexed c then []
      else (case underlying_tcp_conn c of Some i \<Rightarrow> [SetLinger0 i] | None \<Rightarrow> []) @ [CloseConn c])"

subsection \<open>The system\<close>

text \<open>
  Where the watchdog is: not scheduled yet, parked in its \<open>select\<close>, past it on the branch of the
  context, holding the connection it read, or returned. A parked goroutine is committed to a
  branch by the event that wakes it; one that reaches the \<open>select\<close> late may choose between both.
\<close>

datatype watchdog = NotStarted | Parked | Cancelled | Holding "net_conn option" | Returned

text \<open>Where the hook is: not running, or past the lock with the connection it stored.\<close>

datatype hook = HookIdle | HookStored net_conn

record cancel_sys =
  cs_ctx_done :: bool
  cs_released :: bool
  cs_conn :: "net_conn option"
  cs_hook :: hook
  cs_watchdog :: watchdog
  cs_ops :: "socket_op list"

definition with_hard_cancel :: cancel_sys where
  "with_hard_cancel = \<lparr>cs_ctx_done = False, cs_released = False, cs_conn = None, cs_hook = HookIdle,
     cs_watchdog = NotStarted, cs_ops = []\<rparr>"

definition context_done :: "cancel_sys \<Rightarrow> cancel_sys" where
  "context_done s =
     s\<lparr>cs_ctx_done := True,
       cs_watchdog := (if cs_watchdog s = Parked then Cancelled else cs_watchdog s)\<rparr>"

text \<open>\<open>release\<close>: \<open>sync.Once\<close> closes the channel the first time only.\<close>

definition release :: "cancel_sys \<Rightarrow> cancel_sys" where
  "release s =
     (if cs_released s then s
      else s\<lparr>cs_released := True,
             cs_watchdog := (if cs_watchdog s = Parked then Returned else cs_watchdog s)\<rparr>)"

definition got_conn :: "net_conn \<Rightarrow> cancel_sys \<Rightarrow> cancel_sys" where
  "got_conn c s = s\<lparr>cs_conn := Some c, cs_hook := HookStored c\<rparr>"

definition hook_check :: "net_conn \<Rightarrow> cancel_sys \<Rightarrow> cancel_sys" where
  "hook_check c s =
     s\<lparr>cs_hook := HookIdle, cs_ops := cs_ops s @ (if cs_ctx_done s then hard_close_conn c else [])\<rparr>"

definition watchdog_close :: "net_conn option \<Rightarrow> cancel_sys \<Rightarrow> cancel_sys" where
  "watchdog_close held s =
     s\<lparr>cs_watchdog := Returned,
       cs_ops := cs_ops s @ (case held of None \<Rightarrow> [] | Some c \<Rightarrow> hard_close_conn c)\<rparr>"

text \<open>The transport delivers connections while the round trip runs, one at a time.\<close>

inductive cancel_step :: "cancel_sys \<Rightarrow> cancel_sys \<Rightarrow> bool" where
  ctx: "cancel_step s (context_done s)"
| rel: "cs_hook s = HookIdle \<Longrightarrow> cancel_step s (release s)"
| conn: "\<not> cs_released s \<Longrightarrow> cs_hook s = HookIdle \<Longrightarrow> cancel_step s (got_conn c s)"
| check: "cs_hook s = HookStored c \<Longrightarrow> cancel_step s (hook_check c s)"
| park: "cs_watchdog s = NotStarted \<Longrightarrow> \<not> cs_ctx_done s \<Longrightarrow> \<not> cs_released s \<Longrightarrow>
    cancel_step s (s\<lparr>cs_watchdog := Parked\<rparr>)"
| pick_ctx: "cs_watchdog s = NotStarted \<Longrightarrow> cs_ctx_done s \<Longrightarrow> cancel_step s (s\<lparr>cs_watchdog := Cancelled\<rparr>)"
| pick_done: "cs_watchdog s = NotStarted \<Longrightarrow> cs_released s \<Longrightarrow> cancel_step s (s\<lparr>cs_watchdog := Returned\<rparr>)"
| hold: "cs_watchdog s = Cancelled \<Longrightarrow> cancel_step s (s\<lparr>cs_watchdog := Holding (cs_conn s)\<rparr>)"
| close: "cs_watchdog s = Holding held \<Longrightarrow> cancel_step s (watchdog_close held s)"

inductive cancel_reaches :: "cancel_sys \<Rightarrow> bool" where
  start: "cancel_reaches with_hard_cancel"
| step: "cancel_reaches s \<Longrightarrow> cancel_step s t \<Longrightarrow> cancel_reaches t"

inductive_cases cancel_stepE: "cancel_step s t"

lemmas cancel_defs = context_done_def release_def got_conn_def hook_check_def watchdog_close_def

subsection \<open>Connections are closed for a cancelled context only\<close>

lemma hard_close_ops: "op \<in> set (hard_close_conn c) \<Longrightarrow> op = CloseConn c \<and> \<not> is_multiplexed c \<or> (\<exists>i. op = SetLinger0 i)"
  by (auto simp: hard_close_conn_def split: if_splits option.splits)

definition close_inv :: "cancel_sys \<Rightarrow> bool" where
  "close_inv s \<longleftrightarrow>
     (\<forall>c. CloseConn c \<in> set (cs_ops s) \<longrightarrow> cs_ctx_done s \<and> \<not> is_multiplexed c) \<and>
     (\<forall>h. cs_watchdog s = Cancelled \<or> cs_watchdog s = Holding h \<longrightarrow> cs_ctx_done s)"

lemma close_inv_step: "close_inv s \<Longrightarrow> cancel_step s t \<Longrightarrow> close_inv t"
  by (erule cancel_stepE) (auto simp: close_inv_def cancel_defs dest!: hard_close_ops split: if_splits option.splits)

lemma close_inv_reaches: "cancel_reaches s \<Longrightarrow> close_inv s"
proof (induction rule: cancel_reaches.induct)
  case start
  show ?case by (simp add: close_inv_def with_hard_cancel_def)
qed (rule close_inv_step)

subsection \<open>No connection is left behind\<close>

definition watched_inv :: "cancel_sys \<Rightarrow> bool" where
  "watched_inv s \<longleftrightarrow>
     (\<forall>h. cs_watchdog s = Cancelled \<or> cs_watchdog s = Holding h \<longrightarrow> cs_ctx_done s) \<and>
     (cs_watchdog s = Parked \<longrightarrow> \<not> cs_ctx_done s \<and> \<not> cs_released s) \<and>
     (cs_watchdog s = Returned \<longrightarrow> cs_ctx_done s \<or> cs_released s) \<and>
     (\<forall>c. cs_hook s = HookStored c \<longrightarrow> cs_conn s = Some c) \<and>
     (\<forall>c. cs_conn s = Some c \<and> \<not> is_multiplexed c \<and> \<not> cs_released s \<longrightarrow>
        CloseConn c \<in> set (cs_ops s) \<or> cs_hook s = HookStored c \<or>
        cs_watchdog s \<in> {NotStarted, Parked, Cancelled, Holding (Some c)})"

lemma hard_close_closes: "\<not> is_multiplexed c \<Longrightarrow> CloseConn c \<in> set (hard_close_conn c)"
  by (simp add: hard_close_conn_def)

lemma watched_inv_step: "watched_inv s \<Longrightarrow> cancel_step s t \<Longrightarrow> watched_inv t"
  by (erule cancel_stepE; cases "cs_watchdog s") (auto simp: watched_inv_def cancel_defs hard_close_closes split: if_splits option.splits)

lemma watched_inv_reaches: "cancel_reaches s \<Longrightarrow> watched_inv s"
proof (induction rule: cancel_reaches.induct)
  case start
  show ?case by (simp add: watched_inv_def with_hard_cancel_def)
qed (rule watched_inv_step)


text \<open>A cancelled request on a TLS connection: delivered, watched, cancelled, closed.\<close>

definition cancelled_run :: "net_conn \<Rightarrow> cancel_sys" where
  "cancelled_run c = watchdog_close (Some c) ((context_done ((hook_check c (got_conn c with_hard_cancel))
     \<lparr>cs_watchdog := Parked\<rparr>))\<lparr>cs_watchdog := Holding (Some c)\<rparr>)"

lemma cancelled_run_reached: "cancel_reaches (cancelled_run c)"
proof -
  let ?s1 = "got_conn c with_hard_cancel"
  let ?s2 = "hook_check c ?s1"
  let ?s3 = "?s2\<lparr>cs_watchdog := Parked\<rparr>"
  let ?s4 = "context_done ?s3"
  let ?s5 = "?s4\<lparr>cs_watchdog := Holding (Some c)\<rparr>"
  note st = cancel_reaches.step
  have "cancel_reaches ?s1"
    by (rule st [OF cancel_reaches.start cancel_step.conn]) (simp_all add: with_hard_cancel_def)
  then have "cancel_reaches ?s2" by (rule st [OF _ cancel_step.check]) (simp add: cancel_defs)
  then have "cancel_reaches ?s3"
    by (rule st [OF _ cancel_step.park]) (simp_all add: cancel_defs with_hard_cancel_def)
  then have "cancel_reaches ?s4" by (rule st [OF _ cancel_step.ctx])
  moreover have "cancel_step ?s4 ?s5"
    using cancel_step.hold [of ?s4] by (simp add: cancel_defs with_hard_cancel_def)
  ultimately have "cancel_reaches ?s5" by (rule st)
  moreover have "cancel_step ?s5 (watchdog_close (Some c) ?s5)" by (rule cancel_step.close) simp
  ultimately show ?thesis unfolding cancelled_run_def by (rule st)
qed


subsection \<open>The watchdog returns\<close>

fun steps_left :: "watchdog \<Rightarrow> nat" where
  "steps_left NotStarted = 3"
| "steps_left Parked = 3"
| "steps_left Cancelled = 2"
| "steps_left (Holding h) = 1"
| "steps_left Returned = 0"

text \<open>
  Once the context is done or the round trip is released the watchdog has a step until it has
  returned, at most three in all, so the goroutine does not outlive the request.
\<close>

lemma watchdog_returns:
  assumes "cancel_reaches s" and "cs_ctx_done s \<or> cs_released s" and "cs_watchdog s \<noteq> Returned"
  shows "\<exists>t. cancel_step s t \<and> steps_left (cs_watchdog t) < steps_left (cs_watchdog s)"
proof (cases "cs_watchdog s")
  case NotStarted
  then show ?thesis
    using assms(2) cancel_step.pick_ctx [of s] cancel_step.pick_done [of s] by force
next
  case Parked
  then show ?thesis using assms(2) watched_inv_reaches [OF assms(1)] by (simp add: watched_inv_def)
next
  case Cancelled
  then show ?thesis using cancel_step.hold [of s] by force
next
  case (Holding h)
  then show ?thesis using cancel_step.close [of s h] by (force simp: watchdog_close_def)
qed (use assms(3) in simp)

lemma watchdog_never_back: "cancel_step s t \<Longrightarrow> steps_left (cs_watchdog t) \<le> steps_left (cs_watchdog s)"
  by (erule cancel_stepE) (auto simp: cancel_defs)

text \<open>
  \<open>DoJSON\<close> releases before it reads the response, so that the watchdog cannot close a
  connection that has gone back to the pool. A watchdog that is scheduled late finds both cases
  of its select ready and may still close it: here the context is done only after release.
\<close>

lemma released_connection_closed:
  "\<exists>s t. cancel_reaches s \<and> cs_released s \<and> \<not> cs_ctx_done s \<and> cs_ops s = [] \<and>
     cancel_step\<^sup>*\<^sup>* s t \<and> CloseConn (TCPConn 1) \<in> set (cs_ops t)"
proof -
  let ?c = "TCPConn 1"
  let ?s2 = "hook_check ?c (got_conn ?c with_hard_cancel)"
  let ?s = "release ?s2"
  let ?t1 = "context_done ?s"
  let ?t2 = "?t1\<lparr>cs_watchdog := Cancelled\<rparr>"
  let ?t3 = "?t2\<lparr>cs_watchdog := Holding (Some ?c)\<rparr>"
  let ?t = "watchdog_close (Some ?c) ?t3"
  note st = cancel_reaches.step
  have "cancel_reaches (got_conn ?c with_hard_cancel)"
    by (rule st [OF cancel_reaches.start cancel_step.conn]) (simp_all add: with_hard_cancel_def)
  then have "cancel_reaches ?s2" by (rule st [OF _ cancel_step.check]) (simp add: cancel_defs)
  then have s: "cancel_reaches ?s" by (rule st [OF _ cancel_step.rel]) (simp add: cancel_defs)
  have "cancel_step ?s ?t1" by (rule cancel_step.ctx)
  moreover have "cancel_step ?t1 ?t2" by (rule cancel_step.pick_ctx) (simp_all add: cancel_defs with_hard_cancel_def)
  moreover have "cancel_step ?t2 ?t3" using cancel_step.hold [of ?t2] by (simp add: cancel_defs with_hard_cancel_def)
  moreover have "cancel_step ?t3 ?t" by (rule cancel_step.close) simp
  ultimately have "cancel_step\<^sup>*\<^sup>* ?s ?t" by (meson converse_rtranclp_into_rtranclp rtranclp.rtrancl_refl)
  moreover have "cs_released ?s \<and> \<not> cs_ctx_done ?s \<and> cs_ops ?s = [] \<and> CloseConn ?c \<in> set (cs_ops ?t)"
    by (simp add: cancel_defs with_hard_cancel_def hard_close_conn_def)
  ultimately show ?thesis using s by blast
qed

end
