(* ===== verification/Stack.thy ===== *)
theory Stack
  imports AnthropicProps OpenAIProps GeminiChat
begin

text \<open>
  A provider over its HTTP client: \<open>http.Client.Do\<close> on the transport \<open>httpclient.New\<close> builds, the
  calls of \<open>DoJSON\<close> and \<open>DoSSERequest\<close> the providers make with it, and what one call of a client
  costs on the network. The state of a run is the world and the attempts that reached the base
  transport so far.
\<close>

subsection \<open>\<open>Client.Do\<close>\<close>

text \<open>
  The parameters: the world below the transport, \<open>http.NewRequestWithContext\<close>, the host a
  response redirects to (\<open>net/http\<close> follows 301, 302, 303, 307 and 308 with a \<open>Location\<close>),
  \<open>Client.Do\<close> under a redirect check of the caller's, and the growth of \<open>io.ReadAll\<close>'s buffer.
\<close>

record 'w net =
  nt_env :: "'w env"
  nt_new_request_err :: "string \<Rightarrow> string \<Rightarrow> go_error option"
  nt_redirects_to :: "http_response \<Rightarrow> string option"
  nt_caller_do :: "http_client \<Rightarrow> http_request \<Rightarrow> 'w \<times> nat \<Rightarrow> (go_error + http_response) \<times> 'w \<times> nat"
  nt_room :: "nat \<Rightarrow> nat"

text \<open>The \<open>*url.Error\<close> around an error of \<open>Do\<close>, whose \<open>Op\<close> is the method in title case.\<close>

definition url_error :: "http_request \<Rightarrow> go_error \<Rightarrow> go_error" where
  "url_error q =
     WrapErr ((if rq_method q = [] then ''Get'' else take 1 (rq_method q) @ to_lower (drop 1 (rq_method q)))
       @ '' '' @ go_quote (rq_url q) @ '': '')"

definition client_do ::
  "'w net \<Rightarrow> http_client \<Rightarrow> http_request \<Rightarrow> 'w \<times> nat \<Rightarrow> (go_error + http_response) \<times> 'w \<times> nat" where
  "client_do N h q s =
     (if hc_redirect h = Some RefuseRedirect then
        (let (w, n) = s; (res, log, w') = round_trip (nt_env N) (hc_transport h) q w
         in (case res of
               Inl e \<Rightarrow> Inl (url_error q e)
             | Inr resp \<Rightarrow>
                 (case nt_redirects_to N resp of
                    None \<Rightarrow> Inr resp
                  | Some host \<Rightarrow> Inl (url_error q (refuse_redirect (Some (rs_status resp)) host))),
             w', n + attempts log))
      else nt_caller_do N h q s)"

definition client_api :: "'w net \<Rightarrow> http_client \<Rightarrow> ('w \<times> nat) http_api" where
  "client_api N h = \<lparr>api_new_request_err = nt_new_request_err N, api_do = client_do N h, api_room = nt_room N\<rparr>"

subsection \<open>The calls of the providers\<close>

text \<open>
  A POST whose response is decoded, \<open>zero\<close> being the struct before decoding, and one whose
  response is streamed, with the body of an error read. Reading a body ends
  (\<open>do_json_returns\<close>, \<open>error_body_result\<close>), so the cases of \<open>None\<close> do not arise.
\<close>

definition post_json ::
  "'w net \<Rightarrow> http_client \<Rightarrow> string \<Rightarrow> headers \<Rightarrow> ('b \<Rightarrow> go_error + bytes) \<Rightarrow> (bytes \<Rightarrow> go_error + 'd) \<Rightarrow> 'd \<Rightarrow>
     'b \<Rightarrow> 'w \<times> nat \<Rightarrow> (json_result \<times> 'd) \<times> 'w \<times> nat" where
  "post_json N h url hs marshal decode zero body s =
     (case do_json (client_api N h) ''POST'' url hs (Some (marshal body)) (Some decode) s of
        (Some (jr, Some d), s') \<Rightarrow> ((jr, d), s')
      | (Some (jr, None), s') \<Rightarrow> ((jr, zero), s')
      | (None, s') \<Rightarrow> ((json_failure EofErr, zero), s'))"

definition open_sse_request ::
  "'w net \<Rightarrow> http_client \<Rightarrow> string \<Rightarrow> headers \<Rightarrow> ('b \<Rightarrow> go_error + bytes) \<Rightarrow>
     'b \<Rightarrow> 'w \<times> nat \<Rightarrow> (go_error + int \<times> bytes) \<times> 'w \<times> nat" where
  "open_sse_request N h url hs marshal body s =
     (case do_sse_request (client_api N h) ''POST'' url hs (Some (marshal body)) s of
        (Inl e, s') \<Rightarrow> (Inl e, s')
      | (Inr resp, s') \<Rightarrow>
          (Inr (rs_status resp,
             if 200 \<le> rs_status resp \<and> rs_status resp < 300 then []
             else case read_error_body (nt_room N) (limit_body (body_limit resp) (rs_body resp)) of
                    None \<Rightarrow> [] | Some b \<Rightarrow> b),
           s'))"

text \<open>\<open>marshal\<close>, \<open>decode\<close> and \<open>zero\<close> are \<open>encoding/json\<close> on the structs of the request and response.\<close>

definition anthropic_post ::
  "'w net \<Rightarrow> http_client \<Rightarrow> a_client \<Rightarrow> (a_request \<Rightarrow> go_error + bytes) \<Rightarrow> (bytes \<Rightarrow> go_error + a_response) \<Rightarrow>
     a_response \<Rightarrow> ('w \<times> nat) a_post" where
  "anthropic_post N h c = post_json N h (ac_base_url c @ ''/messages'') (anthropic_headers c)"

definition anthropic_open ::
  "'w net \<Rightarrow> http_client \<Rightarrow> a_client \<Rightarrow> (a_request \<Rightarrow> go_error + bytes) \<Rightarrow> ('w \<times> nat) a_open" where
  "anthropic_open N h c = open_sse_request N h (ac_base_url c @ ''/messages'') (anthropic_headers c)"

definition gemini_post ::
  "'w net \<Rightarrow> http_client \<Rightarrow> 'x g_client \<Rightarrow> (g_request \<Rightarrow> go_error + bytes) \<Rightarrow> (bytes \<Rightarrow> go_error + g_response) \<Rightarrow>
     g_response \<Rightarrow> g_request \<Rightarrow> 'w \<times> nat \<Rightarrow> (json_result \<times> g_response) \<times> 'w \<times> nat" where
  "gemini_post N h c =
     post_json N h (gc_base_url c @ ''/v1beta/models/'' @ gc_model c @ '':generateContent'') (gemini_headers c)"

definition gemini_open ::
  "'w net \<Rightarrow> http_client \<Rightarrow> 'x g_client \<Rightarrow> (g_request \<Rightarrow> go_error + bytes) \<Rightarrow>
     g_request \<Rightarrow> 'w \<times> nat \<Rightarrow> (go_error + int \<times> bytes) \<times> 'w \<times> nat" where
  "gemini_open N h c =
     open_sse_request N h (gc_base_url c @ ''/v1beta/models/'' @ gc_model c @ '':streamGenerateContent?alt=sse'')
       (gemini_headers c)"

text \<open>\<open>encoding/json\<close> on what the OpenAI client sends and receives.\<close>

record o_json =
  oj_error :: "bytes \<Rightarrow> o_error"
  oj_fields :: "o_request \<Rightarrow> go_error + (string \<times> bytes) list"
  oj_fields_responses :: "r_request \<Rightarrow> go_error + (string \<times> bytes) list"
  oj_marshal :: "o_request wire \<Rightarrow> go_error + bytes"
  oj_marshal_responses :: "r_request wire \<Rightarrow> go_error + bytes"
  oj_decode :: "bytes \<Rightarrow> go_error + o_response"
  oj_decode_responses :: "bytes \<Rightarrow> go_error + r_response"
  oj_zero :: o_response
  oj_zero_responses :: r_response

definition openai_api :: "'w net \<Rightarrow> http_client \<Rightarrow> o_json \<Rightarrow> o_client \<Rightarrow> ('w \<times> nat) o_api" where
  "openai_api N h J c =
     (let completions = oc_base_url c @ ''/chat/completions''; responses = oc_base_url c @ ''/responses'';
          hs = openai_headers c
      in \<lparr>oa_unmarshal = oj_error J, oa_encode = oj_fields J, oa_encode_responses = oj_fields_responses J,
          oa_post = post_json N h completions hs (oj_marshal J) (oj_decode J) (oj_zero J),
          oa_post_responses =
            post_json N h responses hs (oj_marshal_responses J) (oj_decode_responses J) (oj_zero_responses J),
          oa_open = open_sse_request N h completions hs (oj_marshal J),
          oa_open_responses = open_sse_request N h responses hs (oj_marshal_responses J)\<rparr>)"

subsection \<open>What a call costs\<close>

lemma do_json_returns: "fst (do_json A m url hs body decode s) \<noteq> None"
  by (auto simp: do_json_def Let_def read_body_result error_body_result split: option.split sum.split prod.split)

text \<open>
  A client that puts at most \<open>b\<close> attempts on the network for one \<open>Client.Do\<close>; its transport says
  how many that are.
\<close>

locale metered =
  fixes N :: "'w net" and h :: http_client and b :: nat
  assumes attempt: "snd (snd (client_do N h q s)) \<le> snd s + b"
begin

lemma attempt': "client_do N h q s = (r, w, n) \<Longrightarrow> n \<le> snd s + b"
  using attempt [of q s] by simp

lemma do_json_cost: "do_json (client_api N h) m url hs body decode s = (r, w, n) \<Longrightarrow> n \<le> snd s + b"
  by (cases s) (auto simp: do_json_def client_api_def Let_def dest: attempt' split: option.splits sum.splits prod.splits)

lemma post_cost: "post_json N h url hs marshal decode zero body s = (r, w, n) \<Longrightarrow> n \<le> snd s + b"
  by (auto simp: post_json_def dest: do_json_cost split: prod.splits option.splits)

lemma open_cost: "open_sse_request N h url hs marshal body s = (r, w, n) \<Longrightarrow> n \<le> snd s + b"
  by (cases s) (auto simp: open_sse_request_def do_sse_request_def client_api_def Let_def
      dest: attempt' split: prod.splits option.splits sum.splits)

text \<open>The loops of the three clients that adjust and resend.\<close>

lemma chat_pass_cost:
  "chat_pass um (anthropic_post N h k marshal decode zero) req n s = Inr s' \<Longrightarrow>
    snd (cl_world s') \<le> snd (cl_world s) + b"
  "chat_pass um (anthropic_post N h k marshal decode zero) req n s = Inl r \<Longrightarrow>
    snd (cl_world (snd r)) \<le> snd (cl_world s) + b"
  by (auto simp: chat_pass_def anthropic_post_def Let_def dest: post_cost split: prod.splits option.splits if_splits)

lemma open_pass_cost:
  "open_pass um (anthropic_open N h k marshal) req n s = Inr s' \<Longrightarrow>
    snd (cl_world s') \<le> snd (cl_world s) + b"
  "open_pass um (anthropic_open N h k marshal) req n s = Inl r \<Longrightarrow>
    snd (cl_world (snd r)) \<le> snd (cl_world s) + b"
  by (auto simp: open_pass_def anthropic_open_def Let_def dest: open_cost split: prod.splits sum.splits if_splits)

lemma anthropic_chat_cost:
  assumes "anthropic_chat um (anthropic_post N h k marshal decode zero) req c s = Some r"
  shows "snd (cl_world (snd r)) \<le> snd s + 6 * b"
proof (cases "check_request c req")
  case None
  with assms have "chat_loop um (anthropic_post N h k marshal decode zero) req 1 (fresh_call c s) = Some r"
    by (simp add: anthropic_chat_def)
  then have "snd (cl_world (snd r)) \<le> snd (cl_world (fresh_call c s)) + b * Suc (anthropic_max_sends - 1)"
    by (rule chat.budget) (simp_all add: anthropic_max_sends_def chat_pass_cost)
  then show ?thesis by (simp add: anthropic_max_sends_def fresh_call_def)
qed (use assms in \<open>auto simp: anthropic_chat_def fresh_call_def\<close>)

lemma anthropic_stream_cost:
  assumes "anthropic_chat_stream um (anthropic_open N h k marshal) req c s = Some r"
  shows "snd (cl_world (snd r)) \<le> snd s + 6 * b"
proof (cases "check_request c req")
  case None
  with assms have "open_loop um (anthropic_open N h k marshal) req 1 (fresh_call c s) = Some r"
    by (simp add: anthropic_chat_stream_def)
  then have "snd (cl_world (snd r)) \<le> snd (cl_world (fresh_call c s)) + b * Suc (anthropic_max_sends - 1)"
    by (rule sse.budget) (simp_all add: anthropic_max_sends_def open_pass_cost)
  then show ?thesis by (simp add: anthropic_max_sends_def fresh_call_def)
qed (use assms in \<open>auto simp: anthropic_chat_stream_def fresh_call_def\<close>)

lemma send_pass_cost:
  assumes "\<And>responses omit c s out c1 u n. send responses omit c s = (out, c1, u, n) \<Longrightarrow> n \<le> snd s + b"
  shows "send_pass um extra send k s = Inr s' \<Longrightarrow> snd (om_world s') \<le> snd (om_world s) + b"
    and "send_pass um extra send k s = Inl r \<Longrightarrow> snd (om_world (snd r)) \<le> snd (om_world s) + b"
  by (auto simp: send_pass_def Let_def dest: assms split: prod.splits o_outcome.splits if_splits)

lemma openai_call_cost:
  assumes "openai_call A req send c (w, 0) = Some (res, flags, c', w')"
    and "\<And>extra responses omit c s out c1 u n. send extra responses omit c s = (out, c1, u, n) \<Longrightarrow> n \<le> snd s + b"
  shows "snd w' \<le> 4 * b"
proof (cases "check_reasoning_effort c req = None \<and> check_extra_body (extra_body c req) = None")
  case True
  let ?start = "\<lparr>om_client = c, om_applied = [], om_omit = False, om_stepped = False, om_sent = [], om_world = (w, 0)\<rparr>"
  from True assms(1) obtain s where
    s: "send_loop_from (oa_unmarshal A) (extra_body c req) (send (extra_body c req)) 1 ?start = Some (res, s)"
      "w' = om_world s"
    by (auto simp: openai_call_def send_with_adjustments_def Let_def)
  from s(1) have "snd (om_world (snd (res, s))) \<le> snd (om_world ?start) + b * Suc (openai_max_sends - 1)"
    by (rule oai.budget) (auto simp: openai_max_sends_def intro: send_pass_cost assms(2))
  then show ?thesis by (simp add: s(2) openai_max_sends_def)
qed (use assms(1) in \<open>auto simp: openai_call_def Let_def split: option.splits\<close>)

lemma openai_chat_cost:
  "openai_chat (openai_api N h J k) req c (w, 0) = Some (res, flags, c', w') \<Longrightarrow> snd w' \<le> 4 * b"
  unfolding openai_chat_def
  by (erule openai_call_cost)
    (auto simp: openai_send_def chat_responses_def chat_completions_def openai_api_def Let_def
      dest: post_cost split: option.splits sum.splits prod.splits if_splits)

lemma openai_stream_cost:
  "openai_chat_stream (openai_api N h J k) req c (w, 0) = Some (res, flags, c', w') \<Longrightarrow> snd w' \<le> 4 * b"
  unfolding openai_chat_stream_def
  by (erule openai_call_cost)
    (auto simp: openai_open_def chat_stream_responses_def chat_stream_completions_def openai_api_def Let_def
      dest: open_cost split: option.splits sum.splits prod.splits if_splits)

lemma g_loop_cost:
  assumes send: "\<And>r c s out c1 u n. send r c s = (out, c1, u, n) \<Longrightarrow> n \<le> snd s + b"
    and "g_send_loop Js X send req retried c s = (res, c', w', sent)"
  shows "snd w' \<le> snd s + (if retried then b else 2 * b)"
proof -
  have again: "snd w' \<le> snd s + b" if "g_send_loop Js X send req True c s = (res, c', w', sent)" for c s res c' w' sent
    using that by (auto simp: g_send_loop.simps [of _ _ _ _ True] Let_def
        dest: send split: sum.splits prod.splits g_sent.splits)
  show ?thesis
  proof (cases retried)
    case False
    with assms(2) show ?thesis
      by (auto simp: g_send_loop.simps [of _ _ _ _ False] Let_def
          dest!: send again split: sum.splits prod.splits g_sent.splits if_splits)
  qed (use again assms(2) in simp)
qed

lemma g_send_cost:
  "g_chat_send Js (gemini_post N h k marshal decode zero) r c s = (out, c1, u, n) \<Longrightarrow> n \<le> snd s + b"
  "g_open_send (gemini_open N h k marshal) r c s = (out', c1, u, n) \<Longrightarrow> n \<le> snd s + b"
  by (auto simp: g_chat_send_def g_open_send_def gemini_post_def gemini_open_def Let_def
      dest: post_cost open_cost split: prod.splits option.splits sum.splits if_splits)

lemma gemini_chat_cost:
  "gemini_chat Js X (gemini_post N h k marshal decode zero) req c (w, 0) = (res, c', w', sent) \<Longrightarrow> snd w' \<le> 2 * b"
  using g_loop_cost [OF g_send_cost(1), where retried = False and s = "(w, 0)"]
  by (simp add: gemini_chat_def)

lemma gemini_stream_cost:
  "gemini_chat_stream Js X (gemini_open N h k marshal) req c (w, 0) = (res, c', w', sent) \<Longrightarrow> snd w' \<le> 2 * b"
  using g_loop_cost [OF g_send_cost(2), where retried = False and s = "(w, 0)"]
  by (simp add: gemini_chat_stream_def)

end

fun transport_attempts :: "transport \<Rightarrow> nat" where
  "transport_attempts (BaseTransport b) = 1"
| "transport_attempts (RetryTransport c t) =
     (if hr_disabled c \<or> hr_max_retries c \<le> 0 then 1 else Suc (nat (hr_max_retries c)))"
| "transport_attempts (HeaderTransport hs t) = transport_attempts t"
| "transport_attempts (LimitTransport mx t) = transport_attempts t"

lemma round_trip_attempts: "attempts (fst (snd (round_trip E t req w))) \<le> transport_attempts t"
proof (induction t arbitrary: req w)
  case (RetryTransport c t)
  show ?case
    using retry_attempts_bounded' [where E = E and c = c and req = req and w = w
        and inner = "\<lambda>q u. let (r, l, u') = round_trip E t q u in (r, u')"]
    by (auto split: prod.splits)
qed (simp_all add: attempts_def Let_def split: prod.split, (metis fst_conv snd_conv)+)

interpretation refusing: metered N "h\<lparr>hc_redirect := Some RefuseRedirect\<rparr>" "transport_attempts (hc_transport h)"
  for N h
  using round_trip_attempts [of "nt_env N" "hc_transport h"]
  by unfold_locales (auto simp: client_do_def Let_def split: prod.split, metis fst_conv snd_conv)

text \<open>The client a provider makes, when the caller's has no redirect check of its own.\<close>

definition own_redirects :: "base_client option \<Rightarrow> bool" where
  "own_redirects base = (case base of None \<Rightarrow> False | Some b \<Rightarrow> bc_has_redirect b)"

lemma provider_client:
  assumes "provider_new fs parse_err name url base opts = Inr su" and "\<not> own_redirects base"
  shows "(su_http su)\<lparr>hc_redirect := Some RefuseRedirect\<rparr> = su_http su"
    and "transport_attempts (hc_transport (su_http su)) \<le> attempts_allowed opts"
proof -
  have retry: "opt_retry (with_defaults fs opts) = default_retry (opt_retry opts)"
    by (simp add: with_defaults_def Let_def split: option.split)
  show "(su_http su)\<lparr>hc_redirect := Some RefuseRedirect\<rparr> = su_http su"
    using assms by (auto simp: provider_new_def setup_client_def new_http_client_def own_redirects_def copy_client_def
        Let_def split: sum.splits option.splits)
  show "transport_attempts (hc_transport (su_http su)) \<le> attempts_allowed opts"
    unfolding provider_new_settings(2) [OF assms(1)] provider_new_settings(1) [OF assms(1)]
    by (auto simp: new_http_client_def build_transport_def Let_def retry retry_settings_def default_retry_def
        attempts_allowed_def)
qed

lemma map_sum_Inr: "map_sum id f x = Inr y \<longleftrightarrow> (\<exists>z. x = Inr z \<and> y = f z)"
  by (cases x) auto

text \<open>One clause per client, for a client \<open>c\<close> New made, in any later state \<open>c'\<close> of it.\<close>

lemma anthropic_returns:
  "\<exists>r. anthropic_chat um post req c w = Some r" "\<exists>r. anthropic_chat_stream um open_sse req c w = Some r"
  using chat.returns [of 1 um post req "fresh_call c w"] sse.returns [of 1 um open_sse req "fresh_call c w"]
  by (cases "check_request c req"; force simp: anthropic_chat_def anthropic_chat_stream_def anthropic_max_sends_def)+

lemma anthropic_budget:
  assumes "anthropic_new fs parse_err base opts = Inr (c, h)" and "\<not> own_redirects base"
  shows "\<exists>res s. anthropic_chat um (anthropic_post N h c marshal decode zero) req c' (w, 0) = Some (res, s)
      \<and> snd (cl_world s) \<le> 6 * attempts_allowed opts"
    and "\<exists>err s. anthropic_chat_stream um (anthropic_open N h c marshal) req c' (w, 0) = Some (err, s)
      \<and> snd (cl_world s) \<le> 6 * attempts_allowed opts"
proof -
  from assms(1) obtain su where su:
    "provider_new fs parse_err provider_name ''https://api.anthropic.com/v1'' base opts = Inr su" "h = su_http su"
    by (auto simp: anthropic_new_def map_sum_Inr)
  note p = provider_client [OF su(1) assms(2), folded su(2)]
  note k = mult_le_mono2 [OF p(2), of 6]
  obtain r where r: "anthropic_chat um (anthropic_post N h c marshal decode zero) req c' (w, 0) = Some r"
    using anthropic_returns(1) [where post = "anthropic_post N h c marshal decode zero" and w = "(w, 0)"] by blast
  with refusing.anthropic_chat_cost [of um N h c marshal decode zero req c' "(w, 0)" r] p(1) k
  show "\<exists>res s. anthropic_chat um (anthropic_post N h c marshal decode zero) req c' (w, 0) = Some (res, s)
      \<and> snd (cl_world s) \<le> 6 * attempts_allowed opts"
    by (cases r) auto
  obtain q where q: "anthropic_chat_stream um (anthropic_open N h c marshal) req c' (w, 0) = Some q"
    using anthropic_returns(2) [where open_sse = "anthropic_open N h c marshal" and w = "(w, 0)"] by blast
  with refusing.anthropic_stream_cost [of um N h c marshal req c' "(w, 0)" q] p(1) k
  show "\<exists>err s. anthropic_chat_stream um (anthropic_open N h c marshal) req c' (w, 0) = Some (err, s)
      \<and> snd (cl_world s) \<le> 6 * attempts_allowed opts"
    by (cases q) auto
qed

lemma openai_budget:
  assumes "openai_new fs parse_err base opts = Inr (c, h)" and "\<not> own_redirects base"
  shows "\<exists>res flags c1 s. openai_chat (openai_api N h J c) req c' (w, 0) = Some (res, flags, c1, s)
      \<and> snd s \<le> 4 * attempts_allowed opts"
    and "\<exists>res flags c1 s. openai_chat_stream (openai_api N h J c) req c' (w, 0) = Some (res, flags, c1, s)
      \<and> snd s \<le> 4 * attempts_allowed opts"
proof -
  from assms(1) obtain su where su:
    "provider_new fs parse_err openai_name ''https://api.openai.com/v1'' base opts = Inr su" "h = su_http su"
    by (auto simp: openai_new_def map_sum_Inr)
  note p = provider_client [OF su(1) assms(2), folded su(2)]
  note k = mult_le_mono2 [OF p(2), of 4]
  obtain res flags c1 s where r: "openai_chat (openai_api N h J c) req c' (w, 0) = Some (res, flags, c1, s)"
    using openai_call_returns [of "openai_api N h J c" req "openai_send (openai_api N h J c) req" c' "(w, 0)"]
    by (auto simp: openai_chat_def)
  with refusing.openai_chat_cost [of N h J c req c' w res flags c1 s] p(1) k
  show "\<exists>res flags c1 s. openai_chat (openai_api N h J c) req c' (w, 0) = Some (res, flags, c1, s)
      \<and> snd s \<le> 4 * attempts_allowed opts"
    by auto
  obtain res flags c1 s where q: "openai_chat_stream (openai_api N h J c) req c' (w, 0) = Some (res, flags, c1, s)"
    using openai_call_returns [of "openai_api N h J c" req "openai_open (openai_api N h J c) req" c' "(w, 0)"]
    by (auto simp: openai_chat_stream_def)
  with refusing.openai_stream_cost [of N h J c req c' w res flags c1 s] p(1) k
  show "\<exists>res flags c1 s. openai_chat_stream (openai_api N h J c) req c' (w, 0) = Some (res, flags, c1, s)
      \<and> snd s \<le> 4 * attempts_allowed opts"
    by auto
qed

lemma gemini_budget:
  assumes "gemini_new fs parse_err base opts = Inr (c, h)" and "\<not> own_redirects base"
  shows "gemini_chat Js X (gemini_post N h c marshal decode zero) req c' (w, 0) = (res, c1, s, sent) \<Longrightarrow>
      snd s \<le> 2 * attempts_allowed opts"
    and "gemini_chat_stream Js X (gemini_open N h c marshal) req c' (w, 0) = (res', c1, s, sent) \<Longrightarrow>
      snd s \<le> 2 * attempts_allowed opts"
proof -
  from assms(1) obtain su where su:
    "provider_new fs parse_err gemini_name ''https://generativelanguage.googleapis.com'' base opts = Inr su" "h = su_http su"
    by (auto simp: gemini_new_def map_sum_Inr)
  note p = provider_client [OF su(1) assms(2), folded su(2)]
  note k = mult_le_mono2 [OF p(2), of 2]
  show "gemini_chat Js X (gemini_post N h c marshal decode zero) req c' (w, 0) = (res, c1, s, sent) \<Longrightarrow>
      snd s \<le> 2 * attempts_allowed opts"
    using refusing.gemini_chat_cost [of Js X N h c marshal decode zero req c' w res c1 s sent] p(1) k by auto
  show "gemini_chat_stream Js X (gemini_open N h c marshal) req c' (w, 0) = (res', c1, s, sent) \<Longrightarrow>
      snd s \<le> 2 * attempts_allowed opts"
    using refusing.gemini_stream_cost [of Js X N h c marshal req c' w res' c1 s sent] p(1) k by auto
qed

text \<open>
  C16: the cost of a call, through the whole stack. For a client New made with these options, one
  call of Chat or ChatStream returns having put at most as many attempts on the network as its
  provider's adjust-and-resend loop sends requests (six for Anthropic, four for OpenAI, two for
  Gemini) times the attempts Options.Retry allows for one request, in whatever state earlier
  calls left the client and whatever the network answers. The caller's http.Client has no
  redirect check of its own; the library's refuses every redirect.
\<close>

theorem request_budget:
  assumes "\<not> own_redirects base"
  shows "(case anthropic_new fs parse_err base opts of
       Inl e \<Rightarrow> True
     | Inr (c, h) \<Rightarrow>
         (\<exists>res s. anthropic_chat um (anthropic_post N h c marshal decode zero) req c' (w, 0) = Some (res, s)
            \<and> snd (cl_world s) \<le> 6 * attempts_allowed opts) \<and>
         (\<exists>err s. anthropic_chat_stream um (anthropic_open N h c marshal) req c' (w, 0) = Some (err, s)
            \<and> snd (cl_world s) \<le> 6 * attempts_allowed opts))
   \<and> (case openai_new fs parse_err base opts of
       Inl e \<Rightarrow> True
     | Inr (c, h) \<Rightarrow>
         (\<exists>res flags c1 s. openai_chat (openai_api N h J c) req oc' (w, 0) = Some (res, flags, c1, s)
            \<and> snd s \<le> 4 * attempts_allowed opts) \<and>
         (\<exists>res flags c1 s. openai_chat_stream (openai_api N h J c) req oc' (w, 0) = Some (res, flags, c1, s)
            \<and> snd s \<le> 4 * attempts_allowed opts))
   \<and> (case gemini_new fs parse_err base opts of
       Inl e \<Rightarrow> True
     | Inr (c, h) \<Rightarrow>
         (case gemini_chat Js X (gemini_post N h c g_marshal g_decode g_zero) req gc' (w, 0) of
            (res, c1, s, sent) \<Rightarrow> snd s \<le> 2 * attempts_allowed opts) \<and>
         (case gemini_chat_stream Js X (gemini_open N h c g_marshal) req gc' (w, 0) of
            (res, c1, s, sent) \<Rightarrow> snd s \<le> 2 * attempts_allowed opts))"
proof (intro conjI, goal_cases)
  case 1
  show ?case using anthropic_budget [OF _ assms] by (auto split: sum.split)
next
  case 2
  show ?case using openai_budget [OF _ assms] by (auto split: sum.split)
next
  case 3
  show ?case by (auto dest: gemini_budget [OF _ assms] split: sum.split)
qed

definition down_net :: "unit net" where
  "down_net = \<lparr>nt_env = down, nt_new_request_err = (\<lambda>_ _. None), nt_redirects_to = (\<lambda>_. None),
     nt_caller_do = (\<lambda>_ _ s. (Inl EofErr, s)), nt_room = (\<lambda>_. 511)\<rparr>"

definition once_options :: "extension client_options" where
  "once_options = \<lparr>opt_api_key = ''k'', opt_api_key_file = [], opt_model = ''m'',
     opt_base_url = [], opt_custom_headers = [], opt_max_tokens = None, opt_temperature = None,
     opt_effort = EffortDefault, opt_caching = CachingDefault, opt_extra_body = [],
     opt_request_timeout = 0, opt_per_attempt_timeout = 0, opt_max_response_bytes = 0,
     opt_retry = \<lparr>max_retries = 0, initial_backoff = 0, max_backoff = 0, retry_disabled = True\<rparr>,
     opt_extensions = []\<rparr>"

theorem request_budget_witness:
  "case anthropic_new (\<lambda>_. None) PlainErr None once_options of
     Inl e \<Rightarrow> False
   | Inr (c, h) \<Rightarrow>
       \<exists>res s. anthropic_chat demo_error
           (anthropic_post down_net h c (\<lambda>_. Inr ''{}'') (\<lambda>_. Inl EofErr) undefined) demo_request c ((), 0) = Some (res, s)
         \<and> snd (cl_world s) \<le> 6"
proof -
  have "\<exists>c h. anthropic_new (\<lambda>_. None) PlainErr None once_options = Inr (c, h)"
    by (simp add: anthropic_new_def provider_new_def setup_client_def once_options_def with_defaults_def Let_def)
  moreover have "attempts_allowed once_options = 1"
    by (simp add: attempts_allowed_def once_options_def)
  ultimately show ?thesis
    using request_budget [where base = None and fs = "\<lambda>_. None" and parse_err = PlainErr and opts = once_options
        and um = demo_error and N = down_net and marshal = "\<lambda>_. Inr ''{}''" and decode = "\<lambda>_. Inl EofErr"
        and zero = undefined and req = demo_request and w = "()"]
    by (auto simp: own_redirects_def)
qed

end
