(* ===== verification/SharedClient.thy ===== *)
theory SharedClient
  imports AnthropicProps "HOL-Library.Multiset"
begin

text \<open>
  Concurrent calls of \<open>Chat\<close> on one Anthropic client (\<open>anthropic.go\<close>, \<open>adapt.go\<close>). What the calls
  share is the client: its usage, what it has learned, and its logger. Each access under the
  client's mutex is one step; a call reads what the client has learned in three of them while
  it builds a request, learns in another, logs outside the lock, and adds its usage in a last
  one, so all of these interleave with the steps of other calls.
\<close>

subsection \<open>A call\<close>

datatype call_state =
    ReadTemperature
  | ReadEffort
  | ReadCaching
  | Sending a_request
  | Adapting a_request int bytes
  | LogRejection "(string \<times> string) list" bool int bytes
  | Confirming "go_error + chat_response"
  | LogConfirmed "(string \<times> string) list" "go_error + chat_response"
  | AddUsage chat_response
  | Returned "go_error + chat_response"

text \<open>
  \<open>sc_view\<close> is the client as the call has read it; \<open>sc_begun\<close> and \<open>sc_sent\<close> record what the client
  knew when a request was begun, and each request sent with that.
\<close>

record shared_call =
  sc_req :: "extension chat_request"
  sc_sends :: nat
  sc_applied :: "adjustment list"
  sc_view :: a_client
  sc_begun :: a_client
  sc_sent :: "(a_client \<times> a_request) list"
  sc_state :: call_state

definition read_temperature :: "a_client \<Rightarrow> shared_call \<Rightarrow> shared_call" where
  "read_temperature c k = k\<lparr>sc_view := (sc_view k)\<lparr>ac_drop_temperature := ac_drop_temperature c\<rparr>,
     sc_begun := c, sc_state := ReadEffort\<rparr>"

definition read_effort :: "a_client \<Rightarrow> shared_call \<Rightarrow> shared_call" where
  "read_effort c k = k\<lparr>sc_view := (sc_view k)\<lparr>ac_rejected_thinking := ac_rejected_thinking c,
     ac_rejected_effort := ac_rejected_effort c\<rparr>, sc_state := ReadCaching\<rparr>"

definition read_caching :: "a_client \<Rightarrow> shared_call \<Rightarrow> shared_call" where
  "read_caching c k =
     (let view = (sc_view k)\<lparr>ac_drop_auto_caching := ac_drop_auto_caching c\<rparr>;
          a = omit_for_call (sc_applied k) (build_chat_request view (sc_req k) False)
      in k\<lparr>sc_view := view, sc_sent := sc_sent k @ [(sc_begun k, a)], sc_state := Sending a\<rparr>)"

text \<open>
  What a function that learns does under the lock, and the records it then logs: those it
  appends to the log.
\<close>

definition under_lock :: "a_client \<Rightarrow> a_client \<Rightarrow> a_client" where
  "under_lock c c' = c'\<lparr>ac_log := ac_log c\<rparr>"

definition records :: "a_client \<Rightarrow> a_client \<Rightarrow> (string \<times> string) list" where
  "records c c' = drop (length (ac_log c)) (ac_log c')"

definition adapt_call ::
  "(bytes \<Rightarrow> a_error) \<Rightarrow> a_client \<Rightarrow> shared_call \<Rightarrow> a_request \<Rightarrow> int \<Rightarrow> bytes \<Rightarrow> a_client \<times> shared_call" where
  "adapt_call um c k a status body =
     (case retry_after_rejection um status body a (sc_applied k) (sc_sends k) c of
        (again, applied, c') \<Rightarrow>
          (under_lock c c',
           k\<lparr>sc_applied := applied, sc_state := LogRejection (records c c') again status body\<rparr>))"

definition log_records :: "(string \<times> string) list \<Rightarrow> a_client \<Rightarrow> a_client" where
  "log_records es c = c\<lparr>ac_log := ac_log c @ es\<rparr>"

definition after_rejection ::
  "(bytes \<Rightarrow> a_error) \<Rightarrow> a_client \<Rightarrow> shared_call \<Rightarrow> bool \<Rightarrow> int \<Rightarrow> bytes \<Rightarrow> shared_call" where
  "after_rejection um c k again status body =
     (if again then k\<lparr>sc_sends := Suc (sc_sends k), sc_state := ReadTemperature\<rparr>
      else k\<lparr>sc_state := Returned (Inl (anthropic_map_error um c status body))\<rparr>)"

definition confirm_call :: "a_client \<Rightarrow> shared_call \<Rightarrow> go_error + chat_response \<Rightarrow> a_client \<times> shared_call" where
  "confirm_call c k out =
     (let c' = confirm_adjustments (sc_applied k) c
      in (under_lock c c', k\<lparr>sc_state := LogConfirmed (records c c') out\<rparr>))"

definition after_confirm :: "shared_call \<Rightarrow> go_error + chat_response \<Rightarrow> shared_call" where
  "after_confirm k out =
     k\<lparr>sc_state := (case out of Inl e \<Rightarrow> Returned (Inl e) | Inr r \<Rightarrow> AddUsage r)\<rparr>"

text \<open>What a 2xx response comes to: a decoding error, or the response.\<close>

inductive accepted :: "int \<Rightarrow> go_error + chat_response \<Rightarrow> bool" where
  "accepted status (Inl (anthropic_decode_error status e))"
| "accepted status (Inr (parse_chat_response resp))"

text \<open>The steps of a call. The API may answer a request with anything.\<close>

inductive call_step :: "(bytes \<Rightarrow> a_error) \<Rightarrow> a_client \<times> shared_call \<Rightarrow> a_client \<times> shared_call \<Rightarrow> bool" for um where
  temperature: "sc_state k = ReadTemperature \<Longrightarrow> call_step um (c, k) (c, read_temperature c k)"
| effort: "sc_state k = ReadEffort \<Longrightarrow> call_step um (c, k) (c, read_effort c k)"
| caching: "sc_state k = ReadCaching \<Longrightarrow> call_step um (c, k) (c, read_caching c k)"
| failed: "sc_state k = Sending a \<Longrightarrow> call_step um (c, k) (c, k\<lparr>sc_state := Returned (Inl e)\<rparr>)"
| refused: "sc_state k = Sending a \<Longrightarrow> status < 200 \<or> 300 \<le> status \<Longrightarrow>
    call_step um (c, k) (c, k\<lparr>sc_state := Adapting a status body\<rparr>)"
| answered: "sc_state k = Sending a \<Longrightarrow> 200 \<le> status \<Longrightarrow> status < 300 \<Longrightarrow> accepted status out \<Longrightarrow>
    call_step um (c, k) (c, k\<lparr>sc_state := Confirming out\<rparr>)"
| adapt: "sc_state k = Adapting a status body \<Longrightarrow> call_step um (c, k) (adapt_call um c k a status body)"
| log_rejection: "sc_state k = LogRejection es again status body \<Longrightarrow>
    call_step um (c, k) (log_records es c, after_rejection um c k again status body)"
| confirm: "sc_state k = Confirming out \<Longrightarrow> call_step um (c, k) (confirm_call c k out)"
| log_confirmed: "sc_state k = LogConfirmed es out \<Longrightarrow>
    call_step um (c, k) (log_records es c, after_confirm k out)"
| usage: "sc_state k = AddUsage r \<Longrightarrow>
    call_step um (c, k) (add_usage c (resp_usage r), k\<lparr>sc_state := Returned (Inr r)\<rparr>)"

subsection \<open>A client with its calls\<close>

record shared_client =
  sh_client :: a_client
  sh_calls :: "shared_call list"

text \<open>A call starts when its request passes the checks.\<close>

definition new_call :: "a_client \<Rightarrow> extension chat_request \<Rightarrow> shared_call" where
  "new_call c req = \<lparr>sc_req = req, sc_sends = 1, sc_applied = [], sc_view = c, sc_begun = c, sc_sent = [],
     sc_state = ReadTemperature\<rparr>"

inductive shared_step :: "(bytes \<Rightarrow> a_error) \<Rightarrow> shared_client \<Rightarrow> shared_client \<Rightarrow> bool" for um where
  start: "check_request (sh_client s) req = None \<Longrightarrow>
    shared_step um s (s\<lparr>sh_calls := sh_calls s @ [new_call (sh_client s) req]\<rparr>)"
| turn: "i < length (sh_calls s) \<Longrightarrow> call_step um (sh_client s, sh_calls s ! i) (c', k') \<Longrightarrow>
    shared_step um s \<lparr>sh_client = c', sh_calls = (sh_calls s)[i := k']\<rparr>"

inductive shared_run :: "(bytes \<Rightarrow> a_error) \<Rightarrow> a_client \<Rightarrow> shared_client \<Rightarrow> bool" for um c0 where
  init: "shared_run um c0 \<lparr>sh_client = c0, sh_calls = []\<rparr>"
| step: "shared_run um c0 s \<Longrightarrow> shared_step um s t \<Longrightarrow> shared_run um c0 t"

inductive_cases call_step_cases: "call_step um (c, k) (c', k')"

end
