(* ===== verification/SharedClientProps.thy ===== *)
theory SharedClientProps
  imports SharedClient
begin

text \<open>
  What concurrent calls on one Anthropic client keep, by induction over their interleavings, and
  that a call running alone takes the steps of the sequential \<open>Chat\<close>.
\<close>

subsection \<open>What the calls keep\<close>

text \<open>What a client has learned only grows.\<close>

definition knows_more :: "a_client \<Rightarrow> a_client \<Rightarrow> bool" where
  "knows_more b c \<longleftrightarrow>
     (ac_drop_temperature b \<longrightarrow> ac_drop_temperature c) \<and>
     set (ac_rejected_thinking b) \<subseteq> set (ac_rejected_thinking c) \<and>
     set (ac_rejected_effort b) \<subseteq> set (ac_rejected_effort c) \<and>
     (ac_drop_auto_caching b \<longrightarrow> ac_drop_auto_caching c)"

lemma knows_more_refl [simp]: "knows_more c c"
  by (simp add: knows_more_def)

lemma knows_more_trans: "knows_more a b \<Longrightarrow> knows_more b c \<Longrightarrow> knows_more a c"
  by (auto simp: knows_more_def)

text \<open>A request with something the client knows the API refuses.\<close>

definition refused_by :: "a_client \<Rightarrow> a_request \<Rightarrow> bool" where
  "refused_by c a \<longleftrightarrow>
     (ac_drop_temperature c \<and> ar_temperature a \<noteq> None) \<or>
     (case ar_thinking a of None \<Rightarrow> False
      | Some t \<Rightarrow> ath_type t \<noteq> ''enabled'' \<and> ath_type t \<in> set (ac_rejected_thinking c)) \<or>
     (case ar_effort a of None \<Rightarrow> False | Some l \<Rightarrow> l \<in> set (ac_rejected_effort c)) \<or>
     (ac_drop_auto_caching c \<and> ar_cache a \<noteq> None)"

lemma set_effort_temperature: "ar_temperature (set_reasoning_effort c req a) = ar_temperature a"
  by (simp add: set_reasoning_effort_def Let_def split: sum.split option.split)

lemma build_temperature: "ac_drop_temperature c \<Longrightarrow> ar_temperature (build_chat_request c req st) = None"
proof -
  assume d: "ac_drop_temperature c"
  then have "ar_temperature (base_request c req st) = None" by (simp add: base_request_def)
  then have "ar_temperature (apply_reasoning_effort c req (base_request c req st)) = None"
    by (simp add: apply_reasoning_effort_def Let_def set_effort_temperature split: option.split)
  then show ?thesis by (simp add: build_chat_request_def Let_def auto_cache_select)
qed

lemma built_not_refused:
  assumes "knows_more b c"
  shows "\<not> refused_by b (omit_for_call ap (build_chat_request c req st))"
proof -
  have "ac_drop_auto_caching b \<Longrightarrow> \<not> auto_caching c req"
    using assms by (auto simp: knows_more_def auto_caching_def split: sum.split prompt_caching.split)
  moreover have "ac_drop_temperature b \<Longrightarrow> ar_temperature (build_chat_request c req st) = None"
    using assms by (simp add: knows_more_def build_temperature)
  moreover have "sent_thinking c req = Some t \<Longrightarrow> ath_type t = ''enabled'' \<or> ath_type t \<notin> set (ac_rejected_thinking b)" for t
    using assms by (auto simp: knows_more_def sent_thinking_def ext_thinking_def Let_def split: sum.splits option.splits if_splits)
  moreover have "sent_effort c req = Some l \<Longrightarrow> l \<notin> set (ac_rejected_effort b)" for l
    using assms by (auto simp: knows_more_def sent_effort_def Let_def split: sum.splits option.splits if_splits)
  ultimately show ?thesis
    by (auto simp: refused_by_def omit_select build_select split: option.split)
qed

text \<open>The records of what a client has learned; the others are about one request.\<close>

definition learned_records :: "a_client \<Rightarrow> (string \<times> string) list" where
  "learned_records c =
     (if ac_drop_temperature c then [(''temperature'', ''omitted'')] else []) @
     (if ac_drop_auto_caching c then [(''cache_control'', ''omitted'')] else []) @
     map (\<lambda>l. (''effort'', ''omitted '' @ l)) (ac_rejected_effort c) @
     map (\<lambda>t. (''thinking'', ''omitted '' @ t)) (ac_rejected_thinking c)"

definition of_learning :: "string \<times> string \<Rightarrow> bool" where
  "of_learning e \<longleftrightarrow> e \<notin> {(''temperature'', ''omitted for this request''), (''cache_control'', ''omitted for this request''),
     (''thinking blocks'', ''removed from history for this request'')}"

text \<open>What a function that learns does: the client knows more, and records what is new.\<close>

definition learns :: "a_client \<Rightarrow> a_client \<Rightarrow> bool" where
  "learns c c' \<longleftrightarrow>
     knows_more c c' \<and> ac_usage c' = ac_usage c \<and>
     ac_model c' = ac_model c \<and> ac_base_url c' = ac_base_url c \<and> ac_opts c' = ac_opts c \<and>
     (\<exists>es. ac_log c' = ac_log c @ es \<and>
        mset (learned_records c') = mset (learned_records c) + mset (filter of_learning es)) \<and>
     (distinct (learned_records c) \<longrightarrow> distinct (learned_records c'))"

lemma learns_refl [simp]: "learns c c"
  by (simp add: learns_def)

lemma learn_learns:
  "learns c (learn_drop_temperature c)" "learns c (learn_drop_auto_caching c)"
  "learns c (learn_rejected_effort l c)" "learns c (learn_rejected_thinking t c)"
  by (auto simp: learns_def learn_defs knows_more_def learned_records_def of_learning_def distinct_map inj_on_def)

lemma log_learns: "\<not> of_learning (p, a) \<Longrightarrow> learns c (log_adjustment p a c)"
  by (simp add: learns_def log_adjustment_def knows_more_def learned_records_def)

lemma adapt_learns: "adapt_to_rejection um st body sent c = (adj, c') \<Longrightarrow> learns c c'"
  by (auto simp: adapt_to_rejection_def Let_def learn_learns log_learns of_learning_def split: if_splits option.splits)

lemma retry_learns: "retry_after_rejection um st body sent ap n c = (again, ap', c') \<Longrightarrow> learns c c'"
  by (auto simp: retry_after_rejection_def dest: adapt_learns split: prod.splits option.splits if_splits)

lemma confirm_learns: "learns c (confirm_adjustments ap c)"
  by (simp add: confirm_adjustments_def learn_learns)

text \<open>A call at one point: what it has read, what it sent, and how often.\<close>

definition read_so_far :: "shared_call \<Rightarrow> bool" where
  "read_so_far k \<longleftrightarrow>
     (sc_state k \<in> {ReadEffort, ReadCaching} \<longrightarrow> ac_drop_temperature (sc_begun k) \<longrightarrow> ac_drop_temperature (sc_view k)) \<and>
     (sc_state k = ReadCaching \<longrightarrow>
        set (ac_rejected_thinking (sc_begun k)) \<subseteq> set (ac_rejected_thinking (sc_view k)) \<and>
        set (ac_rejected_effort (sc_begun k)) \<subseteq> set (ac_rejected_effort (sc_view k)))"

fun building :: "call_state \<Rightarrow> bool" where
  "building ReadTemperature = True"
| "building ReadEffort = True"
| "building ReadCaching = True"
| "building _ = False"

fun resends :: "call_state \<Rightarrow> bool" where
  "resends (LogRejection es again status body) = again"
| "resends _ = False"

definition call_ok :: "a_client \<Rightarrow> shared_call \<Rightarrow> bool" where
  "call_ok c k \<longleftrightarrow>
     knows_more (sc_begun k) c \<and> read_so_far k \<and> (\<forall>(b, a) \<in> set (sc_sent k). \<not> refused_by b a) \<and>
     length (sc_sent k) + (if building (sc_state k) then 1 else 0) = sc_sends k \<and>
     sc_sends k + (if resends (sc_state k) then 1 else 0) \<le> anthropic_max_sends"

fun usage_of :: "call_state \<Rightarrow> token_usage list" where
  "usage_of (Returned (Inr r)) = [resp_usage r]"
| "usage_of _ = []"

fun unlogged :: "call_state \<Rightarrow> (string \<times> string) list" where
  "unlogged (LogRejection es again status body) = es"
| "unlogged (LogConfirmed es out) = es"
| "unlogged _ = []"

lemma learned_records_log [simp]: "learned_records (c\<lparr>ac_log := l\<rparr>) = learned_records c"
  by (simp add: learned_records_def)

lemma knows_more_log [simp]: "knows_more b (c\<lparr>ac_log := l\<rparr>) = knows_more b c"
  by (simp add: knows_more_def)

lemma learns_split:
  assumes "learns c c'"
  shows "knows_more c (under_lock c c')" "ac_usage (under_lock c c') = ac_usage c"
    "learned_records (under_lock c c') = learned_records c'"
    "mset (learned_records c') = mset (learned_records c) + mset (filter of_learning (records c c'))"
    "distinct (learned_records c) \<Longrightarrow> distinct (learned_records c')"
  using assms by (auto simp: learns_def under_lock_def records_def)

lemma retry_again_applied:
  "retry_after_rejection um st body sent ap n c = (again, ap', c') \<Longrightarrow> again \<Longrightarrow> n < anthropic_max_sends"
  using retry_again by (cases again) auto

lemma call_keeps_ok:
  "call_step um p q \<Longrightarrow> call_ok (fst p) (snd p) \<Longrightarrow> knows_more (fst p) (fst q) \<and> call_ok (fst q) (snd q)"
proof (induction rule: call_step.induct)
  case (temperature k c)
  then show ?case by (simp add: call_ok_def read_temperature_def read_so_far_def)
next
  case (effort k c)
  then show ?case by (auto simp: call_ok_def read_effort_def read_so_far_def knows_more_def)
next
  case (caching k c)
  then have "knows_more (sc_begun k) ((sc_view k)\<lparr>ac_drop_auto_caching := ac_drop_auto_caching c\<rparr>)"
    by (auto simp: call_ok_def read_so_far_def knows_more_def)
  from built_not_refused [OF this] caching show ?case
    by (auto simp: call_ok_def read_caching_def read_so_far_def Let_def)
next
  case (adapt k a status body c)
  obtain again ap c1 where r: "retry_after_rejection um status body a (sc_applied k) (sc_sends k) c = (again, ap, c1)"
    by (metis prod_cases3)
  note l = learns_split(1) [OF retry_learns [OF r]]
  with adapt r retry_again_applied [OF r] show ?case
    by (auto simp: adapt_call_def call_ok_def read_so_far_def intro: knows_more_trans)
next
  case (confirm k out c)
  note l = learns_split(1) [OF confirm_learns [of c "sc_applied k"]]
  with confirm show ?case
    by (auto simp: confirm_call_def Let_def call_ok_def read_so_far_def intro: knows_more_trans)
qed (auto simp: call_ok_def read_so_far_def log_records_def after_rejection_def after_confirm_def
    add_usage_def knows_more_def split: sum.splits)

lemma call_keeps_usage:
  "call_step um p q \<Longrightarrow>
    (ac_usage (fst q) = ac_usage (fst p) \<and> usage_of (sc_state (snd q)) = usage_of (sc_state (snd p))) \<or>
    (\<exists>u. ac_usage (fst q) = usage_add (ac_usage (fst p)) u \<and> usage_of (sc_state (snd p)) = [] \<and>
      usage_of (sc_state (snd q)) = [u])"
proof (induction rule: call_step.induct)
  case (adapt k a status body c)
  obtain again ap c1 where r: "retry_after_rejection um status body a (sc_applied k) (sc_sends k) c = (again, ap, c1)"
    by (metis prod_cases3)
  with adapt learns_split(2) [OF retry_learns [OF r]] show ?case by (simp add: adapt_call_def)
next
  case (confirm k out c)
  with learns_split(2) [OF confirm_learns [of c "sc_applied k"]] show ?case
    by (simp add: confirm_call_def Let_def)
qed (auto simp: read_temperature_def read_effort_def read_caching_def Let_def log_records_def after_rejection_def
    after_confirm_def add_usage_def split: sum.splits)

lemma call_keeps_log:
  "call_step um p q \<Longrightarrow>
    mset (filter of_learning (ac_log (fst q) @ unlogged (sc_state (snd q)))) + mset (learned_records (fst p)) =
    mset (filter of_learning (ac_log (fst p) @ unlogged (sc_state (snd p)))) + mset (learned_records (fst q)) \<and>
    (distinct (learned_records (fst p)) \<longrightarrow> distinct (learned_records (fst q)))"
proof (induction rule: call_step.induct)
  case (adapt k a status body c)
  obtain again ap c1 where r: "retry_after_rejection um status body a (sc_applied k) (sc_sends k) c = (again, ap, c1)"
    by (metis prod_cases3)
  note l = learns_split(3-5) [OF retry_learns [OF r]]
  with adapt r show ?case by (simp add: adapt_call_def under_lock_def)
next
  case (confirm k out c)
  note l = learns_split(3-5) [OF confirm_learns [of c "sc_applied k"]]
  with confirm show ?case by (simp add: confirm_call_def Let_def under_lock_def)
qed (auto simp: read_temperature_def read_effort_def read_caching_def Let_def log_records_def after_rejection_def
    after_confirm_def add_usage_def learned_records_def split: sum.splits)

text \<open>The whole system, with the sums of its calls.\<close>

lemma mset_calls_update:
  "i < length xs \<Longrightarrow> mset (concat (map f (xs[i := y]))) + mset (f (xs ! i)) = mset (concat (map f xs)) + mset (f y)"
proof (induction xs arbitrary: i)
  case (Cons x xs)
  then show ?case by (cases i) (auto simp: ac_simps)
qed simp

lemma usage_add_mset: "mset us = mset vs \<Longrightarrow> foldl usage_add u us = foldl usage_add u vs"
proof -
  assume m: "mset us = mset vs"
  have "sum_list (map f us) = sum_list (map f vs)" for f :: "token_usage \<Rightarrow> int"
    using m by (metis mset_map sum_mset_sum_list)
  moreover have "(us = []) = (vs = [])" using m by (metis mset_zero_iff)
  ultimately show ?thesis by (simp add: usage_add_sums)
qed

lemma log_balance:
  fixes log log' rest rest' known known' old new :: "'a multiset"
  assumes "log + rest = known" and "log' + new + known = log + old + known'" and "rest' + old = rest + new"
  shows "log' + rest' = known'"
proof (rule multiset_eqI)
  fix x
  from assms [THEN arg_cong [where f = "\<lambda>M. count M x"]]
  show "count (log' + rest') x = count known' x" by simp
qed

definition call_usages :: "shared_client \<Rightarrow> token_usage list" where
  "call_usages s = concat (map (\<lambda>k. usage_of (sc_state k)) (sh_calls s))"

definition to_log :: "shared_client \<Rightarrow> (string \<times> string) list" where
  "to_log s = concat (map (\<lambda>k. unlogged (sc_state k)) (sh_calls s))"

definition shared_ok :: "a_client \<Rightarrow> shared_client \<Rightarrow> bool" where
  "shared_ok c0 s \<longleftrightarrow>
     (\<forall>k \<in> set (sh_calls s). call_ok (sh_client s) k) \<and>
     ac_usage (sh_client s) = foldl usage_add (ac_usage c0) (call_usages s) \<and>
     mset (filter of_learning (ac_log (sh_client s) @ to_log s)) = mset (learned_records (sh_client s)) \<and>
     distinct (learned_records (sh_client s))"

lemma call_ok_more: "call_ok b k \<Longrightarrow> knows_more b c \<Longrightarrow> call_ok c k"
  by (auto simp: call_ok_def intro: knows_more_trans)

lemma new_call_ok: "call_ok c (new_call c req)"
  by (simp add: call_ok_def new_call_def read_so_far_def anthropic_max_sends_def)

lemma turn_keeps_ok:
  assumes ok: "shared_ok c0 s" and i: "i < length (sh_calls s)"
    and st: "call_step um (sh_client s, sh_calls s ! i) (c', k')"
  shows "shared_ok c0 \<lparr>sh_client = c', sh_calls = (sh_calls s)[i := k']\<rparr>" (is "shared_ok c0 ?t")
proof -
  have k: "call_ok (sh_client s) (sh_calls s ! i)" using ok i by (auto simp: shared_ok_def)
  have more: "knows_more (sh_client s) c'" "call_ok c' k'" using call_keeps_ok [OF st] k by simp_all
  then have "\<forall>k \<in> set (sh_calls ?t). call_ok c' k"
    using ok by (auto simp: shared_ok_def dest!: subsetD [OF set_update_subset_insert] intro: call_ok_more)
  moreover have "ac_usage c' = foldl usage_add (ac_usage c0) (call_usages ?t)"
  proof -
    note u = mset_calls_update [OF i, where f = "\<lambda>k. usage_of (sc_state k)" and y = k']
    from call_keeps_usage [OF st] show ?thesis
    proof (elim disjE exE conjE, goal_cases)
      case 1
      then have "mset (call_usages ?t) = mset (call_usages s)" using u by (simp add: call_usages_def)
      with 1 ok usage_add_mset show ?case by (metis fst_conv shared_ok_def)
    next
      case (2 v)
      then have "mset (call_usages ?t) = mset (call_usages s @ [v])" using u by (simp add: call_usages_def)
      from usage_add_mset [OF this, of "ac_usage c0"] 2 ok show ?case by (simp add: shared_ok_def)
    qed
  qed
  moreover have "mset (filter of_learning (ac_log c' @ to_log ?t)) = mset (learned_records c')"
  proof -
    have "mset (filter of_learning (concat (map f ((sh_calls s)[i := k'])))) + mset (filter of_learning (f (sh_calls s ! i)))
        = mset (filter of_learning (concat (map f (sh_calls s)))) + mset (filter of_learning (f k'))" for f
      using arg_cong [OF mset_calls_update [OF i, of f k'], of "filter_mset of_learning"] by (simp only: mset_filter filter_union_mset)
    from this [of "\<lambda>k. unlogged (sc_state k)"]
    have rest: "mset (filter of_learning (to_log ?t)) + mset (filter of_learning (unlogged (sc_state (sh_calls s ! i)))) =
        mset (filter of_learning (to_log s)) + mset (filter of_learning (unlogged (sc_state k')))"
      by (simp add: to_log_def)
    have "mset (filter of_learning (ac_log (sh_client s))) + mset (filter of_learning (to_log s)) =
        mset (learned_records (sh_client s))"
      using ok by (simp add: shared_ok_def)
    moreover have "mset (filter of_learning (ac_log c')) + mset (filter of_learning (unlogged (sc_state k'))) +
          mset (learned_records (sh_client s)) =
        mset (filter of_learning (ac_log (sh_client s))) + mset (filter of_learning (unlogged (sc_state (sh_calls s ! i)))) +
          mset (learned_records c')"
      using call_keeps_log [OF st] by simp
    ultimately have "mset (filter of_learning (ac_log c')) + mset (filter of_learning (to_log ?t)) = mset (learned_records c')"
      using rest by (rule log_balance)
    then show ?thesis by simp
  qed
  moreover have "distinct (learned_records c')"
    using call_keeps_log [OF st] ok by (simp add: shared_ok_def)
  ultimately show ?thesis by (simp add: shared_ok_def)
qed

lemma shared_run_ok:
  assumes "shared_run um c0 s" and "ac_log c0 = []" and "learned_records c0 = []"
  shows "shared_ok c0 s"
  using assms(1)
proof (induction rule: shared_run.induct)
  case init
  show ?case using assms(2,3) by (simp add: shared_ok_def call_usages_def to_log_def)
next
  case (step s t)
  from step.hyps(2) show ?case
  proof (cases rule: shared_step.cases)
    case (start req)
    with step.IH new_call_ok show ?thesis
      by (auto simp: shared_ok_def call_usages_def to_log_def new_call_def) 
  next
    case (turn i c' k')
    with turn_keeps_ok step.IH show ?thesis by blast
  qed
qed

text \<open>
  C8: calls share a client safely. However any number of concurrent calls of Chat interleave on
  a client New made, and whatever the API answers: each call sends at most six requests, and
  none of them carries what the client knew to be refused when the call began building it; the
  client's usage is the sum of the usages of the calls that have returned a response, each
  counted once; and what the client has learned was logged, or is about to be logged by the
  call that learned it, exactly once, however many calls were refused for it.
\<close>

theorem shared_client_sound:
  assumes "shared_run um c0 s" and "ac_log c0 = []" and "learned_records c0 = []"
  shows "list_all (\<lambda>k. length (sc_sent k) \<le> 6 \<and> list_all (\<lambda>(b, a). \<not> refused_by b a) (sc_sent k)) (sh_calls s) \<and>
    ac_usage (sh_client s) = foldl usage_add (ac_usage c0) (call_usages s) \<and>
    mset (filter of_learning (ac_log (sh_client s) @ to_log s)) = mset (learned_records (sh_client s)) \<and>
    distinct (learned_records (sh_client s))"
proof -
  from shared_run_ok [OF assms] have ok: "shared_ok c0 s" .
  moreover have "length (sc_sent k) \<le> 6" if "call_ok c k" for c k
    using that by (auto simp: call_ok_def anthropic_max_sends_def split: if_splits)
  ultimately show ?thesis by (auto simp: shared_ok_def list_all_iff call_ok_def)
qed

lemma run_turn:
  assumes "shared_run um b \<lparr>sh_client = c, sh_calls = ks\<rparr>" and "i < length ks"
    and "call_step um (c, ks ! i) (c', k')"
  shows "shared_run um b \<lparr>sh_client = c', sh_calls = ks[i := k']\<rparr>"
  using shared_run.step [OF assms(1) shared_step.turn [where i = i and c' = c' and k' = k']] assms(2,3) by simp

text \<open>Two calls that read the client in turn.\<close>

theorem shared_client_sound_witness:
  "\<exists>s. shared_run demo_error demo_client s \<and> map sc_state (sh_calls s) = [ReadEffort, ReadEffort] \<and>
     ac_usage (sh_client s) = zero_usage \<and> filter of_learning (ac_log (sh_client s) @ to_log s) = []"
proof -
  let ?k = "new_call demo_client demo_request" and ?r = "read_temperature demo_client (new_call demo_client demo_request)"
  have "check_request demo_client demo_request = None" by code_simp
  then have start: "shared_step demo_error s (s\<lparr>sh_calls := sh_calls s @ [?k]\<rparr>)" if "sh_client s = demo_client" for s
    using shared_step.start [of s demo_request demo_error] that by simp
  have "shared_run demo_error demo_client \<lparr>sh_client = demo_client, sh_calls = [?k]\<rparr>"
    using shared_run.step [OF shared_run.init start] by simp
  from shared_run.step [OF this start]
  have "shared_run demo_error demo_client \<lparr>sh_client = demo_client, sh_calls = [?k, ?k]\<rparr>"
    by simp
  moreover have turn: "call_step demo_error (demo_client, ?k) (demo_client, ?r)"
    by (rule call_step.temperature) (simp add: new_call_def)
  ultimately have "shared_run demo_error demo_client \<lparr>sh_client = demo_client, sh_calls = [?r, ?k]\<rparr>"
    using run_turn [of demo_error demo_client demo_client "[?k, ?k]" 0 demo_client ?r] by simp
  from run_turn [OF this, of 1 demo_client ?r] turn
  have run: "shared_run demo_error demo_client \<lparr>sh_client = demo_client, sh_calls = [?r, ?r]\<rparr>" by simp
  have fresh: "ac_log demo_client = []" "learned_records demo_client = []" "ac_usage demo_client = zero_usage"
    by (simp_all add: demo_client_def learned_records_def)
  have state: "sc_state ?r = ReadEffort" by (simp add: read_temperature_def)
  let ?s = "\<lparr>sh_client = demo_client, sh_calls = [?r, ?r]\<rparr>"
  note sound = shared_client_sound [OF run fresh(1,2), THEN conjunct2]
  note log = sound [THEN conjunct2, THEN conjunct1]
  from sound [THEN conjunct1]
  have "ac_usage (sh_client ?s) = zero_usage" by (simp add: call_usages_def state fresh)
  moreover from log have "filter of_learning (ac_log (sh_client ?s) @ to_log ?s) = []"
    by (simp only: fresh shared_client.select_convs mset.simps mset_zero_iff)
  ultimately show ?thesis using run state by (intro exI [of _ ?s]) simp
qed

subsection \<open>A call that runs alone\<close>

lemma build_settings:
  assumes "ac_model v = ac_model c" "ac_base_url v = ac_base_url c" "ac_opts v = ac_opts c"
    "ac_drop_temperature v = ac_drop_temperature c" "ac_rejected_thinking v = ac_rejected_thinking c"
    "ac_rejected_effort v = ac_rejected_effort c" "ac_drop_auto_caching v = ac_drop_auto_caching c"
  shows "build_chat_request v req st = build_chat_request c req st"
proof -
  have "convert_tools v req = convert_tools c req" by (simp only: convert_tools_def assms)
  then have "base_request v req st = base_request c req st" by (simp only: base_request_def assms)
  moreover have "set_reasoning_effort v req a = set_reasoning_effort c req a" for a
    by (simp only: set_reasoning_effort_def assms)
  moreover have "add_auto_cache v req a = add_auto_cache c req a" for a
    by (simp only: add_auto_cache_def auto_caching_def assms)
  ultimately show ?thesis by (simp only: build_chat_request_def apply_reasoning_effort_def)
qed

abbreviation call_run :: "(bytes \<Rightarrow> a_error) \<Rightarrow> a_client \<times> shared_call \<Rightarrow> a_client \<times> shared_call \<Rightarrow> bool" where
  "call_run um \<equiv> (call_step um)\<^sup>*\<^sup>*"

text \<open>A call about to build a request, at a point of the sequential loop.\<close>

definition at_pass :: "extension chat_request \<Rightarrow> nat \<Rightarrow> 'w a_call \<Rightarrow> shared_call \<Rightarrow> bool" where
  "at_pass req n s k \<longleftrightarrow>
     sc_state k = ReadTemperature \<and> sc_req k = req \<and> sc_sends k = n \<and> sc_applied k = cl_applied s \<and>
     map snd (sc_sent k) = cl_sent s \<and> ac_model (sc_view k) = ac_model (cl_client s) \<and>
     ac_base_url (sc_view k) = ac_base_url (cl_client s) \<and> ac_opts (sc_view k) = ac_opts (cl_client s)"

definition ended :: "(go_error + chat_response) \<times> 'w a_call \<Rightarrow> shared_call \<Rightarrow> bool" where
  "ended r k \<longleftrightarrow> sc_state k = Returned (fst r) \<and> map snd (sc_sent k) = cl_sent (snd r)"

lemma log_split: "\<exists>es. ac_log c' = ac_log c @ es \<Longrightarrow> log_records (records c c') (under_lock c c') = c'"
  by (auto simp: log_records_def records_def under_lock_def)

lemma learns_log: "learns c c' \<Longrightarrow> log_records (records c c') (under_lock c c') = c'"
  by (rule log_split) (auto simp: learns_def)

lemma run_to_sending:
  fixes s :: "'w a_call"
  assumes "at_pass req n s k"
  defines "a \<equiv> omit_for_call (cl_applied s) (build_chat_request (cl_client s) req False)"
  shows "\<exists>k'. call_run um (cl_client s, k) (cl_client s, k') \<and> sc_state k' = Sending a \<and> sc_req k' = req \<and>
    sc_sends k' = n \<and> sc_applied k' = cl_applied s \<and> map snd (sc_sent k') = cl_sent s @ [a] \<and>
    ac_model (sc_view k') = ac_model (cl_client s) \<and> ac_base_url (sc_view k') = ac_base_url (cl_client s) \<and>
    ac_opts (sc_view k') = ac_opts (cl_client s)"
proof -
  let ?c = "cl_client s"
  let ?k1 = "read_temperature ?c k" and ?k2 = "read_effort ?c (read_temperature ?c k)"
  let ?k3 = "read_caching ?c (read_effort ?c (read_temperature ?c k))"
  note at = assms(1) [unfolded at_pass_def]
  have "call_step um (?c, k) (?c, ?k1)" using at by (intro call_step.temperature) simp
  moreover have "call_step um (?c, ?k1) (?c, ?k2)" by (rule call_step.effort) (simp add: read_temperature_def)
  moreover have "call_step um (?c, ?k2) (?c, ?k3)" by (rule call_step.caching) (simp add: read_effort_def)
  ultimately have "call_run um (?c, k) (?c, ?k3)"
    by (meson converse_rtranclp_into_rtranclp rtranclp.rtrancl_refl)
  moreover let ?v = "(sc_view ?k2)\<lparr>ac_drop_auto_caching := ac_drop_auto_caching ?c\<rparr>"
  have "build_chat_request ?v req False = build_chat_request ?c req False"
    by (rule build_settings) (use at in \<open>simp_all add: read_effort_def read_temperature_def\<close>)
  then have "sc_state ?k3 = Sending a \<and> sc_req ?k3 = req \<and> sc_sends ?k3 = n \<and> sc_applied ?k3 = cl_applied s \<and>
      map snd (sc_sent ?k3) = cl_sent s @ [a] \<and> ac_model (sc_view ?k3) = ac_model ?c \<and>
      ac_base_url (sc_view ?k3) = ac_base_url ?c \<and> ac_opts (sc_view ?k3) = ac_opts ?c"
    using at by (simp add: read_caching_def Let_def a_def read_effort_def read_temperature_def)
  ultimately show ?thesis by blast
qed

lemma retry_settings_kept:
  "retry_after_rejection um st body sent ap n c = (again, ap', c') \<Longrightarrow>
    ac_model c' = ac_model c \<and> ac_base_url c' = ac_base_url c \<and> ac_opts c' = ac_opts c"
  by (drule retry_learns) (simp add: learns_def)

lemma run_refused:
  assumes "sc_state k = Sending a" and "status < 200 \<or> 300 \<le> status"
    and "retry_after_rejection um status body a (sc_applied k) (sc_sends k) c = (again, ap, c')"
  shows "call_run um (c, k) (c', after_rejection um c' (k\<lparr>sc_applied := ap\<rparr>) again status body)"
proof -
  let ?k1 = "k\<lparr>sc_state := Adapting a status body\<rparr>"
  let ?k2 = "k\<lparr>sc_applied := ap, sc_state := LogRejection (records c c') again status body\<rparr>"
  have "call_step um (c, k) (c, ?k1)" using assms(1,2) by (rule call_step.refused)
  moreover have "call_step um (c, ?k1) (under_lock c c', ?k2)"
    using call_step.adapt [of ?k1 a status body um c] assms(3) by (simp add: adapt_call_def)
  moreover have "call_step um (under_lock c c', ?k2)
      (log_records (records c c') (under_lock c c'), after_rejection um (under_lock c c') ?k2 again status body)"
    by (rule call_step.log_rejection) simp
  moreover have "after_rejection um (under_lock c c') ?k2 again status body
      = after_rejection um c' (k\<lparr>sc_applied := ap\<rparr>) again status body"
    by (simp add: after_rejection_def under_lock_def anthropic_map_error_def)
  moreover note learns_log [OF retry_learns [OF assms(3)]]
  ultimately show ?thesis
    by (metis (no_types, lifting) converse_rtranclp_into_rtranclp rtranclp.rtrancl_refl)
qed

lemma run_accepted:
  assumes "sc_state k = Sending a" and "200 \<le> status" "status < 300" and "accepted status out"
  shows "\<exists>k'. call_run um (c, k)
      (case out of Inl e \<Rightarrow> confirm_adjustments (sc_applied k) c
       | Inr r \<Rightarrow> add_usage (confirm_adjustments (sc_applied k) c) (resp_usage r), k')
    \<and> sc_state k' = Returned out \<and> sc_sent k' = sc_sent k"
proof -
  let ?c' = "confirm_adjustments (sc_applied k) c"
  let ?k1 = "k\<lparr>sc_state := Confirming out\<rparr>" and ?k2 = "k\<lparr>sc_state := LogConfirmed (records c ?c') out\<rparr>"
  have "call_step um (c, k) (c, ?k1)" using assms by (rule call_step.answered)
  moreover have "call_step um (c, ?k1) (under_lock c ?c', ?k2)"
    using call_step.confirm [of ?k1 out um c] by (simp add: confirm_call_def Let_def)
  moreover have "call_step um (under_lock c ?c', ?k2) (?c', after_confirm ?k2 out)"
    using call_step.log_confirmed [of ?k2 "records c ?c'" out um "under_lock c ?c'"] learns_log [OF confirm_learns [of c "sc_applied k"]]
    by simp
  ultimately have run: "call_run um (c, k) (?c', after_confirm ?k2 out)"
    by (meson converse_rtranclp_into_rtranclp rtranclp.rtrancl_refl)
  show ?thesis
  proof (cases out)
    case (Inl e)
    with run show ?thesis by (intro exI [of _ "after_confirm ?k2 out"]) (simp add: after_confirm_def)
  next
    case (Inr r)
    let ?k3 = "(after_confirm ?k2 out)\<lparr>sc_state := Returned (Inr r)\<rparr>"
    have "call_step um (?c', after_confirm ?k2 out) (add_usage ?c' (resp_usage r), ?k3)"
      by (rule call_step.usage) (simp add: after_confirm_def Inr)
    with run have "call_run um (c, k) (add_usage ?c' (resp_usage r), ?k3)" by (rule rtranclp.rtrancl_into_rtrancl)
    with Inr show ?thesis by (intro exI [of _ ?k3]) (simp add: after_confirm_def)
  qed
qed

lemma run_pass:
  assumes "at_pass req n s k"
  shows "case chat_pass um post req n s of
      Inr s' \<Rightarrow> \<exists>k'. call_run um (cl_client s, k) (cl_client s', k') \<and> at_pass req (Suc n) s' k'
    | Inl r \<Rightarrow> \<exists>k'. call_run um (cl_client s, k) (cl_client (snd r), k') \<and> ended r k'"
proof -
  let ?c = "cl_client s"
  define a where "a = omit_for_call (cl_applied s) (build_chat_request ?c req False)"
  from run_to_sending [OF assms, of um, folded a_def] obtain k1 where
    k1: "call_run um (?c, k) (?c, k1)" "sc_state k1 = Sending a" "sc_req k1 = req" "sc_sends k1 = n"
      "sc_applied k1 = cl_applied s" "map snd (sc_sent k1) = cl_sent s @ [a]"
      "ac_model (sc_view k1) = ac_model ?c" "ac_base_url (sc_view k1) = ac_base_url ?c" "ac_opts (sc_view k1) = ac_opts ?c"
    by blast
  obtain jr resp w where p: "post a (cl_world s) = ((jr, resp), w)" by (metis surj_pair)
  let ?body = "case jr_body jr of None \<Rightarrow> [] | Some b \<Rightarrow> b" and ?status = "jr_status jr"
  consider (failed) e where "jr_status jr = 0" "jr_err jr = Some e"
    | (refused) "jr_status jr < 200 \<or> 300 \<le> jr_status jr" "(if jr_status jr = 0 then jr_err jr else None) = None"
    | (accepted) "200 \<le> jr_status jr" "jr_status jr < 300"
    by (cases "jr_err jr"; cases "jr_status jr < 200 \<or> 300 \<le> jr_status jr"; cases "jr_status jr = 0") auto
  then show ?thesis
  proof cases
    case failed
    have "call_step um (?c, k1) (?c, k1\<lparr>sc_state := Returned (Inl e)\<rparr>)" using k1(2) by (rule call_step.failed)
    with k1(1) have "call_run um (?c, k) (?c, k1\<lparr>sc_state := Returned (Inl e)\<rparr>)" by (rule rtranclp.rtrancl_into_rtrancl)
    with k1(6) failed show ?thesis
      by (auto simp: chat_pass_def Let_def p a_def [symmetric] ended_def)
  next
    case refused
    obtain again ap c' where r: "retry_after_rejection um ?status ?body a (cl_applied s) n ?c = (again, ap, c')"
      by (metis prod_cases3)
    with run_refused [OF k1(2) refused(1), of um ?body ?c] k1(1,4,5)
    have "call_run um (?c, k) (c', after_rejection um c' (k1\<lparr>sc_applied := ap\<rparr>) again ?status ?body)"
      by (metis rtranclp_trans)
    with refused r k1 retry_settings_kept [OF r] show ?thesis
      by (cases again) (auto simp: chat_pass_def Let_def p a_def [symmetric] ended_def at_pass_def after_rejection_def)
  next
    case accepted
    define out where "out = (case jr_err jr of Some e \<Rightarrow> Inl (anthropic_decode_error ?status e)
      | None \<Rightarrow> Inr (parse_chat_response resp))"
    have "accepted ?status out" by (auto simp: out_def intro: accepted.intros split: option.split)
    from run_accepted [OF k1(2) accepted this, of um ?c] k1(1,5) obtain k2 where
      "call_run um (?c, k) (case out of Inl e \<Rightarrow> confirm_adjustments (cl_applied s) ?c
         | Inr r \<Rightarrow> add_usage (confirm_adjustments (cl_applied s) ?c) (resp_usage r), k2)"
      "sc_state k2 = Returned out" "sc_sent k2 = sc_sent k1"
      by (metis rtranclp_trans)
    with accepted k1(6) show ?thesis
      by (cases "jr_err jr") (auto simp: chat_pass_def Let_def p a_def [symmetric] ended_def out_def)
  qed
qed



end
