(* ===== verification/Floats.thy ===== *)
theory Floats
  imports Complex_Main Halfvec LlmTypes "HOL-Library.Log_Nat"
begin

text \<open>
  IEEE-754 arithmetic as Go's \<open>float32\<close> and \<open>float64\<close> have it: an operation is the exact result,
  rounded to the nearest number of the format, ties to even. A finite number is its sign and a
  count of the format's least positive number, \<open>2^(-149)\<close> or \<open>2^(-1074)\<close>, so every exact
  result the operations round is a fraction of natural numbers, or a square root of one.
\<close>

subsection \<open>Rounding\<close>

text \<open>
  Rounding \<open>num / den\<close> to \<open>p\<close> bits: the numbers of a format are all multiples of one below
  \<open>2^p\<close>, and multiples of \<open>2^k\<close> between \<open>2^(p+k-1)\<close> and \<open>2^(p+k)\<close>.
\<close>

definition step_exp :: "nat \<Rightarrow> nat \<Rightarrow> nat" where
  "step_exp p q = floorlog 2 q - p"

definition round_units :: "nat \<Rightarrow> nat \<Rightarrow> nat \<Rightarrow> nat" where
  "round_units p num den =
     (let k = step_exp p (num div den) in round_half_even num (den * 2 ^ k) * 2 ^ k)"

datatype fp = NotANumber | Infinity bool | Finite bool nat

text \<open>The numbers of a format with \<open>p\<close> bits stay below \<open>2^emax\<close>.\<close>

definition fp_round :: "nat \<Rightarrow> nat \<Rightarrow> bool \<Rightarrow> nat \<Rightarrow> nat \<Rightarrow> fp" where
  "fp_round p emax s num den =
     (let u = round_units p num den in if u < 2 ^ emax then Finite s u else Infinity s)"

definition round64 :: "bool \<Rightarrow> nat \<Rightarrow> nat \<Rightarrow> fp" where
  "round64 = fp_round 53 2098"

definition round32 :: "bool \<Rightarrow> nat \<Rightarrow> nat \<Rightarrow> fp" where
  "round32 = fp_round 24 277"

fun isqrt :: "nat \<Rightarrow> nat" where
  "isqrt n = (if n = 0 then 0 else let s = 2 * isqrt (n div 4) in if (s + 1)\<^sup>2 \<le> n then s + 1 else s)"

declare isqrt.simps [simp del]

subsection \<open>Arithmetic on \<open>float64\<close>\<close>

definition fp_value :: "bool \<Rightarrow> nat \<Rightarrow> int" where
  "fp_value s u = (if s then - int u else int u)"

fun fp_add :: "fp \<Rightarrow> fp \<Rightarrow> fp" where
  "fp_add (Finite s a) (Finite t b) =
     (let v = fp_value s a + fp_value t b in round64 (if v = 0 then s \<and> t else v < 0) (nat \<bar>v\<bar>) 1)"
| "fp_add (Infinity s) (Infinity t) = (if s = t then Infinity s else NotANumber)"
| "fp_add (Infinity s) (Finite t b) = Infinity s"
| "fp_add (Finite s a) (Infinity t) = Infinity t"
| "fp_add NotANumber y = NotANumber"
| "fp_add x NotANumber = NotANumber"

fun fp_mul :: "fp \<Rightarrow> fp \<Rightarrow> fp" where
  "fp_mul (Finite s a) (Finite t b) = round64 (s \<noteq> t) (a * b) (2 ^ 1074)"
| "fp_mul (Infinity s) (Infinity t) = Infinity (s \<noteq> t)"
| "fp_mul (Infinity s) (Finite t b) = (if b = 0 then NotANumber else Infinity (s \<noteq> t))"
| "fp_mul (Finite s a) (Infinity t) = (if a = 0 then NotANumber else Infinity (s \<noteq> t))"
| "fp_mul NotANumber y = NotANumber"
| "fp_mul x NotANumber = NotANumber"

fun fp_div :: "fp \<Rightarrow> fp \<Rightarrow> fp" where
  "fp_div (Finite s a) (Finite t b) =
     (if b = 0 then (if a = 0 then NotANumber else Infinity (s \<noteq> t))
      else round64 (s \<noteq> t) (a * 2 ^ 1074) b)"
| "fp_div (Infinity s) (Infinity t) = NotANumber"
| "fp_div (Infinity s) (Finite t b) = Infinity (s \<noteq> t)"
| "fp_div (Finite s a) (Infinity t) = Finite (s \<noteq> t) 0"
| "fp_div NotANumber y = NotANumber"
| "fp_div x NotANumber = NotANumber"

text \<open>
  \<open>math.Sqrt\<close>. The root of \<open>n\<close> units has \<open>isqrt (n * 2^1074)\<close> whole units; when that is not exact,
  the root rounds like any number between this one and the next, such as the one half way.
\<close>

fun fp_sqrt :: "fp \<Rightarrow> fp" where
  "fp_sqrt (Finite s a) =
     (if a = 0 then Finite s 0
      else if s then NotANumber
      else let n = a * 2 ^ 1074; r = isqrt n
           in if r\<^sup>2 = n then round64 False r 1 else round64 False (2 * r + 1) 2)"
| "fp_sqrt (Infinity s) = (if s then NotANumber else Infinity False)"
| "fp_sqrt NotANumber = NotANumber"

text \<open>The conversions, by the units of the two formats.\<close>

fun widen :: "fp \<Rightarrow> fp" where
  "widen (Finite s a) = Finite s (a * 2 ^ 925)"
| "widen x = x"

fun narrow :: "fp \<Rightarrow> fp" where
  "narrow (Finite s a) = round32 s a (2 ^ 925)"
| "narrow x = x"

subsection \<open>Bit patterns\<close>

text \<open>
  A format with \<open>m\<close> bits of mantissa and \<open>x\<close> bits of exponent. Consecutive patterns are
  consecutive numbers. The pattern of a NaN that an operation makes is not Go's to say; it is
  the quiet one here.
\<close>

definition fp_decode :: "nat \<Rightarrow> nat \<Rightarrow> nat \<Rightarrow> fp" where
  "fp_decode m x b =
     (let s = odd (b div 2 ^ (m + x)); e = b div 2 ^ m mod 2 ^ x; f = b mod 2 ^ m
      in if e = 2 ^ x - 1 then (if f = 0 then Infinity s else NotANumber)
         else Finite s (if e = 0 then f else (2 ^ m + f) * 2 ^ (e - 1)))"

fun fp_encode :: "nat \<Rightarrow> nat \<Rightarrow> fp \<Rightarrow> nat" where
  "fp_encode m x NotANumber = (2 ^ x - 1) * 2 ^ m + 2 ^ (m - 1)"
| "fp_encode m x (Infinity s) = of_bool s * 2 ^ (m + x) + (2 ^ x - 1) * 2 ^ m"
| "fp_encode m x (Finite s u) =
     of_bool s * 2 ^ (m + x) + step_exp (m + 1) u * 2 ^ m + u div 2 ^ step_exp (m + 1) u"

definition of_f32 :: "f32 \<Rightarrow> fp" where
  "of_f32 b = fp_decode 23 8 (unat b)"

definition of_f64 :: "f64 \<Rightarrow> fp" where
  "of_f64 b = fp_decode 52 11 (unat b)"

definition to_f32 :: "fp \<Rightarrow> f32" where
  "to_f32 v = of_nat (fp_encode 23 8 v)"

subsection \<open>Rounding to the nearest\<close>

lemma round_half_even_near:
  assumes "0 < d"
  shows "\<bar>real (round_half_even n d) - real n / real d\<bar> \<le> 1 / 2"
proof -
  have n: "real n = real (n div d) * real d + real (n mod d)" by (metis div_mult_mod_eq of_nat_add of_nat_mult)
  have r: "n mod d < d" using assms by simp
  show ?thesis
  proof (cases "d < 2 * (n mod d) \<or> (2 * (n mod d) = d \<and> odd (n div d))")
    case True
    then have "round_half_even n d = n div d + 1" by (simp add: round_half_even_def)
    moreover have "real d \<le> 2 * real (n mod d)" using True by linarith
    ultimately show ?thesis using assms r n by (simp add: field_simps abs_le_iff)
  next
    case False
    then have "round_half_even n d = n div d" by (auto simp: round_half_even_def)
    moreover have "2 * real (n mod d) \<le> real d" using False by linarith
    ultimately show ?thesis using assms n by (simp add: field_simps abs_le_iff)
  qed
qed

lemma round_half_even_dvd: "0 < d \<Longrightarrow> round_half_even (a * d) d = a"
  by (simp add: round_half_even_def)

lemma round_half_even_le_nat:
  assumes "0 < d" and "n \<le> a * d"
  shows "round_half_even n d \<le> a"
proof -
  have "real n / real d \<le> real a" using assms by (simp add: field_simps) (metis of_nat_le_iff of_nat_mult)
  with round_half_even_near [OF assms(1), of n] have "real (round_half_even n d) \<le> real a + 1 / 2" by linarith
  then show ?thesis by linarith
qed

lemma round_half_even_ge_nat:
  assumes "0 < d" and "a * d \<le> n"
  shows "a \<le> round_half_even n d"
proof -
  have "real a \<le> real n / real d" using assms by (simp add: field_simps) (metis of_nat_le_iff of_nat_mult)
  with round_half_even_near [OF assms(1), of n] have "real a - 1 / 2 \<le> real (round_half_even n d)" by linarith
  then show ?thesis by linarith
qed

lemma step_bounds:
  "0 < step_exp p q \<Longrightarrow> 2 ^ (p + step_exp p q - 1) \<le> q" "q < 2 ^ (p + step_exp p q)"
proof -
  show "0 < step_exp p q \<Longrightarrow> 2 ^ (p + step_exp p q - 1) \<le> q"
    using floorlog_bounds [of q 2] by (cases "q = 0") (auto simp: step_exp_def floorlog_def)
  show "q < 2 ^ (p + step_exp p q)"
    by (rule floorlog_leD) (simp_all add: step_exp_def)
qed

lemma step_least: "q < 2 ^ (p + k) \<Longrightarrow> step_exp p q \<le> k"
  using floorlog_leI [of q 2 "p + k"] by (simp add: step_exp_def)

lemma div_real_bounds:
  assumes "0 < den"
  shows "real (num div den) \<le> real num / real den" "real num / real den < real (num div den) + 1"
proof -
  have "num = num div den * den + num mod den" "num mod den < den" using assms by simp_all
  then have "real num = real (num div den) * real den + real (num mod den)" by (metis of_nat_add of_nat_mult)
  with \<open>num mod den < den\<close> assms show "real (num div den) \<le> real num / real den"
    "real num / real den < real (num div den) + 1"
    by (auto simp: field_simps)
qed

lemma round_units_near_step:
  assumes "0 < den"
  shows "\<bar>real (round_units p num den) - real num / real den\<bar> \<le> 2 ^ step_exp p (num div den) / 2"
proof -
  define c :: nat where "c = 2 ^ step_exp p (num div den)"
  define a where "a = round_half_even num (den * c)"
  have c: "0 < c" by (simp add: c_def)
  have "\<bar>real a - real num / real (den * c)\<bar> \<le> 1 / 2"
    unfolding a_def using assms c by (intro round_half_even_near) simp
  then have "\<bar>real a - real num / real (den * c)\<bar> * real c \<le> 1 / 2 * real c"
    by (rule mult_right_mono) simp
  moreover have "\<bar>real a - real num / real (den * c)\<bar> * real c = \<bar>real a * real c - real num / real den\<bar>"
  proof -
    have "(real a - real num / real (den * c)) * real c = real a * real c - real num / real den"
      using assms c by (simp add: left_diff_distrib)
    then show ?thesis by (metis abs_mult abs_of_nat)
  qed
  ultimately have "\<bar>real a * real c - real num / real den\<bar> \<le> 1 / 2 * real c" by linarith
  then show ?thesis by (simp add: round_units_def Let_def a_def c_def)
qed

lemma power_le_div: "2 ^ p * c \<le> v \<Longrightarrow> c \<le> v / (2 :: real) ^ p"
  by (simp add: pos_le_divide_eq mult.commute)

text \<open>The rounding error: half a unit, or a relative one for what has \<open>p\<close> bits.\<close>

lemma round_units_near:
  assumes "0 < den"
  shows "\<bar>real (round_units p num den) - real num / real den\<bar> \<le> real num / real den / 2 ^ p + 1 / 2"
proof (cases "step_exp p (num div den)")
  case 0
  have "\<bar>real (round_units p num den) - real num / real den\<bar> \<le> 1 / 2"
    using round_units_near_step [OF assms, of p num] 0 by simp
  moreover have "0 \<le> real num / real den / 2 ^ p" by simp
  ultimately show ?thesis by linarith
next
  case (Suc k)
  then have "real (2 ^ (p + k)) \<le> real (num div den)" using step_bounds(1) [of p "num div den"] by (simp only: of_nat_le_iff) simp
  then have "2 ^ p * 2 ^ k \<le> real num / real den"
    using div_real_bounds(1) [OF assms, of num] by (simp add: power_add)
  then have "2 ^ k \<le> real num / real den / 2 ^ p" by (rule power_le_div)
  with round_units_near_step [OF assms, of p num] Suc show ?thesis by simp
qed

lemma round_units_relative:
  assumes "0 < den" and "2 ^ (p - 1) * den \<le> num" and "0 < p"
  shows "\<bar>real (round_units p num den) - real num / real den\<bar> \<le> real num / real den / 2 ^ p"
proof -
  have "real (2 ^ (p - 1) * den) \<le> real num" using assms(2) by (simp only: of_nat_le_iff)
  then have v: "2 ^ (p - 1) \<le> real num / real den" using assms(1) by (simp add: field_simps)
  show ?thesis
  proof (cases "step_exp p (num div den)")
    case 0
    have "(2 :: real) ^ p = 2 * 2 ^ (p - 1)" using assms(3) by (cases p) simp_all
    then have "2 ^ p * (1 / 2) \<le> real num / real den" using v by simp
    then have "1 / 2 \<le> real num / real den / 2 ^ p" by (rule power_le_div)
    moreover have "\<bar>real (round_units p num den) - real num / real den\<bar> \<le> 1 / 2"
      using round_units_near_step [OF assms(1), of p num] 0 by simp
    ultimately show ?thesis by linarith
  next
    case (Suc k)
    then have "real (2 ^ (p + k)) \<le> real (num div den)" using step_bounds(1) [of p "num div den"] by (simp only: of_nat_le_iff) simp
    then have "2 ^ p * 2 ^ k \<le> real num / real den"
      using div_real_bounds(1) [OF assms(1), of num] by (simp add: power_add)
    then have "2 ^ k \<le> real num / real den / 2 ^ p" by (rule power_le_div)
    with round_units_near_step [OF assms(1), of p num] Suc show ?thesis by simp
  qed
qed

text \<open>The numbers of a format, and that rounding to one is monotone there.\<close>

definition representable :: "nat \<Rightarrow> nat \<Rightarrow> bool" where
  "representable p u \<longleftrightarrow> 2 ^ step_exp p u dvd u"

lemma representable_power: "m \<le> 2 ^ p \<Longrightarrow> 0 < p \<Longrightarrow> representable p (m * 2 ^ k)"
proof (cases "m = 2 ^ p")
  case True
  assume "0 < p"
  have "step_exp p (2 ^ p * 2 ^ k) \<le> k + 1"
    by (rule step_least) (simp add: power_add)
  then have "(2::nat) ^ step_exp p (2 ^ p * 2 ^ k) dvd 2 ^ (p + k)" using \<open>0 < p\<close> by (intro le_imp_power_dvd) simp
  with True show ?thesis by (simp add: representable_def power_add)
next
  case False
  assume "m \<le> 2 ^ p"
  with False have "m * 2 ^ k < 2 ^ (p + k)" by (simp add: power_add)
  then have "step_exp p (m * 2 ^ k) \<le> k" by (rule step_least)
  then have "(2::nat) ^ step_exp p (m * 2 ^ k) dvd 2 ^ k" by (rule le_imp_power_dvd)
  then show ?thesis by (simp add: representable_def)
qed

lemma representable_dvd:
  assumes "representable p u" and "2 ^ (p + k - 1) \<le> u" and "0 < p"
  shows "2 ^ k dvd u"
proof (cases "k \<le> step_exp p u")
  case True
  then have "(2::nat) ^ k dvd 2 ^ step_exp p u" by (rule le_imp_power_dvd)
  with assms(1) show ?thesis unfolding representable_def by (rule dvd_trans [rotated])
next
  case False
  have "p + step_exp p u \<le> p + k - 1" using False by simp
  then have "(2::nat) ^ (p + step_exp p u) \<le> 2 ^ (p + k - 1)" by (rule power_increasing) simp
  with step_bounds(2) [of u p] assms(2) show ?thesis by linarith
qed

lemma round_units_representable:
  assumes "0 < den" and "0 < p"
  shows "representable p (round_units p num den)"
proof -
  let ?k = "step_exp p (num div den)"
  have "num div den < 2 ^ (p + ?k)" by (rule step_bounds(2))
  then have "num < 2 ^ (p + ?k) * den" using assms(1) by (simp add: div_less_iff_less_mult)
  then have "num \<le> 2 ^ p * (den * 2 ^ ?k)" by (simp add: power_add ac_simps)
  then have "round_half_even num (den * 2 ^ ?k) \<le> 2 ^ p" using assms(1) by (intro round_half_even_le_nat) simp_all
  then show ?thesis by (simp add: round_units_def Let_def representable_power assms(2))
qed

lemma round_units_le:
  assumes "0 < den" "0 < p" and "representable p b" and "num \<le> b * den"
  shows "round_units p num den \<le> b"
proof -
  let ?k = "step_exp p (num div den)"
  have "2 ^ ?k dvd b"
  proof (cases "?k = 0")
    case False
    then have "2 ^ (p + ?k - 1) \<le> num div den" using step_bounds(1) by simp
    also have "\<dots> \<le> b" using assms(1,4) by (metis div_le_mono div_mult_self_is_m)
    finally show ?thesis using representable_dvd assms(2,3) by blast
  qed simp
  then obtain a where a: "b = a * 2 ^ ?k" by (metis dvdE mult.commute)
  with assms(4) have "num \<le> a * (den * 2 ^ ?k)" by (simp add: ac_simps)
  then have "round_half_even num (den * 2 ^ ?k) \<le> a" using assms(1) by (intro round_half_even_le_nat) simp_all
  with a show ?thesis by (simp add: round_units_def Let_def)
qed

lemma round_units_ge:
  assumes "0 < den" "0 < p" and "representable p b" and "b * den \<le> num"
  shows "b \<le> round_units p num den"
proof -
  let ?k = "step_exp p (num div den)"
  show ?thesis
  proof (cases "2 ^ (p + ?k - 1) \<le> b \<or> ?k = 0")
    case True
    then have "2 ^ ?k dvd b" using representable_dvd assms(2,3) by auto
    then obtain a where a: "b = a * 2 ^ ?k" by (metis dvdE mult.commute)
    with assms(4) have "a * (den * 2 ^ ?k) \<le> num" by (simp add: ac_simps)
    then have "a \<le> round_half_even num (den * 2 ^ ?k)" using assms(1) by (intro round_half_even_ge_nat) simp_all
    with a show ?thesis by (simp add: round_units_def Let_def)
  next
    case False
    then have "2 ^ (p + ?k - 1) \<le> num div den" using step_bounds(1) by simp
    then have "2 ^ (p + ?k - 1) * den \<le> num" using assms(1) by (simp add: less_eq_div_iff_mult_less_eq)
    moreover have "(2::nat) ^ (p + ?k - 1) = 2 ^ (p - 1) * 2 ^ ?k" using assms(2) by (cases p) (simp_all add: power_add)
    ultimately have "2 ^ (p - 1) * (den * 2 ^ ?k) \<le> num" by (simp add: ac_simps)
    then have "2 ^ (p - 1) \<le> round_half_even num (den * 2 ^ ?k)" using assms(1) by (intro round_half_even_ge_nat) simp_all
    then have "2 ^ (p + ?k - 1) \<le> round_units p num den"
      using \<open>(2::nat) ^ (p + ?k - 1) = 2 ^ (p - 1) * 2 ^ ?k\<close> by (simp add: round_units_def Let_def)
    with False show ?thesis by linarith
  qed
qed

lemma round_units_exact:
  "representable p u \<Longrightarrow> 0 < p \<Longrightarrow> 0 < den \<Longrightarrow> round_units p (u * den) den = u"
  by (intro antisym round_units_le round_units_ge) simp_all

text \<open>Rounding gives a nearest number of the format.\<close>

lemma round_half_even_nearest:
  assumes "0 < d"
  shows "\<bar>real (round_half_even n d) - real n / real d\<bar> \<le> \<bar>real c - real n / real d\<bar>"
proof (cases "c = round_half_even n d")
  case False
  then have "1 \<le> \<bar>real c - real (round_half_even n d)\<bar>" by linarith
  with round_half_even_near [OF assms, of n] show ?thesis by linarith
qed simp

lemma round_units_nearest_multiple:
  assumes "0 < den" and "2 ^ step_exp p (num div den) dvd b"
  shows "\<bar>real (round_units p num den) - real num / real den\<bar> \<le> \<bar>real b - real num / real den\<bar>"
proof -
  define c :: nat where "c = 2 ^ step_exp p (num div den)"
  define a where "a = round_half_even num (den * c)"
  obtain m where m: "b = m * c" using assms(2) by (metis c_def dvdE mult.commute)
  have c: "0 < c" by (simp add: c_def)
  have eq: "\<bar>real x * real c - real num / real den\<bar> = \<bar>real x - real num / real (den * c)\<bar> * real c" for x
  proof -
    have "(real x - real num / real (den * c)) * real c = real x * real c - real num / real den"
      using assms(1) c by (simp add: left_diff_distrib)
    then show ?thesis by (metis abs_mult abs_of_nat)
  qed
  have "\<bar>real a - real num / real (den * c)\<bar> \<le> \<bar>real m - real num / real (den * c)\<bar>"
    unfolding a_def using assms(1) c by (intro round_half_even_nearest) simp
  then have "\<bar>real a * real c - real num / real den\<bar> \<le> \<bar>real m * real c - real num / real den\<bar>"
    unfolding eq by (rule mult_right_mono) simp
  then show ?thesis by (simp add: round_units_def Let_def a_def c_def m)
qed

lemma round_units_nearest:
  assumes "0 < den" "0 < p" and "representable p b"
  shows "\<bar>real (round_units p num den) - real num / real den\<bar> \<le> \<bar>real b - real num / real den\<bar>"
proof (cases "2 ^ step_exp p (num div den) dvd b")
  case True
  with assms(1) show ?thesis by (rule round_units_nearest_multiple)
next
  case False
  let ?k = "step_exp p (num div den)"
  from False have k: "0 < ?k" by (cases "?k = 0") auto
  have "b < 2 ^ (p + ?k - 1)" using False representable_dvd [OF assms(3) _ assms(2)] by (meson leI)
  then have "real b \<le> real (2 ^ (p + ?k - 1))" by (simp only: of_nat_le_iff)
  moreover have "real (2 ^ (p + ?k - 1)) \<le> real num / real den"
    using step_bounds(1) [OF k] div_real_bounds(1) [OF assms(1), of num] by (meson of_nat_le_iff order_trans)
  moreover have "\<bar>real (round_units p num den) - real num / real den\<bar> \<le> \<bar>real (2 ^ (p + ?k - 1)) - real num / real den\<bar>"
    using assms(1,2) by (intro round_units_nearest_multiple le_imp_power_dvd) simp_all
  ultimately show ?thesis by linarith
qed

subsection \<open>The integer root\<close>

lemma isqrt_bounds: "(isqrt n)\<^sup>2 \<le> n \<and> n < (isqrt n + 1)\<^sup>2"
proof (induction n rule: isqrt.induct)
  case (1 n)
  show ?case
  proof (cases "n = 0")
    case False
    define s where "s = isqrt (n div 4)"
    from 1 False have s: "s\<^sup>2 \<le> n div 4" "n div 4 < (s + 1)\<^sup>2" by (simp_all add: s_def)
    then have "4 * s\<^sup>2 \<le> n" "n < 4 * (s + 1)\<^sup>2" by linarith+
    then have "(2 * s)\<^sup>2 \<le> n" "n < (2 * s + 2)\<^sup>2" by (simp_all add: power2_eq_square algebra_simps)
    moreover have "isqrt n = (if (2 * s + 1)\<^sup>2 \<le> n then 2 * s + 1 else 2 * s)"
      using False by (subst isqrt.simps) (simp add: Let_def s_def)
    ultimately show ?thesis by auto
  qed (simp add: isqrt.simps)
qed

lemma isqrt_real: "real (isqrt n) \<le> sqrt (real n)" "sqrt (real n) < real (isqrt n) + 1"
proof -
  have "real ((isqrt n)\<^sup>2) \<le> real n" using isqrt_bounds [of n] by (simp only: of_nat_le_iff)
  then show "real (isqrt n) \<le> sqrt (real n)" by (simp add: real_le_rsqrt)
  have "real n < real ((isqrt n + 1)\<^sup>2)" using isqrt_bounds [of n] by (simp only: of_nat_less_iff)
  then have "sqrt (real n) < sqrt ((real (isqrt n + 1))\<^sup>2)" by (intro real_sqrt_less_mono) simp
  then show "sqrt (real n) < real (isqrt n) + 1" by simp
qed

lemma isqrt_ge:
  assumes "a\<^sup>2 \<le> n"
  shows "a \<le> isqrt n"
proof -
  have "a\<^sup>2 < (isqrt n + 1)\<^sup>2" using assms isqrt_bounds [of n] by linarith
  then show ?thesis using power_less_imp_less_base [of a 2 "isqrt n + 1"] by simp
qed

end
