(* ===== verification/Vec.thy ===== *)
theory Vec
  imports Floats
begin

text \<open>
  \<open>Float64ToFloat32\<close> and \<open>Normalize\<close> of \<open>llm/vec/vec.go\<close>, on the bit patterns of the numbers, with
  what they promise stated over the real numbers the patterns stand for. A nil slice is \<open>None\<close>.
\<close>

definition float64_to_float32 :: "f64 list option \<Rightarrow> f32 list option" where
  "float64_to_float32 v = map_option (map (\<lambda>x. to_f32 (narrow (of_f64 x)))) v"

fun fp_zero :: "fp \<Rightarrow> bool" where
  "fp_zero (Finite s u) = (u = 0)"
| "fp_zero _ = False"

text \<open>
  The compiler may fuse the product and the sum of the loop into one rounding; the product of
  two numbers of 24 bits is exact in 53 (\<open>square_exact\<close>), so the sum is the same.
\<close>

definition sum_squares :: "f32 list \<Rightarrow> fp" where
  "sum_squares xs =
     foldl (\<lambda>sum x. fp_add sum (fp_mul (widen (of_f32 x)) (widen (of_f32 x)))) (Finite False 0) xs"

definition normalize :: "f32 list option \<Rightarrow> f32 list option" where
  "normalize v =
     map_option
       (\<lambda>xs. let sum_sq = sum_squares xs in
         if fp_zero sum_sq then replicate (length xs) 0
         else let norm = fp_sqrt sum_sq
              in map (\<lambda>x. to_f32 (narrow (fp_div (widen (of_f32 x)) norm))) xs) v"

subsection \<open>Patterns and numbers\<close>

definition fp_ok :: "nat \<Rightarrow> nat \<Rightarrow> fp \<Rightarrow> bool" where
  "fp_ok p emax v = (case v of Finite s u \<Rightarrow> u < 2 ^ emax \<and> representable p u | _ \<Rightarrow> True)"

lemma decode_ok:
  assumes "0 < m" and "emax = m + 2 ^ x - 2" and "1 < x"
  shows "fp_ok (m + 1) emax (fp_decode m x b)"
proof -
  define e f where "e = b div 2 ^ m mod 2 ^ x" and "f = b mod 2 ^ m"
  have f: "f < 2 ^ m" and e: "e < 2 ^ x" by (simp_all add: e_def f_def)
  have x: "(4::nat) \<le> 2 ^ x" using power_increasing [of 2 x "2::nat"] assms(3) by simp
  have small: "f < 2 ^ emax \<and> representable (m + 1) f"
  proof
    have "(2::nat) ^ m \<le> 2 ^ emax" using x by (intro power_increasing) (simp_all add: assms(2))
    with f show "f < 2 ^ emax" by (rule less_le_trans)
    show "representable (m + 1) f" using representable_power [of f "m + 1" 0] f by simp
  qed
  have big: "(2 ^ m + f) * 2 ^ (e - 1) < 2 ^ emax \<and> representable (m + 1) ((2 ^ m + f) * 2 ^ (e - 1))" if "e \<noteq> 2 ^ x - 1"
  proof
    have "(2 ^ m + f) * 2 ^ (e - 1) < 2 ^ (m + 1) * 2 ^ (e - 1)" using f by simp
    also have "\<dots> = (2 :: nat) ^ (m + 1 + (e - 1))" by (simp add: power_add)
    also have "\<dots> \<le> 2 ^ emax" using that e x assms(1) by (intro power_increasing) (auto simp: assms(2))
    finally show "(2 ^ m + f) * 2 ^ (e - 1) < 2 ^ emax" .
    show "representable (m + 1) ((2 ^ m + f) * 2 ^ (e - 1))" using f by (intro representable_power) simp_all
  qed
  have "fp_decode m x b = (if e = 2 ^ x - 1 then (if f = 0 then Infinity (odd (b div 2 ^ (m + x))) else NotANumber)
      else Finite (odd (b div 2 ^ (m + x))) (if e = 0 then f else (2 ^ m + f) * 2 ^ (e - 1)))"
    by (simp only: fp_decode_def Let_def e_def f_def)
  with small big show ?thesis
    by (cases "e = 2 ^ x - 1"; cases "e = 0"; cases "f = 0") (simp_all only: fp_ok_def if_True if_False fp.case simp_thms)
qed

lemma of_f32_ok: "fp_ok 24 277 (of_f32 b)"
  using decode_ok [of 23 277 8] by (simp add: of_f32_def)

lemma of_f64_ok: "fp_ok 53 2098 (of_f64 b)"
  using decode_ok [of 52 2098 11] by (simp add: of_f64_def)

text \<open>Reading back a pattern that was made for a number.\<close>

lemma encode_fields:
  assumes "fp_ok (m + 1) (m + 2 ^ x - 2) (Finite s u)" and "0 < m" "1 < x"
  defines "k \<equiv> step_exp (m + 1) u"
  shows "k * 2 ^ m + u div 2 ^ k < (2 ^ x - 1) * 2 ^ m"
    and "(if (k * 2 ^ m + u div 2 ^ k) div 2 ^ m = 0 then (k * 2 ^ m + u div 2 ^ k) mod 2 ^ m
      else (2 ^ m + (k * 2 ^ m + u div 2 ^ k) mod 2 ^ m) * 2 ^ ((k * 2 ^ m + u div 2 ^ k) div 2 ^ m - 1)) = u"
proof -
  from assms(1) have u: "u < 2 ^ (m + 2 ^ x - 2)" and r: "2 ^ k dvd u"
    by (simp_all add: fp_ok_def representable_def k_def)
  define d where "d = u div 2 ^ k"
  have ud: "u = d * 2 ^ k" using r by (simp add: d_def)
  have d: "d < 2 ^ (m + 1)"
    using step_bounds(2) [of u "m + 1"] by (simp add: d_def k_def div_less_iff_less_mult power_add ac_simps)
  have low: "2 ^ m \<le> d" if "0 < k"
  proof -
    from step_bounds(1) [of "m + 1" u] that have "2 ^ (m + k) \<le> u" by (simp add: k_def)
    then have "2 ^ m * 2 ^ k \<le> d * 2 ^ k" by (simp add: ud power_add)
    then show ?thesis by simp
  qed
  have x: "(4::nat) \<le> 2 ^ x" using power_increasing [of 2 x "2::nat"] assms(3) by simp
  have kx: "k + 2 < 2 ^ x"
  proof (cases "k = 0")
    case False
    then have "2 ^ (m + k) \<le> u" using step_bounds(1) [of "m + 1" u] by (simp add: k_def)
    then have "(2::nat) ^ (m + k) < 2 ^ (m + 2 ^ x - 2)" using u by (rule le_less_trans)
    then have "m + k < m + 2 ^ x - 2" by (rule power_less_imp_less_exp [rotated]) simp
    then show ?thesis by simp
  qed (use x in simp)
  have "(k + 2) * 2 ^ m \<le> (2 ^ x - 1) * 2 ^ m" using kx by (intro mult_le_mono1) linarith
  then show "k * 2 ^ m + u div 2 ^ k < (2 ^ x - 1) * 2 ^ m" using d by (simp add: d_def add_mult_distrib)
  show "(if (k * 2 ^ m + u div 2 ^ k) div 2 ^ m = 0 then (k * 2 ^ m + u div 2 ^ k) mod 2 ^ m
      else (2 ^ m + (k * 2 ^ m + u div 2 ^ k) mod 2 ^ m) * 2 ^ ((k * 2 ^ m + u div 2 ^ k) div 2 ^ m - 1)) = u"
  proof (cases "2 ^ m \<le> d")
    case True
    then have "d div 2 ^ m = 1" "d mod 2 ^ m = d - 2 ^ m"
      using d by (simp_all add: div_nat_eqI mod_nat_eqI le_mod_geq)
    then show ?thesis using True by (simp add: d_def [symmetric] ud)
  next
    case False
    with low have "k = 0" by auto
    with False show ?thesis by (simp add: d_def)
  qed
qed

lemma decode_encode:
  assumes "fp_ok (m + 1) (m + 2 ^ x - 2) (Finite s u)" and "0 < m" "1 < x"
  shows "fp_decode m x (fp_encode m x (Finite s u)) = Finite s u" and "fp_encode m x (Finite s u) < 2 ^ (m + x + 1)"
proof -
  define r where "r = step_exp (m + 1) u * 2 ^ m + u div 2 ^ step_exp (m + 1) u"
  note fields = encode_fields [OF assms, folded r_def]
  have b: "fp_encode m x (Finite s u) = of_bool s * 2 ^ (m + x) + r" by (simp add: r_def)
  have "(2 ^ x - 1) * 2 ^ m \<le> (2 :: nat) ^ (m + x)" by (simp add: power_add)
  with fields(1) have r: "r < 2 ^ (m + x)" by (rule less_le_trans)
  then show "fp_encode m x (Finite s u) < 2 ^ (m + x + 1)" unfolding b by (cases s) simp_all
  have sign: "odd ((of_bool s * 2 ^ (m + x) + r) div 2 ^ (m + x)) = s" using r by simp
  have "(of_bool s * 2 ^ (m + x) + r) div 2 ^ m = of_bool s * 2 ^ x + r div 2 ^ m" by (simp add: power_add)
  moreover have "r div 2 ^ m < 2 ^ x - 1" using fields(1) by (simp add: less_mult_imp_div_less)
  ultimately have e: "(of_bool s * 2 ^ (m + x) + r) div 2 ^ m mod 2 ^ x = r div 2 ^ m" "r div 2 ^ m \<noteq> 2 ^ x - 1"
    by simp_all
  have f: "(of_bool s * 2 ^ (m + x) + r) mod 2 ^ m = r mod 2 ^ m" by (simp add: power_add)
  show "fp_decode m x (fp_encode m x (Finite s u)) = Finite s u"
    unfolding b fp_decode_def Let_def sign e f using e(2) fields(2) by simp
qed

lemma of_to_f32: "fp_ok 24 277 (Finite s u) \<Longrightarrow> of_f32 (to_f32 (Finite s u)) = Finite s u"
  using decode_encode [of 23 8 s u] by (simp add: of_f32_def to_f32_def unsigned_of_nat take_bit_eq_mod del: fp_encode.simps)

lemma round32_ok: "0 < den \<Longrightarrow> fp_ok 24 277 (round32 s num den)"
  by (simp add: round32_def fp_round_def fp_ok_def Let_def round_units_representable)

subsection \<open>\<open>Float64ToFloat32\<close>\<close>

text \<open>The real number of a finite pattern, and that a pattern is one.\<close>

definition fp_real :: "nat \<Rightarrow> fp \<Rightarrow> real" where
  "fp_real scale v = (case v of Finite s u \<Rightarrow> (if s then - real u else real u) / 2 ^ scale | _ \<Rightarrow> 0)"

fun fp_finite :: "fp \<Rightarrow> bool" where
  "fp_finite (Finite s u) = True"
| "fp_finite _ = False"

definition f32_real :: "f32 \<Rightarrow> real" where
  "f32_real b = fp_real 149 (of_f32 b)"

definition f32_finite :: "f32 \<Rightarrow> bool" where
  "f32_finite b = fp_finite (of_f32 b)"

definition f64_real :: "f64 \<Rightarrow> real" where
  "f64_real b = fp_real 1074 (of_f64 b)"

definition f64_finite :: "f64 \<Rightarrow> bool" where
  "f64_finite b = fp_finite (of_f64 b)"

lemma of_to_f32_special: "of_f32 (to_f32 (Infinity s)) = Infinity s" "of_f32 (to_f32 NotANumber) = NotANumber"
  by (cases s; simp add: of_f32_def to_f32_def fp_decode_def unsigned_of_nat take_bit_eq_mod)
     (simp add: of_f32_def to_f32_def fp_decode_def unsigned_of_nat take_bit_eq_mod)

text \<open>The units \<open>2^(-149)\<close> of what \<open>narrow\<close> rounds, as real numbers.\<close>

lemma unit_ratio: "real u / real (2 ^ 925) / 2 ^ 149 = real u / 2 ^ 1074"
  by (simp flip: power_add)

lemma signed_distance:
  "0 < c \<Longrightarrow> \<bar>(if s then - a else a) / c - (if s then - w else w) / c\<bar> = \<bar>a - w\<bar> / (c :: real)"
proof -
  assume c: "0 < c"
  have "(if s then - a else a) / c - (if s then - w else w) / c = (if s then w - a else a - w) / c"
    using c by (cases s) (simp_all add: field_simps)
  then show ?thesis using c by (cases s) (simp_all add: abs_minus_commute)
qed

lemma narrow_distance:
  "\<bar>fp_real 149 (Finite s v) - fp_real 1074 (Finite s u)\<bar> = \<bar>real v - real u / real (2 ^ 925)\<bar> / 2 ^ 149"
proof -
  have "fp_real 1074 (Finite s u) = (if s then - (real u / real (2 ^ 925)) else real u / real (2 ^ 925)) / 2 ^ 149"
    by (simp only: fp_real_def fp.case flip: unit_ratio) simp
  moreover have "fp_real 149 (Finite s v) = (if s then - real v else real v) / 2 ^ 149"
    by (simp only: fp_real_def fp.case)
  ultimately show ?thesis by (simp only: signed_distance zero_less_power zero_less_numeral)
qed

lemma narrow_nearest:
  assumes "narrow (Finite s u) = Finite s v" and "fp_ok 24 277 (Finite t b)"
  shows "\<bar>fp_real 149 (Finite s v) - fp_real 1074 (Finite s u)\<bar> \<le> \<bar>fp_real 149 (Finite t b) - fp_real 1074 (Finite s u)\<bar>"
proof -
  have v: "v = round_units 24 u (2 ^ 925)"
    using assms(1) by (simp add: round32_def fp_round_def Let_def split: if_splits)
  have near: "\<bar>real v - real u / real (2 ^ 925)\<bar> \<le> \<bar>real c - real u / real (2 ^ 925)\<bar>" if "representable 24 c" for c
    unfolding v using that by (intro round_units_nearest) simp_all
  show ?thesis
  proof (cases "t = s")
    case True
    then show ?thesis using near [of b] assms(2) by (simp add: narrow_distance fp_ok_def divide_right_mono)
  next
    case False
    have "representable 24 0" by (simp add: representable_def)
    from near [OF this] have "\<bar>fp_real 149 (Finite s v) - fp_real 1074 (Finite s u)\<bar> \<le> \<bar>fp_real 149 (Finite s 0) - fp_real 1074 (Finite s u)\<bar>"
      by (simp only: narrow_distance) (simp add: divide_right_mono)
    also have "\<dots> \<le> \<bar>fp_real 149 (Finite t b) - fp_real 1074 (Finite s u)\<bar>"
      using False by (cases s) (simp_all add: fp_real_def)
    finally show ?thesis .
  qed
qed

text \<open>Past the largest number by half a step, and not before, the result is an infinity.\<close>

lemma narrow_overflow:
  "narrow (Finite s u) = Infinity s \<Longrightarrow> 2 ^ 128 - 2 ^ 103 \<le> \<bar>fp_real 1074 (Finite s u)\<bar>"
  "narrow (Finite s u) = Finite s v \<Longrightarrow> \<bar>fp_real 1074 (Finite s u)\<bar> \<le> 2 ^ 128 - 2 ^ 103"
proof -
  let ?w = "real u / real (2 ^ 925)" and ?r = "round_units 24 u (2 ^ 925)"
  have w: "\<bar>fp_real 1074 (Finite s u)\<bar> = ?w / 2 ^ 149" by (simp only: unit_ratio) (simp add: fp_real_def)
  have scale: "(2 ^ 277 - 2 ^ 252 :: real) / 2 ^ 149 = 2 ^ 128 - 2 ^ 103" by simp
  have last: "representable 24 ((2 ^ 24 - 1) * 2 ^ 253)" by (rule representable_power) simp_all
  have first: "representable 24 (2 ^ 24 * 2 ^ 253)" by (rule representable_power) simp_all
  note near = round_units_nearest [where p = 24 and num = u and den = "2 ^ 925"]
  show "2 ^ 128 - 2 ^ 103 \<le> \<bar>fp_real 1074 (Finite s u)\<bar>" if "narrow (Finite s u) = Infinity s"
  proof -
    from that have "2 ^ 277 \<le> ?r" by (simp add: round32_def fp_round_def Let_def split: if_splits)
    then have "real (2 ^ 277) \<le> real ?r" by (simp only: of_nat_le_iff)
    with near [OF _ _ last] have "2 ^ 277 - 2 ^ 252 \<le> ?w" by simp
    then have "(2 ^ 277 - 2 ^ 252) / 2 ^ 149 \<le> ?w / 2 ^ 149" by (rule divide_right_mono) simp
    then show ?thesis by (simp only: w scale)
  qed
  show "\<bar>fp_real 1074 (Finite s u)\<bar> \<le> 2 ^ 128 - 2 ^ 103" if "narrow (Finite s u) = Finite s v"
  proof -
    from that have r: "?r < 2 ^ 277" by (simp add: round32_def fp_round_def Let_def split: if_splits)
    have "\<not> (2 ^ 24 - 1) * 2 ^ 253 < ?r"
    proof
      assume "(2 ^ 24 - 1) * 2 ^ 253 < ?r"
      moreover have "2 ^ 253 dvd ?r"
        using calculation by (intro representable_dvd [where p = 24] round_units_representable) simp_all
      ultimately show False using r by (auto elim!: dvdE)
    qed
    then have "real ?r \<le> real ((2 ^ 24 - 1) * 2 ^ 253)" by (simp only: of_nat_le_iff not_less)
    with near [OF _ _ first] have "?w \<le> 2 ^ 277 - 2 ^ 252" by simp
    then have "?w / 2 ^ 149 \<le> (2 ^ 277 - 2 ^ 252) / 2 ^ 149" by (rule divide_right_mono) simp
    then show ?thesis by (simp only: w scale)
  qed
qed

text \<open>What a conversion must give, by IEEE-754: rounding to nearest, signs and special values kept.\<close>

definition converts :: "f64 \<Rightarrow> f32 \<Rightarrow> bool" where
  "converts x y \<longleftrightarrow>
     (case of_f64 x of
        NotANumber \<Rightarrow> of_f32 y = NotANumber
      | Infinity s \<Rightarrow> of_f32 y = Infinity s
      | Finite s u \<Rightarrow>
          (case of_f32 y of
             Finite t v \<Rightarrow> t = s \<and> \<bar>f64_real x\<bar> \<le> 2 ^ 128 - 2 ^ 103 \<and>
               (\<forall>z. f32_finite z \<longrightarrow> \<bar>f32_real y - f64_real x\<bar> \<le> \<bar>f32_real z - f64_real x\<bar>)
           | Infinity t \<Rightarrow> t = s \<and> 2 ^ 128 - 2 ^ 103 \<le> \<bar>f64_real x\<bar>
           | NotANumber \<Rightarrow> False))"

lemma narrow_converts: "converts x (to_f32 (narrow (of_f64 x)))"
proof (cases "of_f64 x")
  case (Finite s u)
  have ok: "fp_ok 24 277 (narrow (Finite s u))" by (simp add: round32_ok)
  consider v where "narrow (Finite s u) = Finite s v" | "narrow (Finite s u) = Infinity s"
    by (simp add: round32_def fp_round_def Let_def) metis
  then show ?thesis
  proof cases
    case (1 v)
    with ok have y: "of_f32 (to_f32 (narrow (Finite s u))) = Finite s v" by (simp only: of_to_f32)
    have "\<bar>fp_real 149 (Finite s v) - fp_real 1074 (Finite s u)\<bar> \<le> \<bar>f32_real z - fp_real 1074 (Finite s u)\<bar>"
      if z: "f32_finite z" for z
    proof -
      obtain t b where b: "of_f32 z = Finite t b" using z by (cases "of_f32 z") (simp_all add: f32_finite_def)
      with of_f32_ok [of z] have "fp_ok 24 277 (Finite t b)" by simp
      from narrow_nearest [OF 1 this] show ?thesis by (simp only: f32_real_def b)
    qed
    with narrow_overflow(2) [OF 1] show ?thesis
      by (simp only: converts_def Finite y fp.case f32_real_def f64_real_def simp_thms) blast
  next
    case 2
    with narrow_overflow(1) [OF 2] show ?thesis
      by (simp only: converts_def Finite of_to_f32_special fp.case f64_real_def simp_thms)
  qed
qed (simp_all add: converts_def of_to_f32_special)

text \<open>
  C14: Float64ToFloat32 rounds every element to the nearest float32: no finite float32 is nearer,
  the sign is kept, an element turns into an infinity only from half a step past the largest
  float32 on, and infinities and NaNs stay what they are. A nil slice stays nil.
\<close>

theorem float64_to_float32_nearest:
  "float64_to_float32 None = None \<and>
   (\<exists>ys. float64_to_float32 (Some xs) = Some ys \<and> list_all2 converts xs ys)"
  by (simp add: float64_to_float32_def list_all2_conv_all_nth narrow_converts)

subsection \<open>The sum of squares\<close>

abbreviation mag :: "fp \<Rightarrow> nat" where
  "mag v \<equiv> (case v of Finite s u \<Rightarrow> u | _ \<Rightarrow> 0)"

definition square_units :: "nat \<Rightarrow> nat" where
  "square_units a = a\<^sup>2 * 2 ^ 776"

lemma square_representable:
  assumes "representable 24 a"
  shows "representable 53 (square_units a)"
proof -
  obtain m where m: "a = m * 2 ^ step_exp 24 a" using assms by (metis representable_def dvdE mult.commute)
  have "m * 2 ^ step_exp 24 a < 2 ^ 24 * 2 ^ step_exp 24 a"
    using step_bounds(2) [of a 24] by (subst m [symmetric]) (simp add: power_add)
  then have "m < 2 ^ 24" by simp
  then have "m\<^sup>2 < (2 ^ 24)\<^sup>2" by (rule power_strict_mono) simp_all
  then have "m\<^sup>2 \<le> 2 ^ 53" by simp
  then have "representable 53 (m\<^sup>2 * 2 ^ (2 * step_exp 24 a + 776))" by (rule representable_power) simp
  moreover have "square_units a = m\<^sup>2 * 2 ^ (2 * step_exp 24 a + 776)"
    by (subst (1) m) (simp only: square_units_def power_mult_distrib power_add power_even_eq mult.assoc)
  ultimately show ?thesis by simp
qed

lemma square_small: "a < 2 ^ 277 \<Longrightarrow> square_units a < 2 ^ 1330"
proof -
  assume "a < 2 ^ 277"
  then have "a\<^sup>2 < (2 ^ 277)\<^sup>2" by (rule power_strict_mono) simp_all
  then have "a\<^sup>2 * 2 ^ 776 < (2 ^ 277)\<^sup>2 * 2 ^ 776" by (rule mult_strict_right_mono) simp
  then show ?thesis by (simp add: square_units_def flip: power_mult power_add)
qed

text \<open>The product of the loop is exact.\<close>

lemma square_exact:
  assumes "fp_ok 24 277 (Finite s a)"
  shows "fp_mul (widen (Finite s a)) (widen (Finite s a)) = Finite False (square_units a)"
proof -
  have a: "a < 2 ^ 277" "representable 24 a" using assms by (simp_all add: fp_ok_def)
  have "(a * 2 ^ 925) * (a * 2 ^ 925) = square_units a * 2 ^ 1074"
    by (simp only: square_units_def power2_eq_square ac_simps flip: power_add) simp
  then have "round_units 53 ((a * 2 ^ 925) * (a * 2 ^ 925)) (2 ^ 1074) = square_units a"
    using square_representable [OF a(2)] by (simp only: round_units_exact zero_less_power zero_less_numeral)
  moreover have "square_units a < 2 ^ 2098"
    using square_small [OF a(1)] power_increasing [of 1330 2098 "2::nat"] by linarith
  ultimately show ?thesis by (simp only: widen.simps fp_mul.simps round64_def fp_round_def Let_def simp_thms if_True)
qed

text \<open>The loop on units, and that it stays below the largest \<open>float64\<close>.\<close>

definition add_units :: "nat \<Rightarrow> nat \<Rightarrow> nat" where
  "add_units s a = round_units 53 (s + square_units a) 1"

abbreviation unit_error :: real where
  "unit_error \<equiv> 1 / 2 ^ 53"

text \<open>Zero, or large enough for rounding to have a relative error.\<close>

definition normal64 :: "nat \<Rightarrow> bool" where
  "normal64 u \<longleftrightarrow> u = 0 \<or> 2 ^ 52 \<le> u"

lemma square_normal: "normal64 (square_units a)"
proof (cases "a = 0")
  case False
  then have "2 ^ 776 \<le> square_units a" by (simp add: square_units_def)
  moreover have "(2::nat) ^ 52 \<le> 2 ^ 776" by (rule power_increasing) simp_all
  ultimately show ?thesis unfolding normal64_def by linarith
qed (simp add: normal64_def square_units_def)

lemma add_units_near:
  assumes "normal64 s"
  shows "\<bar>real (add_units s a) - (real s + real (square_units a))\<bar> \<le> (real s + real (square_units a)) * unit_error"
    and "normal64 (add_units s a)"
proof -
  let ?n = "s + square_units a"
  have "\<bar>real (round_units 53 ?n 1) - real ?n\<bar> \<le> real ?n * unit_error \<and> normal64 (round_units 53 ?n 1)"
  proof (cases "?n = 0")
    case True
    then show ?thesis by (simp add: round_units_def Let_def normal64_def round_half_even_def)
  next
    case False
    then have n: "2 ^ 52 \<le> ?n" using assms square_normal [of a] by (auto simp: normal64_def)
    have "2 ^ 52 \<le> round_units 53 ?n 1"
      by (rule round_units_ge) (use n representable_power [of 1 53 52] in simp_all)
    with n round_units_relative [of 1 53 ?n] show ?thesis by (simp add: normal64_def)
  qed
  then show "\<bar>real (add_units s a) - (real s + real (square_units a))\<bar> \<le> (real s + real (square_units a)) * unit_error"
    "normal64 (add_units s a)"
    by (simp_all add: add_units_def)
qed

definition total_units :: "nat list \<Rightarrow> real" where
  "total_units as = sum_list (map (\<lambda>a. real (square_units a)) as)"

lemma total_units_nonneg: "0 \<le> total_units as"
  by (induction as) (simp_all add: total_units_def)

lemma add_error:
  fixes x v t e :: real
  assumes "\<bar>x - v\<bar> \<le> v * e" and "0 \<le> t" "0 \<le> e"
  shows "x + t \<le> (v + t) * (1 + e)" and "(v + t) * (1 - e) \<le> x + t"
proof -
  have "0 \<le> t * e" using assms by simp
  moreover have "x - v \<le> v * e" "v - x \<le> v * e" using assms(1) by linarith+
  ultimately show "x + t \<le> (v + t) * (1 + e)" "(v + t) * (1 - e) \<le> x + t"
    by (simp_all add: algebra_simps)
qed

lemma sum_units_near:
  assumes "normal64 s"
  shows "(real s + total_units as) * (1 - unit_error) ^ length as \<le> real (foldl add_units s as) \<and>
    real (foldl add_units s as) \<le> (real s + total_units as) * (1 + unit_error) ^ length as \<and>
    normal64 (foldl add_units s as)"
  using assms
proof (induction as arbitrary: s)
  case (Cons a as)
  let ?v = "real s + real (square_units a)" and ?s = "add_units s a"
  note near = add_units_near [OF Cons.prems, of a]
  have t: "total_units (a # as) = real (square_units a) + total_units as" by (simp add: total_units_def)
  have up: "real ?s + total_units as \<le> (real s + total_units (a # as)) * (1 + unit_error)"
    and low: "(real s + total_units (a # as)) * (1 - unit_error) \<le> real ?s + total_units as"
    unfolding t add.assoc [symmetric] by (rule add_error [OF near(1) total_units_nonneg], simp)+
  have "(real ?s + total_units as) * (1 + unit_error) ^ length as \<le> (real s + total_units (a # as)) * (1 + unit_error) * (1 + unit_error) ^ length as"
    using up by (rule mult_right_mono) simp
  moreover have "(real s + total_units (a # as)) * (1 - unit_error) * (1 - unit_error) ^ length as \<le> (real ?s + total_units as) * (1 - unit_error) ^ length as"
    using low by (rule mult_right_mono) simp
  ultimately show ?case using Cons.IH [OF near(2)]
    unfolding foldl.simps length_Cons power_Suc mult.assoc [symmetric] by (meson order_trans)
qed (simp add: total_units_def)

text \<open>For vectors of at most a million numbers the relative error of the sum is below \<open>2^(-32)\<close>.\<close>

lemma power_error:
  assumes "n \<le> 2 ^ 20"
  shows "(1 + unit_error) ^ n \<le> 1 + 1 / 2 ^ 32" and "1 - 1 / 2 ^ 32 \<le> (1 - unit_error) ^ n"
proof -
  have n: "real n \<le> 2 ^ 20" using assms by (metis of_nat_le_iff of_nat_numeral of_nat_power)
  then have nu: "real n * unit_error \<le> 1 / 2 ^ 33" by simp
  have "(1 + unit_error) ^ n \<le> exp (real n * unit_error)"
    using exp_ge_add_one_self [of unit_error] by (simp only: exp_of_nat_mult) (intro power_mono, simp_all)
  also have "\<dots> \<le> exp (1 / 2 ^ 33)" using nu by simp
  also have "\<dots> \<le> 1 + 1 / 2 ^ 33 + (1 / 2 ^ 33)\<^sup>2" by (rule exp_bound) simp_all
  also have "\<dots> \<le> 1 + 1 / 2 ^ 32" by (simp add: power2_eq_square)
  finally show "(1 + unit_error) ^ n \<le> 1 + 1 / 2 ^ 32" .
  have "1 + real n * (- unit_error) \<le> (1 + - unit_error) ^ n" by (rule Bernoulli_inequality) simp
  with nu show "1 - 1 / 2 ^ 32 \<le> (1 - unit_error) ^ n" by simp
qed

lemma total_small:
  assumes "\<forall>a \<in> set as. a < 2 ^ 277"
  shows "total_units as \<le> real (length as) * 2 ^ 1330"
  using assms
proof (induction as)
  case (Cons a as)
  have "real (square_units a) \<le> 2 ^ 1330"
    using square_small [of a] Cons.prems by (metis list.set_intros(1) less_imp_le of_nat_le_iff of_nat_numeral of_nat_power)
  with Cons show ?case by (simp add: total_units_def algebra_simps)
qed (simp add: total_units_def)

lemma small_total_bound:
  assumes "\<forall>a \<in> set as. a < 2 ^ 277" and "length as \<le> 2 ^ 20"
  shows "total_units as * 2 < 2 ^ 1400"
proof -
  have "real (length as) \<le> 2 ^ 20" using assms(2) by (metis of_nat_le_iff of_nat_numeral of_nat_power)
  then have "real (length as) * 2 ^ 1330 \<le> 2 ^ 20 * 2 ^ 1330" by (rule mult_right_mono) simp
  with total_small [OF assms(1)] have "total_units as \<le> 2 ^ 1350" by (simp flip: power_add)
  then have "total_units as * 2 \<le> 2 ^ 1351" by simp
  also have "\<dots> < (2 :: real) ^ 1400" by (rule power_strict_increasing) simp_all
  finally show ?thesis .
qed

lemma fp_add_units:
  assumes "add_units s a < 2 ^ 2098"
  shows "fp_add (Finite False s) (Finite False (square_units a)) = Finite False (add_units s a)"
proof -
  have v: "fp_value False s + fp_value False (square_units a) = int (s + square_units a)" by (simp add: fp_value_def)
  have sign: "(if int (s + square_units a) = 0 then False \<and> False else int (s + square_units a) < 0) = False" by simp
  from assms show ?thesis
    by (simp only: fp_add.simps v Let_def sign abs_of_nat nat_int round64_def fp_round_def if_True flip: add_units_def)
qed

lemma foldl_sum_squares:
  assumes "\<forall>x \<in> set xs. f32_finite x" and "normal64 s"
    and "(real s + total_units (map (\<lambda>x. mag (of_f32 x)) xs)) * (1 + unit_error) ^ length xs < 2 ^ 2098"
  shows "foldl (\<lambda>sum x. fp_add sum (fp_mul (widen (of_f32 x)) (widen (of_f32 x)))) (Finite False s) xs
    = Finite False (foldl add_units s (map (\<lambda>x. mag (of_f32 x)) xs))"
  using assms
proof (induction xs arbitrary: s)
  case (Cons x xs)
  obtain t a where x: "of_f32 x = Finite t a" using Cons.prems(1) by (cases "of_f32 x") (auto simp: f32_finite_def)
  let ?as = "map (\<lambda>x. mag (of_f32 x)) xs" and ?s = "add_units s a" and ?n = "length xs"
  note near = add_units_near [OF Cons.prems(2), of a]
  have tot: "total_units (map (\<lambda>x. mag (of_f32 x)) (x # xs)) = real (square_units a) + total_units ?as" by (simp add: total_units_def x)
  have "real ?s + total_units ?as \<le> (real s + real (square_units a) + total_units ?as) * (1 + unit_error)"
    by (rule add_error(1) [OF near(1) total_units_nonneg]) simp
  then have "(real ?s + total_units ?as) * (1 + unit_error) ^ ?n
      \<le> (real s + real (square_units a) + total_units ?as) * (1 + unit_error) * (1 + unit_error) ^ ?n"
    by (rule mult_right_mono) simp
  also have "\<dots> = (real s + total_units (map (\<lambda>x. mag (of_f32 x)) (x # xs))) * (1 + unit_error) ^ length (x # xs)"
    by (simp only: tot length_Cons power_Suc ac_simps)
  also note Cons.prems(3)
  finally have small: "(real ?s + total_units ?as) * (1 + unit_error) ^ ?n < 2 ^ 2098" .
  have "real ?s \<le> (real ?s + total_units ?as) * (1 + unit_error) ^ ?n"
  proof -
    have "(real ?s + total_units ?as) * 1 \<le> (real ?s + total_units ?as) * (1 + unit_error) ^ ?n"
      using total_units_nonneg [of ?as] by (intro mult_left_mono) (simp_all add: one_le_power)
    with total_units_nonneg [of ?as] show ?thesis by simp
  qed
  with small have "real ?s < real (2 ^ 2098)" by (simp only: of_nat_power of_nat_numeral)
  then have lim: "?s < 2 ^ 2098" by (simp only: of_nat_less_iff)
  have sq: "fp_mul (widen (Finite t a)) (widen (Finite t a)) = Finite False (square_units a)"
    using of_f32_ok [of x] by (intro square_exact) (simp add: x)
  have "fp_add (Finite False s) (Finite False (square_units a)) = Finite False ?s"
    using lim by (rule fp_add_units)
  moreover have "\<forall>y \<in> set xs. f32_finite y" using Cons.prems(1) by simp
  ultimately show ?case using Cons.IH [OF _ near(2) small] by (simp only: foldl.simps x sq list.map fp.case)
qed simp

subsection \<open>The norm\<close>

definition root_units :: "nat \<Rightarrow> nat" where
  "root_units n = (let r = isqrt n in if r\<^sup>2 = n then round_units 53 r 1 else round_units 53 (2 * r + 1) 2)"

text \<open>
  The root is rounded correctly: the number half way between two integers that stands for a root
  between them lies on the same side of every point where rounding changes.
\<close>

lemma root_between_near:
  assumes s: "2 ^ 53 \<le> s" and r: "real s \<le> r" "r < real s + 1"
  shows "\<bar>real (round_units 53 (2 * s + 1) 2) - r\<bar> \<le> r / 2 ^ 53"
proof -
  have q: "(2 * s + 1) div 2 = s" by simp
  have "2 ^ 53 < (2::nat) ^ (53 + step_exp 53 s)" using s step_bounds(2) [of s 53] by linarith
  then have "53 < 53 + step_exp 53 s" by (rule power_less_imp_less_exp [rotated]) simp
  then obtain k where k: "step_exp 53 s = Suc k" by (cases "step_exp 53 s") simp_all
  let ?u = "round_units 53 (2 * s + 1) 2"
  have half: "real (2 * s + 1) / real 2 = real s + 1 / 2" by (simp add: field_simps)
  have "\<bar>real ?u - (real s + 1 / 2)\<bar> \<le> 2 ^ step_exp 53 s / 2"
    using round_units_near_step [of 2 53 "2 * s + 1"] by (simp only: q half zero_less_numeral simp_thms)
  then have "\<bar>real ?u - (real s + 1 / 2)\<bar> \<le> real (2 ^ k)" by (simp add: k)
  then have "real ?u \<le> real (s + 2 ^ k) + 1 / 2" "real s + 1 / 2 \<le> real (?u + 2 ^ k)"
    by (simp_all only: abs_le_iff of_nat_add) linarith+
  then have "?u \<le> s + 2 ^ k" "s + 1 \<le> ?u + 2 ^ k" by linarith+
  then have "real ?u \<le> real (s + 2 ^ k)" "real (s + 1) \<le> real (?u + 2 ^ k)" by (simp_all only: of_nat_le_iff)
  with r have near: "\<bar>real ?u - r\<bar> \<le> 2 ^ k" by (simp add: abs_le_iff)
  have "real (2 ^ (53 + k)) \<le> real s" using step_bounds(1) [of 53 s] by (simp only: of_nat_le_iff k) simp
  then have "2 ^ 53 * 2 ^ k \<le> r" using r(1) by (simp add: power_add)
  then have "2 ^ k \<le> r / 2 ^ 53" by (rule power_le_div)
  with near show ?thesis by linarith
qed

lemma root_units_near:
  assumes "2 ^ 106 \<le> n"
  shows "\<bar>real (root_units n) - sqrt (real n)\<bar> \<le> sqrt (real n) / 2 ^ 53"
proof -
  have "(2 ^ 53)\<^sup>2 \<le> n" using assms by simp
  then have s: "2 ^ 53 \<le> isqrt n" by (rule isqrt_ge)
  show ?thesis
  proof (cases "(isqrt n)\<^sup>2 = n")
    case True
    then have "sqrt (real n) = sqrt ((real (isqrt n))\<^sup>2)" by (metis of_nat_power)
    then have r: "sqrt (real n) = real (isqrt n)" by simp
    have "(2::nat) ^ 52 \<le> 2 ^ 53" by simp
    with s have "2 ^ 52 \<le> isqrt n" by (rule le_trans [rotated])
    then show ?thesis using round_units_relative [of 1 53 "isqrt n"] by (simp add: root_units_def Let_def True r)
  next
    case False
    with root_between_near [OF s isqrt_real] show ?thesis by (simp add: root_units_def Let_def)
  qed
qed

lemma root_units_ge:
  assumes "a\<^sup>2 \<le> n" and "representable 53 a"
  shows "a \<le> root_units n"
proof -
  have a: "a \<le> isqrt n" using assms(1) by (rule isqrt_ge)
  then have "a \<le> round_units 53 (isqrt n) 1" "a \<le> round_units 53 (2 * isqrt n + 1) 2"
    using assms(2) by (intro round_units_ge; simp)+
  then show ?thesis by (simp add: root_units_def Let_def)
qed

lemma fp_sqrt_units:
  assumes "s \<noteq> 0" and "root_units (s * 2 ^ 1074) < 2 ^ 2098"
  shows "fp_sqrt (Finite False s) = Finite False (root_units (s * 2 ^ 1074))"
  using assms by (simp only: fp_sqrt.simps root_units_def Let_def round64_def fp_round_def if_False split: if_splits) simp_all

text \<open>No element is longer than the norm.\<close>

lemma add_units_ge:
  assumes "representable 53 s" and "representable 24 a"
  shows "s \<le> add_units s a" "square_units a \<le> add_units s a" "representable 53 (add_units s a)"
  using assms square_representable [OF assms(2)]
  by (auto simp: add_units_def intro: round_units_ge round_units_representable)

lemma foldl_add_units_ge:
  "representable 53 s \<Longrightarrow> \<forall>a \<in> set as. representable 24 a \<Longrightarrow>
    s \<le> foldl add_units s as \<and> (\<forall>a \<in> set as. square_units a \<le> foldl add_units s as)"
proof (induction as arbitrary: s)
  case (Cons a as)
  with add_units_ge [of s a] have "add_units s a \<le> foldl add_units (add_units s a) as"
    "\<forall>b \<in> set as. square_units b \<le> foldl add_units (add_units s a) as" "s \<le> add_units s a" "square_units a \<le> add_units s a"
    by simp_all
  then show ?case by (auto intro: le_trans)
qed simp

lemma widen_le_root:
  assumes "square_units a \<le> s" and "representable 24 a"
  shows "a * 2 ^ 925 \<le> root_units (s * 2 ^ 1074)"
proof (rule root_units_ge)
  have "(a * 2 ^ 925)\<^sup>2 = square_units a * 2 ^ 1074"
    by (simp only: square_units_def power2_eq_square ac_simps flip: power_add) simp
  with assms(1) show "(a * 2 ^ 925)\<^sup>2 \<le> s * 2 ^ 1074" by (simp only: mult_le_mono1)
  obtain m where m: "a = m * 2 ^ step_exp 24 a" using assms(2) by (metis representable_def dvdE mult.commute)
  have "m * 2 ^ step_exp 24 a < 2 ^ 24 * 2 ^ step_exp 24 a"
    using step_bounds(2) [of a 24] by (subst m [symmetric]) (simp add: power_add)
  then have "m \<le> 2 ^ 53" by simp
  then have "representable 53 (m * 2 ^ (step_exp 24 a + 925))" by (rule representable_power) simp
  then show "representable 53 (a * 2 ^ 925)" by (subst m) (simp only: power_add mult.assoc)
qed

text \<open>The root of a sum that is nearly right is nearly right.\<close>

lemma root_error:
  fixes s t e :: real
  assumes "0 \<le> t" "0 \<le> e" "e \<le> 1" and "t * (1 - e) \<le> s" "s \<le> t * (1 + e)"
  shows "sqrt t * (1 - e) \<le> sqrt s" and "sqrt s \<le> sqrt t * (1 + e)"
proof -
  have "(1 - e) * (1 - e) \<le> 1 - e" using assms(2,3) by (simp add: mult_left_le)
  then have "t * (1 - e)\<^sup>2 \<le> t * (1 - e)" using assms(1) by (simp add: power2_eq_square mult_left_mono)
  then have "sqrt (t * (1 - e)\<^sup>2) \<le> sqrt s" using assms(4) by (intro real_sqrt_le_mono) linarith
  then show "sqrt t * (1 - e) \<le> sqrt s" using assms(3) by (simp add: real_sqrt_mult)
  have "1 + e \<le> (1 + e)\<^sup>2" using assms(2) by (simp add: power2_eq_square algebra_simps)
  then have "t * (1 + e) \<le> t * (1 + e)\<^sup>2" using assms(1) by (rule mult_left_mono)
  then have "sqrt s \<le> sqrt (t * (1 + e)\<^sup>2)" using assms(5) by (intro real_sqrt_le_mono) linarith
  then show "sqrt s \<le> sqrt t * (1 + e)" using assms(2) by (simp add: real_sqrt_mult)
qed

lemma near_near:
  fixes x r i :: real
  assumes "i * (1 - 1 / 2 ^ 32) \<le> r" "r \<le> i * (1 + 1 / 2 ^ 32)" and "0 < i" and "\<bar>x - r\<bar> \<le> r / 2 ^ 53"
  shows "\<bar>x - i\<bar> \<le> i / 2 ^ 31"
proof -
  have "x - r \<le> r / 2 ^ 53" "r - x \<le> r / 2 ^ 53" using assms(4) by linarith+
  with assms(1-3) show ?thesis unfolding abs_le_iff by (simp add: field_simps)
qed

lemma norm_near:
  assumes small: "\<forall>a \<in> set as. a < 2 ^ 277" and len: "length as \<le> 2 ^ 20" and nonzero: "0 < total_units as"
  defines "s \<equiv> foldl add_units 0 as" and "i \<equiv> sqrt (total_units as * 2 ^ 1074)"
  shows "s \<noteq> 0" and "\<bar>real (root_units (s * 2 ^ 1074)) - i\<bar> \<le> i / 2 ^ 31" and "0 < i" and "i \<le> 2 ^ 1237"
proof -
  have z: "normal64 0" by (simp add: normal64_def)
  note sum = sum_units_near [OF z, of as, folded s_def, unfolded semiring_1_class.of_nat_0 add_0_left]
  have low: "total_units as * (1 - 1 / 2 ^ 32) \<le> real s"
    using mult_left_mono [OF power_error(2) [OF len] total_units_nonneg [of as]] sum [THEN conjunct1] by (rule order_trans)
  have up: "real s \<le> total_units as * (1 + 1 / 2 ^ 32)"
    using sum [THEN conjunct2, THEN conjunct1] mult_left_mono [OF power_error(1) [OF len] total_units_nonneg [of as]] by (rule order_trans)
  show s: "s \<noteq> 0" using low nonzero by (auto simp: not_less)
  show i: "0 < i" using nonzero by (simp add: i_def)
  have "total_units as * 2 ^ 1074 \<le> 2 ^ 1400 * 2 ^ 1074"
    using small_total_bound [OF small len] nonzero by (intro mult_right_mono) (linarith, simp)
  then have "i \<le> sqrt (2 ^ 1400 * 2 ^ 1074)" by (simp only: i_def real_sqrt_le_iff)
  also have "(2 :: real) ^ 1400 * 2 ^ 1074 = (2 ^ 1237)\<^sup>2"
    unfolding power_add [symmetric] power_mult [symmetric] by (rule arg_cong [where f = "\<lambda>n. 2 ^ n"]) simp
  also have "sqrt ((2 ^ 1237)\<^sup>2) = 2 ^ 1237" by (simp only: real_sqrt_abs power_abs abs_numeral)
  finally show "i \<le> 2 ^ 1237" .
  let ?r = "sqrt (real (s * 2 ^ 1074))"
  have e: "0 \<le> total_units as * 2 ^ 1074" "(0 :: real) \<le> 1 / 2 ^ 32" "1 / 2 ^ 32 \<le> (1 :: real)"
    "total_units as * 2 ^ 1074 * (1 - 1 / 2 ^ 32) \<le> real (s * 2 ^ 1074)"
    "real (s * 2 ^ 1074) \<le> total_units as * 2 ^ 1074 * (1 + 1 / 2 ^ 32)"
    using mult_right_mono [OF low, of "2 ^ 1074"] mult_right_mono [OF up, of "2 ^ 1074"] nonzero
    by (simp_all only: of_nat_mult of_nat_power of_nat_numeral ac_simps) simp_all
  have r: "i * (1 - 1 / 2 ^ 32) \<le> ?r" "?r \<le> i * (1 + 1 / 2 ^ 32)"
    using root_error [OF e] by (simp_all only: i_def)
  have "1 * 2 ^ 106 \<le> s * 2 ^ 1074"
    using s by (intro mult_le_mono power_increasing) simp_all
  then have "\<bar>real (root_units (s * 2 ^ 1074)) - ?r\<bar> \<le> ?r / 2 ^ 53" by (intro root_units_near) simp
  with r i show "\<bar>real (root_units (s * 2 ^ 1074)) - i\<bar> \<le> i / 2 ^ 31" by (intro near_near)
qed

subsection \<open>\<open>Normalize\<close>\<close>

lemma quotient_error:
  fixes c i n :: real
  assumes "0 \<le> c" "0 < i" and "\<bar>n - i\<bar> \<le> i / 2 ^ 31"
  shows "\<bar>c / n - c / i\<bar> \<le> c / i / 2 ^ 30"
proof -
  have "i - n \<le> i / 2 ^ 31" using assms(3) by linarith
  with assms(2) have n: "i / 2 \<le> n" by (simp add: field_simps)
  with assms(2) have "0 < n" by linarith
  have "c / n - c / i = c * (i - n) / (n * i)" using \<open>0 < n\<close> assms(2) by (simp add: field_simps)
  then have "\<bar>c / n - c / i\<bar> = c * \<bar>n - i\<bar> / (n * i)"
    using \<open>0 < n\<close> assms(1,2) by (simp add: abs_mult abs_minus_commute)
  also have "\<dots> \<le> c * (i / 2 ^ 31) / (n * i)"
    using \<open>0 < n\<close> assms by (intro divide_right_mono mult_left_mono) simp_all
  also have "\<dots> = c / 2 ^ 31 / n" using assms(2) by (simp add: field_simps)
  also have "\<dots> \<le> c / 2 ^ 31 / (i / 2)" using n assms(1,2) by (intro divide_left_mono) simp_all
  also have "\<dots> = c / i / 2 ^ 30" by simp
  finally show ?thesis .
qed

lemma total_error:
  fixes x d e y :: real
  assumes "\<bar>x - d\<bar> \<le> d / 2 ^ 24 + 1 / 2" "\<bar>d - e\<bar> \<le> e / 2 ^ 53" "\<bar>e - y\<bar> \<le> y / 2 ^ 30" "0 \<le> y"
  shows "\<bar>x - y\<bar> \<le> y / 2 ^ 23 + 1 / 2"
proof -
  have "x - d \<le> d / 2 ^ 24 + 1 / 2" "d - x \<le> d / 2 ^ 24 + 1 / 2" "d - e \<le> e / 2 ^ 53" "e - d \<le> e / 2 ^ 53"
    "e - y \<le> y / 2 ^ 30" "y - e \<le> y / 2 ^ 30"
    using assms(1-3) by linarith+
  with assms(4) show ?thesis unfolding abs_le_iff by (simp add: field_simps)
qed

definition quotient_units :: "nat \<Rightarrow> nat \<Rightarrow> nat" where
  "quotient_units a n = round_units 53 (a * 2 ^ 925 * 2 ^ 1074) n"

lemma abs_div_diff: "0 < c \<Longrightarrow> \<bar>a - b\<bar> / c = \<bar>a / c - b / (c :: real)\<bar>"
  by (simp add: abs_divide flip: diff_divide_distrib)

lemma quotient_near:
  assumes n: "0 < n" and small: "real n \<le> 2 ^ 1238"
  shows "\<bar>real (quotient_units a n) / 2 ^ 925 - real a * 2 ^ 1074 / real n\<bar> \<le> real a * 2 ^ 1074 / real n / 2 ^ 53"
proof -
  let ?v = "a * 2 ^ 925 * 2 ^ 1074"
  have "\<bar>real (round_units 53 ?v n) - real ?v / real n\<bar> \<le> real ?v / real n / 2 ^ 53"
  proof (cases "a = 0")
    case True
    then show ?thesis by (simp add: round_units_def Let_def round_half_even_def)
  next
    case False
    have "real n \<le> real (2 ^ 1238)" using small by (simp only: of_nat_power of_nat_numeral)
    then have "n \<le> 2 ^ 1238" by (simp only: of_nat_le_iff)
    then have "2 ^ 52 * n \<le> 2 ^ 52 * 2 ^ 1238" by (rule mult_le_mono2)
    also have "\<dots> = (2::nat) ^ 1290" unfolding power_add [symmetric] by (rule arg_cong [where f = "\<lambda>n. 2 ^ n"]) simp
    also have "\<dots> \<le> 2 ^ (925 + 1074)" by (rule power_increasing) simp_all
    also have "\<dots> \<le> ?v" using False by (simp only: power_add mult.assoc) simp
    finally have "2 ^ (53 - 1) * n \<le> ?v" by simp
    with n show ?thesis by (intro round_units_relative) simp_all
  qed
  then have "\<bar>real (round_units 53 ?v n) - real ?v / real n\<bar> / 2 ^ 925 \<le> real ?v / real n / 2 ^ 53 / 2 ^ 925"
    by (rule divide_right_mono) simp
  moreover have "real ?v / real n / 2 ^ 925 = real a * 2 ^ 1074 / real n" by simp
  moreover have "real ?v / real n / 2 ^ 53 / 2 ^ 925 = real a * 2 ^ 1074 / real n / 2 ^ 53" by simp
  moreover have "\<bar>real (round_units 53 ?v n) - real ?v / real n\<bar> / 2 ^ 925 =
      \<bar>real (round_units 53 ?v n) / 2 ^ 925 - real ?v / real n / 2 ^ 925\<bar>"
    by (rule abs_div_diff) simp
  ultimately show ?thesis by (simp only: quotient_units_def)
qed

lemma element_normalized:
  assumes n: "0 < n" and near: "\<bar>real n - i\<bar> \<le> i / 2 ^ 31" and i: "0 < i" "i \<le> 2 ^ 1237" and le: "a * 2 ^ 925 \<le> n"
  obtains v where "narrow (fp_div (widen (Finite s a)) (Finite False n)) = Finite s v" "v \<le> 2 ^ 149"
    "\<bar>real v - real a * 2 ^ 1074 / i\<bar> \<le> real a * 2 ^ 1074 / i / 2 ^ 23 + 1 / 2"
proof -
  define q v where "q = quotient_units a n" and "v = round_units 24 q (2 ^ 925)"
  have q: "q \<le> 2 ^ 1074" unfolding q_def quotient_units_def
  proof (rule round_units_le)
    show "representable 53 (2 ^ 1074)" using representable_power [of 1 53 1074] by simp
    show "a * 2 ^ 925 * 2 ^ 1074 \<le> 2 ^ 1074 * n" using mult_le_mono1 [OF le, of "2 ^ 1074"] by (simp only: mult.commute [of n])
  qed (use n in simp_all)
  have "(2::nat) ^ 1074 < 2 ^ 2098" by (rule power_strict_increasing) simp_all
  with q have "q < 2 ^ 2098" by (rule le_less_trans)
  then have div: "fp_div (widen (Finite s a)) (Finite False n) = Finite s q"
    using n by (simp only: widen.simps fp_div.simps round64_def fp_round_def Let_def q_def quotient_units_def) simp
  have v: "v \<le> 2 ^ 149" unfolding v_def
  proof (rule round_units_le)
    show "representable 24 (2 ^ 149)" using representable_power [of 1 24 149] by simp
    have "(2::nat) ^ 1074 = 2 ^ 149 * 2 ^ 925" unfolding power_add [symmetric] by (rule arg_cong [where f = "\<lambda>n. 2 ^ n"]) simp
    with q show "q \<le> 2 ^ 149 * 2 ^ 925" by (simp only:)
  qed simp_all
  have "(2::nat) ^ 149 < 2 ^ 277" by (rule power_strict_increasing) simp_all
  with v have "v < 2 ^ 277" by (rule le_less_trans)
  then have nar: "narrow (Finite s q) = Finite s v"
    by (simp only: narrow.simps round32_def fp_round_def Let_def if_True flip: v_def)
  have "real n - i \<le> i / 2 ^ 31" using near by linarith
  then have "real n \<le> 2 * i" using i(1) by (simp add: field_simps)
  also have "\<dots> \<le> 2 * 2 ^ 1237" using i(2) by (rule mult_left_mono) simp
  also have "\<dots> = (2 :: real) ^ 1238" unfolding power_Suc [symmetric] by (rule arg_cong [where f = "\<lambda>n. 2 ^ n"]) simp
  finally have small: "real n \<le> 2 ^ 1238" .
  have "\<bar>real v - real q / real (2 ^ 925)\<bar> \<le> real q / real (2 ^ 925) / 2 ^ 24 + 1 / 2"
    unfolding v_def by (rule round_units_near) simp
  then have "\<bar>real v - real q / 2 ^ 925\<bar> \<le> real q / 2 ^ 925 / 2 ^ 24 + 1 / 2" by (simp only: of_nat_power of_nat_numeral)
  moreover note quotient_near [OF n small, of a, folded q_def]
  moreover have "\<bar>real a * 2 ^ 1074 / real n - real a * 2 ^ 1074 / i\<bar> \<le> real a * 2 ^ 1074 / i / 2 ^ 30"
    using near i(1) by (intro quotient_error) (rule mult_nonneg_nonneg, simp_all only: of_nat_0_le_iff zero_le_power zero_le_numeral)
  moreover have "0 \<le> real a * 2 ^ 1074 / i"
    using i(1) by (intro divide_nonneg_pos mult_nonneg_nonneg) (simp_all only: of_nat_0_le_iff zero_le_power zero_le_numeral)
  ultimately have "\<bar>real v - real a * 2 ^ 1074 / i\<bar> \<le> real a * 2 ^ 1074 / i / 2 ^ 23 + 1 / 2" by (rule total_error)
  with that [of v] div nar v show ?thesis by (simp only:)
qed

text \<open>The Euclidean norm of a vector of finite numbers.\<close>

definition l2_norm :: "f32 list \<Rightarrow> real" where
  "l2_norm xs = sqrt (sum_list (map (\<lambda>x. (f32_real x)\<^sup>2) xs))"

definition mags :: "f32 list \<Rightarrow> nat list" where
  "mags xs = map (\<lambda>x. mag (of_f32 x)) xs"

lemma finite_real:
  assumes "f32_finite x"
  obtains s where "of_f32 x = Finite s (mag (of_f32 x))" "f32_real x = (if s then - real (mag (of_f32 x)) else real (mag (of_f32 x))) / 2 ^ 149"
  using assms that by (cases "of_f32 x") (simp_all add: f32_finite_def f32_real_def fp_real_def)

lemma square_real: "f32_finite x \<Longrightarrow> (f32_real x)\<^sup>2 = real (square_units (mag (of_f32 x))) / 2 ^ 1074"
proof (erule finite_real)
  fix s assume r: "f32_real x = (if s then - real (mag (of_f32 x)) else real (mag (of_f32 x))) / 2 ^ 149"
  let ?a = "real (mag (of_f32 x))"
  have "(f32_real x)\<^sup>2 = ?a\<^sup>2 / (2 ^ 149)\<^sup>2" unfolding r by (cases s) (simp_all only: if_True if_False power_divide power2_minus)
  also have "\<dots> = ?a\<^sup>2 * 2 ^ 776 / (2 ^ 298 * 2 ^ 776)" by simp
  also have "(2::real) ^ 298 * 2 ^ 776 = 2 ^ 1074" unfolding power_add [symmetric] by (rule arg_cong [where f = "\<lambda>n. 2 ^ n"]) simp
  finally show ?thesis by (simp only: square_units_def of_nat_mult of_nat_power of_nat_numeral)
qed

lemma l2_norm_total:
  assumes "\<forall>x \<in> set xs. f32_finite x"
  shows "l2_norm xs * 2 ^ 1074 = sqrt (total_units (mags xs) * 2 ^ 1074)" and "(l2_norm xs = 0) = (total_units (mags xs) = 0)"
proof -
  have sum: "sum_list (map (\<lambda>x. (f32_real x)\<^sup>2) xs) = total_units (mags xs) / 2 ^ 1074"
    using assms
  proof (induction xs)
    case (Cons x xs)
    then show ?case by (simp only: list.map sum_list.Cons square_real mags_def total_units_def list.set_intros add_divide_distrib) simp
  qed (simp add: total_units_def mags_def)
  have "sqrt (total_units (mags xs) * 2 ^ 1074) = sqrt (total_units (mags xs) / 2 ^ 1074 * (2 ^ 1074)\<^sup>2)"
    by (simp only: power2_eq_square) simp
  also have "\<dots> = sqrt (total_units (mags xs) / 2 ^ 1074) * sqrt ((2 ^ 1074)\<^sup>2)" by (rule real_sqrt_mult)
  also have "sqrt ((2 ^ 1074)\<^sup>2) = 2 ^ 1074" by (simp only: real_sqrt_abs power_abs abs_numeral)
  finally show "l2_norm xs * 2 ^ 1074 = sqrt (total_units (mags xs) * 2 ^ 1074)" by (simp only: l2_norm_def sum)
  show "(l2_norm xs = 0) = (total_units (mags xs) = 0)" by (simp add: l2_norm_def sum)
qed

lemma mags_ok:
  assumes "\<forall>x \<in> set xs. f32_finite x" and "a \<in> set (mags xs)"
  shows "a < 2 ^ 277" and "representable 24 a"
proof -
  obtain x where x: "x \<in> set xs" "a = mag (of_f32 x)" using assms(2) by (auto simp: mags_def)
  with assms(1) obtain s where "of_f32 x = Finite s a" by (metis finite_real)
  with of_f32_ok [of x] have "fp_ok 24 277 (Finite s a)" by (simp only:)
  then show "a < 2 ^ 277" "representable 24 a" by (simp_all only: fp_ok_def fp.case)
qed

lemma sum_squares_units:
  assumes fin: "\<forall>x \<in> set xs. f32_finite x" and len: "length xs \<le> 2 ^ 20"
  shows "sum_squares xs = Finite False (foldl add_units 0 (mags xs))"
proof -
  have l: "length (mags xs) = length xs" by (simp add: mags_def)
  have small: "\<forall>a \<in> set (mags xs). a < 2 ^ 277" using mags_ok(1) [OF fin] by blast
  have "(1 + unit_error) ^ length xs \<le> 2" using power_error(1) [OF len] by simp
  then have "total_units (mags xs) * (1 + unit_error) ^ length xs \<le> total_units (mags xs) * 2"
    by (rule mult_left_mono) (rule total_units_nonneg)
  also have "\<dots> < 2 ^ 1400" using small_total_bound [OF small] len l by (simp only:)
  also have "(2 :: real) ^ 1400 < 2 ^ 2098" by (rule power_strict_increasing) simp_all
  finally have "(real 0 + total_units (mags xs)) * (1 + unit_error) ^ length xs < 2 ^ 2098" by (simp only: semiring_1_class.of_nat_0 add_0_left)
  moreover have "normal64 0" by (simp add: normal64_def)
  ultimately show ?thesis using foldl_sum_squares [OF fin] by (simp only: sum_squares_def mags_def)
qed

text \<open>An element of the result, given that the norm is nearly the Euclidean one.\<close>

abbreviation unit_element :: "real \<Rightarrow> f32 \<Rightarrow> f32 \<Rightarrow> bool" where
  "unit_element c x y \<equiv>
     f32_finite y \<and> \<bar>f32_real y\<bar> \<le> 1 \<and>
     \<bar>f32_real y - f32_real x / c\<bar> \<le> \<bar>f32_real x\<bar> / c / 2 ^ 23 + 1 / 2 ^ 150"

lemma unit_element_units:
  assumes x: "f32_real x = (if s then - real a else real a) / 2 ^ 149" and c: "0 < c"
    and y: "of_f32 y = Finite s v" and v: "v \<le> 2 ^ 149"
    and near: "\<bar>real v - real a / c\<bar> \<le> real a / c / 2 ^ 23 + 1 / 2"
  shows "unit_element c x y"
proof (intro conjI)
  have r: "f32_real y = (if s then - real v else real v) / 2 ^ 149" by (simp add: f32_real_def fp_real_def y)
  show "f32_finite y" by (simp add: f32_finite_def y)
  have "real v \<le> real (2 ^ 149)" using v by (simp only: of_nat_le_iff)
  then show "\<bar>f32_real y\<bar> \<le> 1" by (simp add: r)
  have xn: "f32_real x / c = (if s then - (real a / c) else real a / c) / 2 ^ 149"
    by (simp add: x)
  have ax: "\<bar>f32_real x\<bar> / c = real a / c / 2 ^ 149" by (simp add: x)
  have "\<bar>f32_real y - f32_real x / c\<bar> = \<bar>real v - real a / c\<bar> / 2 ^ 149"
    unfolding r xn by (rule signed_distance) simp
  also have "\<dots> \<le> (real a / c / 2 ^ 23 + 1 / 2) / 2 ^ 149" by (rule divide_right_mono [OF near]) simp
  finally show "\<bar>f32_real y - f32_real x / c\<bar> \<le> \<bar>f32_real x\<bar> / c / 2 ^ 23 + 1 / 2 ^ 150"
    unfolding ax by (simp add: add_divide_distrib)
qed

lemma scaled_ratio: "0 < c \<Longrightarrow> a * c / (l * c) = a / (l :: real)"
  by simp

lemma normalize_nonzero:
  assumes fin: "\<forall>x \<in> set xs. f32_finite x" and len: "length xs \<le> 2 ^ 20" and nonzero: "l2_norm xs \<noteq> 0"
  shows "\<exists>ys. normalize (Some xs) = Some ys \<and> list_all2 (unit_element (l2_norm xs)) xs ys"
proof -
  define s where "s = foldl add_units 0 (mags xs)"
  define n where "n = root_units (s * 2 ^ 1074)"
  define i where "i = sqrt (total_units (mags xs) * 2 ^ 1074)"
  have i_norm: "i = l2_norm xs * 2 ^ 1074" using l2_norm_total(1) [OF fin] by (simp only: i_def)
  have "total_units (mags xs) \<noteq> 0" using l2_norm_total(2) [OF fin] nonzero by blast
  with total_units_nonneg have pos: "0 < total_units (mags xs)" by (simp only: less_le) simp
  have small: "\<forall>a \<in> set (mags xs). a < 2 ^ 277" and len': "length (mags xs) \<le> 2 ^ 20"
    using mags_ok(1) [OF fin] len by (simp_all only: mags_def length_map) blast
  note near = norm_near [OF small len' pos, folded s_def i_def, folded n_def]
  have l: "0 < l2_norm xs" using near(3) unfolding i_norm by (simp only: zero_less_mult_iff) simp
  have ge: "a * 2 ^ 925 \<le> n" if "a \<in> set (mags xs)" for a
    using foldl_add_units_ge [of 0 "mags xs"] mags_ok(2) [OF fin] that
    unfolding n_def s_def by (intro widen_le_root) (simp_all add: representable_def)
  have n: "0 < n"
  proof (rule ccontr)
    assume "\<not> 0 < n"
    then have "a = 0" if "a \<in> set (mags xs)" for a using ge [OF that] by simp
    then have "total_units (mags xs) = sum_list (map (\<lambda>a. 0) (mags xs))"
      unfolding total_units_def by (intro arg_cong [where f = sum_list] map_cong) (simp_all add: square_units_def)
    with pos show False by simp
  qed
  have "real n - i \<le> i / 2 ^ 31" using near(2) by linarith
  then have "real n \<le> 2 * i" using near(3) by (simp add: field_simps)
  also have "\<dots> \<le> 2 * 2 ^ 1237" using near(4) by (rule mult_left_mono) simp
  also have "\<dots> = (2 :: real) ^ 1238" unfolding power_Suc [symmetric] by (rule arg_cong [where f = "\<lambda>n. 2 ^ n"]) simp
  also have "\<dots> < (2 :: real) ^ 2098" by (rule power_strict_increasing) simp_all
  finally have "real n < real (2 ^ 2098)" by (simp only: of_nat_power of_nat_numeral)
  then have "n < 2 ^ 2098" by (simp only: of_nat_less_iff)
  with near(1) have root: "fp_sqrt (Finite False s) = Finite False n" unfolding n_def by (rule fp_sqrt_units)
  have el: "unit_element (l2_norm xs) x (to_f32 (narrow (fp_div (widen (of_f32 x)) (Finite False n))))"
    if x: "x \<in> set xs" for x
  proof -
    let ?a = "mag (of_f32 x)"
    obtain t where t: "of_f32 x = Finite t ?a" "f32_real x = (if t then - real ?a else real ?a) / 2 ^ 149"
      using fin x by (metis finite_real)
    have "?a \<in> set (mags xs)" using x by (simp add: mags_def)
    then obtain v where v: "narrow (fp_div (widen (Finite t ?a)) (Finite False n)) = Finite t v" "v \<le> 2 ^ 149"
        "\<bar>real v - real ?a * 2 ^ 1074 / i\<bar> \<le> real ?a * 2 ^ 1074 / i / 2 ^ 23 + 1 / 2"
      using element_normalized [OF n near(2-4) ge] by metis
    have "real ?a * 2 ^ 1074 / i = real ?a / l2_norm xs" unfolding i_norm by (rule scaled_ratio) (simp only: zero_less_power zero_less_numeral)
    with v(3) have d: "\<bar>real v - real ?a / l2_norm xs\<bar> \<le> real ?a / l2_norm xs / 2 ^ 23 + 1 / 2" by (simp only:)
    have ok: "fp_ok 24 277 (Finite t v)"
    proof -
      have "fp_ok 24 277 (narrow z)" if "\<exists>s u. z = Finite s u" for z using that by (auto simp: round32_ok)
      moreover have "\<exists>s u. fp_div (widen (Finite t ?a)) (Finite False n) = Finite s u"
        using v(1) by (cases "fp_div (widen (Finite t ?a)) (Finite False n)") (simp_all only: narrow.simps fp.simps, blast)
      ultimately show ?thesis using v(1) by metis
    qed
    then have "of_f32 (to_f32 (Finite t v)) = Finite t v" by (rule of_to_f32)
    then have "unit_element (l2_norm xs) x (to_f32 (Finite t v))" by (rule unit_element_units [OF t(2) l _ v(2) d])
    then show ?thesis by (simp only: v(1) [folded t(1)])
  qed
  have "normalize (Some xs) = Some (map (\<lambda>x. to_f32 (narrow (fp_div (widen (of_f32 x)) (Finite False n)))) xs)"
    using near(1) sum_squares_units [OF fin len] root
    by (simp only: normalize_def option.map Let_def fp_zero.simps if_False flip: s_def)
  moreover have "list_all2 (unit_element (l2_norm xs)) xs (map (\<lambda>x. to_f32 (narrow (fp_div (widen (of_f32 x)) (Finite False n)))) xs)"
    using el by (simp add: list_all2_conv_all_nth)
  ultimately show ?thesis by blast
qed

lemma foldl_add_zero: "\<forall>a \<in> set as. a = 0 \<Longrightarrow> foldl add_units 0 as = 0"
  by (induction as) (simp_all add: add_units_def square_units_def round_units_def round_half_even_def)

lemma normalize_zero:
  assumes fin: "\<forall>x \<in> set xs. f32_finite x" and len: "length xs \<le> 2 ^ 20" and zero: "l2_norm xs = 0"
  shows "normalize (Some xs) = Some (replicate (length xs) 0)"
proof -
  have "total_units (mags xs) = 0" using l2_norm_total(2) [OF fin] zero by blast
  then have "\<forall>a \<in> set (mags xs). real (square_units a) = 0"
    unfolding total_units_def by (subst (asm) sum_list_nonneg_eq_0_iff) auto
  then have "\<forall>a \<in> set (mags xs). a = 0" by (simp add: square_units_def)
  then have "foldl add_units 0 (mags xs) = 0" by (rule foldl_add_zero)
  then show ?thesis using sum_squares_units [OF fin len] by (simp add: normalize_def)
qed

text \<open>
  C24: Normalize, in the float64 arithmetic of the code, neither overflows nor divides by zero: for
  up to 2^20 finite numbers, every element of the result is a finite number between -1 and 1 within
  2^-23 relative, and half of the least float32 absolute, of the element divided by the exact
  Euclidean norm; and when that norm is zero the result is the zero vector of the same length. The
  norms of the tiniest vectors, whose squares no float32 can hold, are told from zero.
\<close>

theorem normalize_unit:
  assumes "list_all f32_finite xs" and "length xs \<le> 2 ^ 20"
  shows "\<exists>ys. normalize (Some xs) = Some ys \<and>
    (if l2_norm xs = 0 then ys = replicate (length xs) 0
     else list_all2 (\<lambda>x y. f32_finite y \<and> \<bar>f32_real y\<bar> \<le> 1 \<and>
       \<bar>f32_real y - f32_real x / l2_norm xs\<bar> \<le> \<bar>f32_real x\<bar> / l2_norm xs / 2 ^ 23 + 1 / 2 ^ 150) xs ys)"
proof (cases "l2_norm xs = 0")
  case True
  show ?thesis unfolding if_P [OF True]
    by (intro exI [where x = "replicate (length xs) 0"] conjI refl
        normalize_zero [OF assms(1) [unfolded list_all_iff] assms(2) True])
next
  case False
  show ?thesis unfolding if_not_P [OF False]
    by (rule normalize_nonzero [OF assms(1) [unfolded list_all_iff] assms(2) False])
qed

lemma normalize_unit_witness:
  "\<exists>ys. normalize (Some [0x40400000, 0xC0800000]) = Some ys \<and> list_all (\<lambda>y. f32_finite y \<and> \<bar>f32_real y\<bar> \<le> 1) ys"
proof -
  have fin: "list_all f32_finite [0x40400000, 0xC0800000]"
    by (simp add: f32_finite_def of_f32_def fp_decode_def Let_def)
  have "of_f32 0x40400000 = Finite False (12582912 * 2 ^ 127)"
    by (simp add: of_f32_def fp_decode_def)
  then have "f32_real 0x40400000 = real (12582912 * 2 ^ 127) / 2 ^ 149"
    by (simp only: f32_real_def fp_real_def fp.case if_False)
  then have "f32_real 0x40400000 = 3" by simp
  then have "l2_norm [0x40400000, 0xC0800000] \<noteq> 0"
    by (simp add: l2_norm_def add_nonneg_eq_0_iff)
  with normalize_unit [OF fin] show ?thesis
    by (auto simp: list_all2_conv_all_nth list_all_length)
qed

end
