(* ===== verification/Savings.thy ===== *)
theory Savings
  imports Vec
begin

text \<open>
  \<open>TokenUsage.CacheSavingsPercent\<close> (\<open>llm/types.go\<close>): a share of integer counts in \<open>float64\<close>
  arithmetic. The conversion of an integer rounds like every operation of \<open>Floats\<close>.
\<close>

definition to_f64 :: "fp \<Rightarrow> f64" where
  "to_f64 v = of_nat (fp_encode 52 11 v)"

definition int_to_fp :: "int \<Rightarrow> fp" where
  "int_to_fp i = round64 (i < 0) (nat \<bar>i\<bar> * 2 ^ 1074) 1"

definition total_input :: "token_usage \<Rightarrow> int" where
  "total_input u = wrap64 (wrap64 (us_prompt u + us_cache_read u) + us_cache_creation u)"

definition cache_savings_percent :: "token_usage \<Rightarrow> f64" where
  "cache_savings_percent u =
     (if total_input u = 0 \<or> us_cache_read u = 0 then 0
      else to_f64 (fp_mul (fp_div (int_to_fp (us_cache_read u)) (int_to_fp (total_input u)))
             (int_to_fp 100)))"

subsection \<open>Rounding\<close>

lemma of_to_f64: "fp_ok 53 2098 (Finite s u) \<Longrightarrow> of_f64 (to_f64 (Finite s u)) = Finite s u"
  using decode_encode [of 52 11 s u] by (simp add: of_f64_def to_f64_def unsigned_of_nat take_bit_eq_mod del: fp_encode.simps)

text \<open>Rounding is monotone: of two numbers each is nearest to the other's rounding only if they are equal.\<close>

lemma round_units_mono:
  assumes "0 < p" and "m \<le> n"
  shows "round_units p m 1 \<le> round_units p n 1"
proof (rule ccontr)
  let ?a = "round_units p m 1" and ?b = "round_units p n 1"
  assume "\<not> ?a \<le> ?b"
  then have less: "real ?b < real ?a" by simp
  have rep: "representable p ?a" "representable p ?b" using assms(1) by (simp_all add: round_units_representable)
  have "\<bar>real ?a - real m\<bar> \<le> \<bar>real ?b - real m\<bar>" "\<bar>real ?b - real n\<bar> \<le> \<bar>real ?a - real n\<bar>"
    using round_units_nearest [OF _ assms(1) rep(2), of 1 m] round_units_nearest [OF _ assms(1) rep(1), of 1 n] by simp_all
  moreover have "real m \<le> real n" using assms(2) by simp
  ultimately have "real m = real n" using less by linarith
  with less show False by simp
qed

lemma representable_power_2: "representable 53 (2 ^ k)"
  using representable_power [of 1 53 k] by simp

abbreviation count_units :: "nat \<Rightarrow> nat" where
  "count_units n \<equiv> round_units 53 (n * 2 ^ 1074) 1"

lemma power_split: "k = i + j \<Longrightarrow> (2 :: 'a :: comm_semiring_1) ^ k = 2 ^ i * 2 ^ j"
  by (simp only: power_add)

lemma count_bounds:
  assumes "0 < n" and "n \<le> 2 ^ 63"
  shows "2 ^ 1074 \<le> count_units n" and "count_units n \<le> 2 ^ 1137"
    and "\<bar>real (count_units n) - real n * 2 ^ 1074\<bar> \<le> real n * 2 ^ 1074 * unit_error"
proof -
  have one: "1 * 2 ^ 1074 \<le> n * 2 ^ 1074" using assms(1) by (intro mult_le_mono1) simp
  have "representable 53 (1 * 2 ^ 1074)" by (rule representable_power) simp_all
  with one show "2 ^ 1074 \<le> count_units n" by (intro round_units_ge) simp_all
  have "n * 2 ^ 1074 \<le> 2 ^ 63 * 2 ^ 1074" using assms(2) by (rule mult_le_mono1)
  also have "(2::nat) ^ 63 * 2 ^ 1074 = 1 * 2 ^ 1137 * 1" by (simp only: mult_1 mult_1_right) (rule power_split [symmetric], simp)
  finally have "count_units n \<le> 1 * 2 ^ 1137" by (intro round_units_le representable_power) simp_all
  then show "count_units n \<le> 2 ^ 1137" by (simp only: mult_1)
  have "(2::nat) ^ 52 \<le> 2 ^ 1074" by (rule power_increasing) simp_all
  with one have "2 ^ (53 - 1) * 1 \<le> n * 2 ^ 1074" by simp
  then have "\<bar>real (count_units n) - real (n * 2 ^ 1074) / real 1\<bar> \<le> real (n * 2 ^ 1074) / real 1 / 2 ^ 53"
    by (intro round_units_relative) simp_all
  then show "\<bar>real (count_units n) - real n * 2 ^ 1074\<bar> \<le> real n * 2 ^ 1074 * unit_error"
    by (simp only: of_nat_mult of_nat_power of_nat_numeral of_nat_1 div_by_1 times_divide_eq_right mult_1_right)
qed

lemma count_fp:
  assumes "0 < n" and "n \<le> 2 ^ 63"
  shows "int_to_fp (int n) = Finite False (count_units n)"
proof -
  have "(2::nat) ^ 1137 < 2 ^ 2098" by (rule power_strict_increasing) simp_all
  with count_bounds(2) [OF assms] have "count_units n < 2 ^ 2098" by (rule le_less_trans)
  moreover have "(int n < 0) = False" by simp
  ultimately show ?thesis by (simp only: int_to_fp_def round64_def fp_round_def Let_def abs_of_nat nat_int if_True)
qed

subsection \<open>The share\<close>

abbreviation share_units :: "nat \<Rightarrow> nat \<Rightarrow> nat" where
  "share_units a b \<equiv> round_units 53 (a * 2 ^ 1074) b"

lemma share_bounds:
  assumes a: "2 ^ 1074 \<le> a" and le: "a \<le> b" and b: "b \<le> 2 ^ 1137"
  shows "2 ^ 1000 \<le> share_units a b" and "share_units a b \<le> 2 ^ 1074"
    and "\<bar>real (share_units a b) - real a / real b * 2 ^ 1074\<bar> \<le> real a / real b * 2 ^ 1074 * unit_error"
proof -
  have "(0::nat) < 2 ^ 1074" by simp
  with a le have pos: "0 < b" by (meson less_le_trans)
  have ge: "2 ^ 1000 * b \<le> a * 2 ^ 1074"
  proof -
    have "2 ^ 1000 * b \<le> 2 ^ 1000 * 2 ^ 1137" using b by (rule mult_le_mono2)
    also have "\<dots> = (2::nat) ^ 2137" by (rule power_split [symmetric]) simp
    also have "\<dots> \<le> 2 ^ 2148" by (rule power_increasing) simp_all
    also have "\<dots> = (2::nat) ^ 1074 * 2 ^ 1074" by (rule power_split) simp
    also have "\<dots> \<le> a * 2 ^ 1074" using a by (rule mult_le_mono1)
    finally show ?thesis .
  qed
  then show "2 ^ 1000 \<le> share_units a b" using pos by (intro round_units_ge representable_power_2) simp_all
  have "(2::nat) ^ 52 \<le> 2 ^ 1000" by (rule power_increasing) simp_all
  then have "2 ^ 52 * b \<le> 2 ^ 1000 * b" by (rule mult_le_mono1)
  with ge have "2 ^ 52 * b \<le> a * 2 ^ 1074" by (rule order_trans [rotated])
  then have "\<bar>real (share_units a b) - real (a * 2 ^ 1074) / real b\<bar> \<le> real (a * 2 ^ 1074) / real b / 2 ^ 53"
    using pos by (intro round_units_relative) simp_all
  then show "\<bar>real (share_units a b) - real a / real b * 2 ^ 1074\<bar> \<le> real a / real b * 2 ^ 1074 * unit_error"
    by (simp only: of_nat_mult of_nat_power of_nat_numeral times_divide_eq_right times_divide_eq_left mult_1_right)
  have "a * 2 ^ 1074 \<le> 2 ^ 1074 * b" using mult_le_mono1 [OF le, of "2 ^ 1074"] by (simp only: mult.commute [of b])
  then show "share_units a b \<le> 2 ^ 1074" using pos by (intro round_units_le representable_power_2) simp_all
qed

abbreviation percent_units :: "nat \<Rightarrow> nat" where
  "percent_units q \<equiv> round_units 53 (q * (100 * 2 ^ 1074)) (2 ^ 1074)"

lemma percent_bounds:
  assumes q: "2 ^ 1000 \<le> q" "q \<le> 2 ^ 1074"
  shows "percent_units q \<le> 100 * 2 ^ 1074" and "\<bar>real (percent_units q) - real q * 100\<bar> \<le> real q * 100 * unit_error"
proof -
  have "representable 53 (100 * 2 ^ 1074)" by (rule representable_power) simp_all
  moreover have "q * (100 * 2 ^ 1074) \<le> 100 * 2 ^ 1074 * 2 ^ 1074"
    using mult_le_mono1 [OF q(2), of "100 * 2 ^ 1074"] by (simp only: ac_simps)
  ultimately show "percent_units q \<le> 100 * 2 ^ 1074" by (intro round_units_le) (simp_all only:, simp_all)
  have "(2::nat) ^ 52 \<le> 2 ^ 1000" by (rule power_increasing) simp_all
  with q(1) have "2 ^ 52 \<le> q" by (rule order_trans [rotated])
  then have "2 ^ 52 * 2 ^ 1074 \<le> q * (100 * 2 ^ 1074)" by (intro mult_le_mono) simp_all
  then have "\<bar>real (percent_units q) - real (q * (100 * 2 ^ 1074)) / real (2 ^ 1074)\<bar> \<le> real (q * (100 * 2 ^ 1074)) / real (2 ^ 1074) / 2 ^ 53"
    by (intro round_units_relative) simp_all
  moreover have "real (q * (100 * 2 ^ 1074)) / real (2 ^ 1074) = real q * 100" by (simp add: mult.assoc)
  ultimately show "\<bar>real (percent_units q) - real q * 100\<bar> \<le> real q * 100 * unit_error" by (simp only: times_divide_eq_right mult_1_right)
qed

text \<open>Four roundings add up to less than \<open>2^(-50)\<close>.\<close>

lemma relative_error:
  fixes x v :: real
  assumes "\<bar>x - v\<bar> \<le> v * e"
  shows "v * (1 - e) \<le> x" and "x \<le> v * (1 + e)"
  using assms by (simp_all add: abs_le_iff algebra_simps)

lemma four_errors:
  fixes a b q p r t :: real
  assumes r: "0 < r" and t: "0 < t"
    and a: "\<bar>a - r\<bar> \<le> r * unit_error" and b: "\<bar>b - t\<bar> \<le> t * unit_error"
    and q: "\<bar>q - a / b * c\<bar> \<le> a / b * c * unit_error" and p: "\<bar>p - q * 100\<bar> \<le> q * 100 * unit_error" and c: "0 < c"
  shows "\<bar>p - r / t * c * 100\<bar> \<le> r / t * c * 100 / 2 ^ 50"
proof -
  let ?u = unit_error
  have pos: "0 < a" "0 < b" using relative_error(1) [OF a] relative_error(1) [OF b] r t by (simp_all add: field_simps)
  have up: "a / b \<le> r * (1 + ?u) / (t * (1 - ?u))"
    using relative_error(2) [OF a] relative_error(1) [OF b] r t by (intro frac_le) simp_all
  have low: "r * (1 - ?u) / (t * (1 + ?u)) \<le> a / b"
    using relative_error(1) [OF a] relative_error(2) [OF b] pos by (intro frac_le) simp_all
  let ?v = "r / t * c * 100"
  have v: "0 < ?v" using r t c by simp
  have "p \<le> q * 100 * (1 + ?u)" by (rule relative_error(2) [OF p])
  also have "\<dots> \<le> a / b * c * (1 + ?u) * 100 * (1 + ?u)"
    using relative_error(2) [OF q] by (intro mult_right_mono) simp_all
  also have "\<dots> \<le> r * (1 + ?u) / (t * (1 - ?u)) * c * (1 + ?u) * 100 * (1 + ?u)"
    using up c by (intro mult_right_mono) simp_all
  also have "\<dots> = ?v * ((1 + ?u) ^ 3 / (1 - ?u))" by (simp add: field_simps power3_eq_cube)
  also have "\<dots> \<le> ?v * (1 + 1 / 2 ^ 50)" using v by (intro mult_left_mono) (simp_all add: field_simps)
  finally have "p \<le> ?v + ?v / 2 ^ 50" by (simp add: algebra_simps)
  have "?v - ?v / 2 ^ 50 = ?v * (1 - 1 / 2 ^ 50)" by (simp add: algebra_simps)
  also have "\<dots> \<le> ?v * ((1 - ?u) ^ 3 / (1 + ?u))" using v by (intro mult_left_mono) (simp_all add: field_simps)
  also have "\<dots> = r * (1 - ?u) / (t * (1 + ?u)) * c * (1 - ?u) * 100 * (1 - ?u)" by (simp add: field_simps power3_eq_cube)
  also have "\<dots> \<le> a / b * c * (1 - ?u) * 100 * (1 - ?u)"
    using low c by (intro mult_right_mono) simp_all
  also have "\<dots> \<le> q * 100 * (1 - ?u)"
    using relative_error(1) [OF q] by (intro mult_right_mono) simp_all
  also have "\<dots> \<le> p" by (rule relative_error(1) [OF p])
  finally show ?thesis using \<open>p \<le> ?v + ?v / 2 ^ 50\<close> by linarith
qed

lemma percent_fp:
  assumes "0 < r" "r \<le> t" "t \<le> 2 ^ 63"
  defines "p \<equiv> percent_units (share_units (count_units r) (count_units t))"
  shows "fp_mul (fp_div (int_to_fp (int r)) (int_to_fp (int t))) (int_to_fp 100) = Finite False p"
    and "p \<le> 100 * 2 ^ 1074"
    and "\<bar>real p - real r / real t * 2 ^ 1074 * 100\<bar> \<le> real r / real t * 2 ^ 1074 * 100 / 2 ^ 50"
proof -
  let ?a = "count_units r" and ?b = "count_units t"
  have t: "0 < t" and r: "r \<le> 2 ^ 63" using assms by linarith+
  note a = count_bounds [OF assms(1) r] and b = count_bounds [OF t assms(3)]
  have le: "?a \<le> ?b" using mult_le_mono1 [OF assms(2), of "2 ^ 1074"] by (intro round_units_mono) simp_all
  note q = share_bounds [OF a(1) le b(2)]
  note per = percent_bounds [OF q(1,2), folded p_def]
  from per(1) show "p \<le> 100 * 2 ^ 1074" .
  have big: "(2::nat) ^ 1074 < 2 ^ 2098" by (rule power_strict_increasing) simp_all
  have "100 * 2 ^ 1074 < (2::nat) ^ 7 * 2 ^ 1074" by (intro mult_strict_right_mono) simp_all
  also have "\<dots> = (2::nat) ^ 1081" by (rule power_split [symmetric]) simp
  also have "\<dots> < 2 ^ 2098" by (rule power_strict_increasing) simp_all
  finally have "(100::nat) * 2 ^ 1074 < 2 ^ 2098" .
  with per(1) have p: "p < 2 ^ 2098" by (rule le_less_trans)
  have hundred: "int_to_fp 100 = Finite False (100 * 2 ^ 1074)"
  proof -
    have "representable 53 (100 * 2 ^ 1074)" by (rule representable_power) simp_all
    then have "count_units 100 = 100 * 2 ^ 1074" using round_units_exact [of 53 "100 * 2 ^ 1074" 1] by simp
    moreover have "int_to_fp (int 100) = Finite False (count_units 100)" by (rule count_fp) simp_all
    ultimately show ?thesis by simp
  qed
  have "(0::nat) < 2 ^ 1074" by simp
  then have "?b \<noteq> 0" using b(1) by linarith
  moreover have "share_units ?a ?b < 2 ^ 2098" using q(2) big by (rule le_less_trans)
  ultimately have "fp_div (Finite False ?a) (Finite False ?b) = Finite False (share_units ?a ?b)"
    by (simp only: fp_div.simps round64_def fp_round_def Let_def if_False if_True simp_thms)
  with p show "fp_mul (fp_div (int_to_fp (int r)) (int_to_fp (int t))) (int_to_fp 100) = Finite False p"
    by (simp only: count_fp [OF assms(1) r] count_fp [OF t assms(3)] hundred fp_mul.simps round64_def fp_round_def Let_def
        if_False if_True simp_thms flip: p_def)
  have pos: "(0::real) < real r * 2 ^ 1074" "0 < real t * 2 ^ 1074"
    using assms(1) t by (intro mult_pos_pos; simp)+
  have "real r * 2 ^ 1074 / (real t * 2 ^ 1074) = real r / real t" by (rule mult_divide_mult_cancel_right) simp
  with four_errors [OF pos a(3) b(3) q(3) per(2)]
  show "\<bar>real p - real r / real t * 2 ^ 1074 * 100\<bar> \<le> real r / real t * 2 ^ 1074 * 100 / 2 ^ 50"
    by (simp only: zero_less_power zero_less_numeral simp_thms)
qed

lemma finite_units:
  assumes "u \<le> 100 * 2 ^ 1074" and "representable 53 u"
  shows "f64_finite (to_f64 (Finite False u))" and "f64_real (to_f64 (Finite False u)) = real u / 2 ^ 1074"
proof -
  have "100 * 2 ^ 1074 < (2::nat) ^ 7 * 2 ^ 1074" by (intro mult_strict_right_mono) simp_all
  also have "\<dots> = (2::nat) ^ 1081" by (rule power_split [symmetric]) simp
  also have "\<dots> < 2 ^ 2098" by (rule power_strict_increasing) simp_all
  finally have "u < 2 ^ 2098" using assms(1) by (rule le_less_trans [rotated])
  with assms(2) have "fp_ok 53 2098 (Finite False u)" by (simp only: fp_ok_def fp.case simp_thms)
  then have "of_f64 (to_f64 (Finite False u)) = Finite False u" by (rule of_to_f64)
  then show "f64_finite (to_f64 (Finite False u))" "f64_real (to_f64 (Finite False u)) = real u / 2 ^ 1074"
    by (simp_all only: f64_finite_def f64_real_def fp_finite.simps fp_real_def fp.case if_False)
qed

text \<open>
  C32: CacheSavingsPercent, for counts that are not negative and whose sum is an int, is a number
  between 0 and 100: never a NaN, and never above 100 however the four operations round. It is the
  exact percentage of the input tokens that came from the cache to within a relative 2^-50, and 0
  when there is no input.
\<close>

theorem cache_savings_share:
  assumes "0 \<le> us_prompt u" "0 \<le> us_cache_read u" "0 \<le> us_cache_creation u"
    and "us_prompt u + us_cache_read u + us_cache_creation u < 2 ^ 63"
  defines "share \<equiv> us_cache_read u / (us_prompt u + us_cache_read u + us_cache_creation u) * 100"
  shows "f64_finite (cache_savings_percent u) \<and>
    0 \<le> f64_real (cache_savings_percent u) \<and> f64_real (cache_savings_percent u) \<le> 100 \<and>
    \<bar>f64_real (cache_savings_percent u) - share\<bar> \<le> share / 2 ^ 50"
proof -
  define r t where "r = nat (us_cache_read u)" and "t = nat (us_prompt u + us_cache_read u + us_cache_creation u)"
  have int: "us_cache_read u = int r" "us_prompt u + us_cache_read u + us_cache_creation u = int t" "r \<le> t" "t \<le> 2 ^ 63"
    using assms(1-4) by (simp_all add: r_def t_def)
  have total: "total_input u = int t"
    using int(2) assms(1-4) by (simp add: total_input_def wrap64_add_left wrap64_id int64_def)
  have share: "share = real r / real t * 100" by (simp only: share_def int(2)) (simp add: int(1))
  show ?thesis
  proof (cases "r = 0")
    case True
    then have "cache_savings_percent u = 0" by (simp add: cache_savings_percent_def int)
    moreover have "of_f64 0 = Finite False 0" by (simp add: of_f64_def fp_decode_def)
    ultimately show ?thesis using True by (simp add: f64_finite_def f64_real_def fp_real_def share)
  next
    case False
    define p where "p = percent_units (share_units (count_units r) (count_units t))"
    from False have "0 < r" by simp
    note p = percent_fp [OF this int(3,4), folded p_def]
    have "representable 53 p" unfolding p_def by (rule round_units_representable) simp_all
    note fin = finite_units [OF p(2) this]
    have c: "cache_savings_percent u = to_f64 (Finite False p)"
      using False int(3) p(1) by (simp add: cache_savings_percent_def total int(1))
    have "real p \<le> real (100 * 2 ^ 1074)" using p(2) by (simp only: of_nat_le_iff)
    then have "real p / 2 ^ 1074 \<le> 100" by (simp add: field_simps)
    moreover have "\<bar>real p / 2 ^ 1074 - share\<bar> \<le> share / 2 ^ 50"
    proof -
      have "\<bar>real p - share * 2 ^ 1074\<bar> / 2 ^ 1074 \<le> share / 2 ^ 50 * 2 ^ 1074 / 2 ^ 1074"
        using p(3) by (intro divide_right_mono) (simp_all add: share ac_simps)
      moreover have "\<bar>real p - share * 2 ^ 1074\<bar> / 2 ^ 1074 = \<bar>real p / 2 ^ 1074 - share * 2 ^ 1074 / 2 ^ 1074\<bar>"
        by (rule abs_div_diff) simp
      ultimately show ?thesis by simp
    qed
    ultimately show ?thesis by (simp only: c fin) simp
  qed
qed

lemma cache_savings_share_witness:
  "\<bar>f64_real (cache_savings_percent \<lparr>us_prompt = 100, us_completion = 7, us_total = 407, us_cache_creation = 0,
     us_cache_read = 300\<rparr>) - 75\<bar> \<le> 75 / 2 ^ 50"
  using cache_savings_share [of "\<lparr>us_prompt = 100, us_completion = 7, us_total = 407, us_cache_creation = 0,
     us_cache_read = 300\<rparr>"]
  by simp

end
