(* ===== verification/Gateway.thy ===== *)
theory Gateway
  imports Stack ProxyProps SseScanner
begin

text \<open>
  The proxy over a real provider: the Anthropic package as it registers itself, its client's
  methods on the HTTP stack New builds, and the proxy's handlers on top. The world of an exchange
  is that of the network below the stack and the attempts that reached it.
\<close>

subsection \<open>The Anthropic package as a provider\<close>

text \<open>\<open>encoding/json\<close> on what the client sends and receives, and the capability table in some order.\<close>

record a_json =
  aj_error :: "bytes \<Rightarrow> a_error"
  aj_marshal :: "a_request \<Rightarrow> go_error + bytes"
  aj_decode :: "bytes \<Rightarrow> go_error + a_response"
  aj_zero :: a_response
  aj_event :: "bytes \<Rightarrow> go_error + a_event"
  aj_models :: "bytes \<Rightarrow> go_error + a_model_data list"
  aj_table :: "(string \<times> capability list) list"

text \<open>
  A streamed call keeps the response it opened, whose body the stream goroutine then reads;
  what a client has learned or counted is not in the world, since the proxy makes a client for
  each request and calls it once.
\<close>

definition anthropic_opened ::
  "'v net \<Rightarrow> http_client \<Rightarrow> a_json \<Rightarrow> a_client \<Rightarrow> a_request \<Rightarrow> ('v \<times> nat) \<times> http_response option
     \<Rightarrow> (go_error + int \<times> bytes) \<times> ('v \<times> nat) \<times> http_response option" where
  "anthropic_opened N h J c a s =
     (let (res, s') = anthropic_open N h c (aj_marshal J) a (fst s);
          resp = (case do_sse_request (client_api N h) ''POST'' (ac_base_url c @ ''/messages'') (anthropic_headers c)
                         (Some (aj_marshal J a)) (fst s) of
                    (Inl e, _) \<Rightarrow> None | (Inr r, _) \<Rightarrow> Some r)
      in (res, s', resp))"

definition stream_of :: "'v net \<Rightarrow> a_json \<Rightarrow> http_response \<Rightarrow> chunk list \<times> go_error option" where
  "stream_of N J resp =
     (let (body, err) = (case read_body (nt_room N) resp of Some r \<Rightarrow> r | None \<Rightarrow> ([], None));
          (ds, scan_err) = sse_events body err
      in stream_loop (aj_event J) scan_err no_tokens ds)"

definition anthropic_streams ::
  "'v net \<Rightarrow> http_client \<Rightarrow> a_json \<Rightarrow> a_client \<Rightarrow> extension chat_request \<Rightarrow> 'v \<times> nat
     \<Rightarrow> (go_error + chunk list \<times> go_error option) \<times> 'v \<times> nat" where
  "anthropic_streams N h J c req s =
     (case anthropic_chat_stream (aj_error J) (anthropic_opened N h J c) req c (s, None) of
        None \<Rightarrow> (Inl EofErr, s)
      | Some (Some e, k) \<Rightarrow> (Inl e, fst (cl_world k))
      | Some (None, k) \<Rightarrow>
          (case cl_world k of
             (s', Some resp) \<Rightarrow> (Inr (stream_of N J resp), s')
           | (s', None) \<Rightarrow> (Inl EofErr, s')))"

definition anthropic_chats ::
  "'v net \<Rightarrow> http_client \<Rightarrow> a_json \<Rightarrow> a_client \<Rightarrow> extension chat_request \<Rightarrow> 'v \<times> nat
     \<Rightarrow> (go_error + chat_response) \<times> 'v \<times> nat" where
  "anthropic_chats N h J c req s =
     (case anthropic_chat (aj_error J) (anthropic_post N h c (aj_marshal J) (aj_decode J) (aj_zero J)) req c s of
        None \<Rightarrow> (Inl EofErr, s)
      | Some (res, k) \<Rightarrow> (res, cl_world k))"

definition anthropic_lists ::
  "'v net \<Rightarrow> http_client \<Rightarrow> a_json \<Rightarrow> a_client \<Rightarrow> capability list option list \<Rightarrow> 'v \<times> nat
     \<Rightarrow> (go_error + model_info list) \<times> 'v \<times> nat" where
  "anthropic_lists N h J c opts s =
     (case do_json (client_api N h) ''GET'' (ac_base_url c @ ''/models'') (anthropic_headers c) None (Some (aj_models J)) s of
        (None, s') \<Rightarrow> (Inl EofErr, s')
      | (Some (jr, ms), s') \<Rightarrow>
          (anthropic_list_models (aj_error J) (aj_table J) c jr (case ms of None \<Rightarrow> [] | Some l \<Rightarrow> l) opts, s'))"

definition anthropic_methods ::
  "'v net \<Rightarrow> http_client \<Rightarrow> a_json \<Rightarrow> a_client \<Rightarrow> (extension, 'v \<times> nat) llm_client" where
  "anthropic_methods N h J c =
     \<lparr>cl_chat = anthropic_chats N h J c, cl_chat_stream = anthropic_streams N h J c,
      cl_embed = (\<lambda>_ s. (Inl anthropic_embed, s)), cl_embed_batch = (\<lambda>_ s. (Inl anthropic_embed, s)),
      cl_rerank = (\<lambda>_ s. (Inl anthropic_rerank, s)), cl_decide = (\<lambda>_ s. (Inl anthropic_decide, s)),
      cl_embed_multimodal = (\<lambda>_ s. (Inl anthropic_embed_multimodal, s)),
      cl_list_models = (\<lambda>opts s. case anthropic_lists N h J c opts s of (r, s') \<Rightarrow> (model_names r, s')),
      cl_list_metadata = anthropic_lists N h J c,
      cl_ping = (\<lambda>s. case anthropic_lists N h J c [] s of (r, s') \<Rightarrow> (ping_by_listing (model_names r), s')),
      cl_provider = provider_name, cl_model = ac_model c,
      cl_usage = (\<lambda>_. ac_usage c), cl_reset_usage = (\<lambda>s. s)\<rparr>"

text \<open>What the package registers: \<open>New\<close> with no options of the caller's.\<close>

definition anthropic_constructor ::
  "(string \<Rightarrow> bytes option) \<Rightarrow> (string \<Rightarrow> go_error) \<Rightarrow> 'v net \<Rightarrow> a_json
     \<Rightarrow> (extension client_options, (extension, 'v \<times> nat) llm_client) constructor" where
  "anthropic_constructor read_file parse_err N J opts =
     map_sum id (\<lambda>(c, h). anthropic_methods N h J c) (anthropic_new read_file parse_err None opts)"

subsection \<open>What a request to the proxy costs\<close>

text \<open>A client that puts at most \<open>b\<close> attempts on the network for a call of one of its methods.\<close>

definition metered_client :: "nat \<Rightarrow> ('x, 'v \<times> nat) llm_client \<Rightarrow> bool" where
  "metered_client b cl \<longleftrightarrow>
     (\<forall>s. (\<forall>q. snd (snd (cl_chat cl q s)) \<le> snd s + b \<and> snd (snd (cl_chat_stream cl q s)) \<le> snd s + b) \<and>
          (\<forall>q. snd (snd (cl_rerank cl q s)) \<le> snd s + b) \<and> (\<forall>q. snd (snd (cl_embed_multimodal cl q s)) \<le> snd s + b) \<and>
          (\<forall>ts. snd (snd (cl_embed_batch cl ts s)) \<le> snd s + b) \<and>
          (\<forall>os. snd (snd (cl_list_models cl os s)) \<le> snd s + b \<and> snd (snd (cl_list_metadata cl os s)) \<le> snd s + b) \<and>
          snd (snd (cl_ping cl s)) \<le> snd s + b)"

lemma metered_calls:
  assumes "metered_client b cl"
  shows "snd (snd (cl_chat cl q s)) \<le> snd s + b" "snd (snd (cl_chat_stream cl q s)) \<le> snd s + b"
    "snd (snd (cl_rerank cl q1 s)) \<le> snd s + b" "snd (snd (cl_embed_multimodal cl q2 s)) \<le> snd s + b"
    "snd (snd (cl_embed_batch cl ts s)) \<le> snd s + b" "snd (snd (cl_list_models cl os s)) \<le> snd s + b"
    "snd (snd (cl_list_metadata cl os s)) \<le> snd s + b" "snd (snd (cl_ping cl s)) \<le> snd s + b"
  using assms unfolding metered_client_def by blast+

text \<open>What the handlers do besides calling a client leaves the world alone.\<close>

lemma world_kept [simp]:
  "ex_world (new_exchange w) = w"
  "ex_world (set_header k v e) = ex_world e"
  "ex_world (write_header st e) = ex_world e"
  "ex_world (write_body p e) = ex_world e"
  "ex_world (log_that l e) = ex_world e"
  by (simp_all add: exchange_steps split: option.split)

lemma encode_world [simp]: "ex_world (snd (encode_json E p e)) = ex_world e"
  by (simp add: encode_json_def split: option.split)

lemma error_world [simp]: "ex_world (write_error E cfg info e) = ex_world e"
  by (simp add: write_error_def Let_def)

lemma encode_kept: "encode_json E p e = (x, e1) \<Longrightarrow> ex_world e1 = ex_world e"
  using encode_world [of E p e] by simp

lemma respond_kept: "respond E cfg info p e = (ok, e1) \<Longrightarrow> ex_world e1 = ex_world e"
  by (auto simp: respond_def dest: encode_kept split: prod.splits option.splits)

lemma respond_world [simp]: "ex_world (snd (respond E cfg info p e)) = ex_world e"
  by (metis prod.collapse respond_kept)

lemma on_response_world [simp]: "ex_world (on_response cfg info st resp e) = ex_world e"
  by (simp add: on_response_def)

lemma events_world [simp]: "ex_world (write_events evs e) = ex_world e"
  unfolding write_events_def by (induction evs arbitrary: e) simp_all

lemma stream_headers_world [simp]: "ex_world (stream_headers e) = ex_world e"
  by (simp add: stream_headers_def)

lemma authorize_world: "authorize E cfg r info e = (ok, r1, e1) \<Longrightarrow> ex_world e1 = ex_world e"
  by (auto simp: authorize_def split: option.splits prod.splits)

lemma transform_world: "transform E cfg r info q e = (ok, q1, e1) \<Longrightarrow> ex_world e1 = ex_world e"
  by (auto simp: transform_def split: option.splits prod.splits)

text \<open>
  The interface the handlers have to the clients they open, with the cost of their methods, and
  the cost of a request: one call, or for the health check one call per provider.
\<close>

definition opens :: "('x, 'w) proxy_env \<Rightarrow> 'x proxy_config \<Rightarrow> ('x, 'w) llm_client \<Rightarrow> bool" where
  "opens E cfg client \<longleftrightarrow>
     (\<exists>p opts m. (p, opts) \<in> set (pc_providers cfg) \<and> open_client E p (opts\<lparr>opt_model := m\<rparr>) = Inr client)"

lemma opens_as_is: "(p, opts) \<in> set (pc_providers cfg) \<Longrightarrow> open_client E p opts = Inr client \<Longrightarrow> opens E cfg client"
  unfolding opens_def by (intro exI [of _ p] exI [of _ opts] exI [of _ "opt_model opts"]) simp

lemma opens_named:
  "map_of (pc_providers cfg) p = Some opts \<Longrightarrow>
    open_client E p (if m \<noteq> [] then opts\<lparr>opt_model := m\<rparr> else opts) = Inr client \<Longrightarrow> opens E cfg client"
proof (cases "m = []")
  case True
  assume "map_of (pc_providers cfg) p = Some opts" and "open_client E p (if m \<noteq> [] then opts\<lparr>opt_model := m\<rparr> else opts) = Inr client"
  with True opens_as_is [OF map_of_SomeD] show ?thesis by fastforce
qed (auto simp: opens_def dest!: map_of_SomeD)

lemma parsed_options:
  assumes "parse_chat_request E cfg r = Inr (q, opts, p, model)"
  shows "\<exists>opts0. map_of (pc_providers cfg) p = Some opts0 \<and> opts = (if pq_model q \<noteq> [] then opts0\<lparr>opt_model := pq_model q\<rparr> else opts0)"
  using assms by (auto simp: parse_chat_request_def Let_def split: sum.splits if_splits option.splits)

locale metered_providers =
  fixes E :: "('x, 'v \<times> nat) proxy_env" and cfg :: "'x proxy_config" and b :: nat
  assumes metered: "opens E cfg client \<Longrightarrow> metered_client b client"
begin

abbreviation spent :: "('x, 'v \<times> nat) exchange \<Rightarrow> nat" where
  "spent e \<equiv> snd (ex_world e)"

lemma call_spent:
  assumes "call l f e = (r, e1)" and "\<And>s. snd (snd (f s)) \<le> snd s + b"
  shows "spent e1 \<le> spent e + b"
  using assms(1) assms(2) [of "ex_world e"] by (auto simp: call_def split: prod.splits)

lemma admit_spent:
  assumes "\<And>r1 i e. spent (k r1 i e) \<le> spent e + d"
  shows "spent (admit E cfg r w k) \<le> snd w + d"
proof -
  obtain r1 i where i: "ensure_request_id E cfg r = (r1, i)" by (metis surj_pair)
  let ?e = "if i \<noteq> [] then set_header (request_id_header_name cfg) i (new_exchange w) else new_exchange w"
  obtain ok r2 e2 where a: "authorize E cfg r1 (no_info i) ?e = (ok, r2, e2)" by (metis surj_pair)
  have "ex_world e2 = w" using authorize_world [OF a] by simp
  with i a assms [of r2 i e2] show ?thesis by (simp add: admit_def Let_def)
qed

lemma chat_spent:
  assumes "\<And>client req info e. metered_client b client \<Longrightarrow> spent (k client req info e) \<le> spent e + b"
  shows "spent (begin_chat E cfg stream r i e k) \<le> spent e + b"
proof (cases "parse_chat_request E cfg r")
  case (Inr x)
  obtain q opts provider model where x: "x = (q, opts, provider, model)" by (metis surj_pair)
  obtain ok req e1 where t: "transform E cfg r (chat_info provider model stream i) (build_llm_request q) e = (ok, req, e1)"
    by (metis surj_pair)
  obtain opts0 m where o: "map_of (pc_providers cfg) provider = Some opts0" "opts = (if m \<noteq> [] then opts0\<lparr>opt_model := m\<rparr> else opts0)"
    using parsed_options Inr x by metis
  have "metered_client b client" if "open_client E provider opts = Inr client" for client
    using that [unfolded o(2)] by (intro metered opens_named [OF o(1)])
  note k = assms [OF this]
  have e1: "spent e1 = spent e" using transform_world [OF t] by simp
  show ?thesis
  proof (cases "ok \<and> (\<exists>client. open_client E provider opts = Inr client)")
    case True
    then obtain client where c: "open_client E provider opts = Inr client" by blast
    let ?e2 = "if pc_on_request cfg then log_that (OnRequest \<lparr>ri_provider = provider, ri_model = model, ri_stream = stream,
        ri_request_id = i, ri_request = req\<rparr>) e1 else e1"
    have "begin_chat E cfg stream r i e k_fun = k_fun client req (chat_info provider model stream i) ?e2" for k_fun
      using True by (simp add: begin_chat_def Inr x t c Let_def)
    moreover have "spent ?e2 = spent e" using e1 by simp
    ultimately show ?thesis using k [OF c, of req "chat_info provider model stream i" ?e2] by (simp only:)
  next
    case False
    then show ?thesis
      using e1 by (cases "open_client E provider opts") (auto simp: begin_chat_def Inr x t Let_def)
  qed
qed (simp add: begin_chat_def)

lemma finish_chat_spent:
  assumes "metered_client b client"
  shows "spent (finish_chat E cfg client req info e) \<le> spent e + b"
proof -
  obtain r e1 where c: "call (CallChat (ei_provider info) req) (cl_chat client req) e = (r, e1)" by (metis surj_pair)
  have m: "spent e1 \<le> spent e + b" using call_spent [OF c metered_calls(1) [OF assms]] .
  then show ?thesis by (cases r) (auto simp: finish_chat_def c dest: respond_kept split: prod.split)
qed

lemma finish_stream_spent:
  assumes "metered_client b client"
  shows "spent (finish_stream E cfg client req info e) \<le> spent e + b"
proof -
  obtain r e1 where c: "call (CallStream (ei_provider info) req) (cl_chat_stream client req) e = (r, e1)" by (metis surj_pair)
  have "spent e1 \<le> spent e + b" using call_spent [OF c metered_calls(2) [OF assms]] .
  then show ?thesis
    by (cases r) (auto simp: finish_stream_def c Let_def split: prod.split option.split)
qed

lemma answer_spent:
  assumes "\<And>s. snd (snd (f s)) \<le> snd s + b"
  shows "spent (answer_with E cfg info body (call l f e)) \<le> spent e + b"
proof -
  obtain r e1 where c: "call l f e = (r, e1)" by (metis surj_pair)
  from call_spent [OF c assms] show ?thesis by (cases r) (simp_all add: answer_with_def c)
qed

lemma named_spent:
  assumes "\<And>client info e. metered_client b client \<Longrightarrow> spent (k client info e) \<le> spent e + b"
  shows "spent (named_client E cfg named model i e k) \<le> spent e + b"
proof -
  define p where "p = (if named = [] then pc_default cfg else named)"
  show ?thesis
  proof (cases "map_of (pc_providers cfg) p")
    case (Some opts)
    define o1 where "o1 = (if model \<noteq> [] then opts\<lparr>opt_model := model\<rparr> else opts)"
    show ?thesis
    proof (cases "open_client E p o1")
      case (Inr client)
      with Some have "metered_client b client" unfolding o1_def by (intro metered opens_named)
      from assms [OF this] show ?thesis
        by (simp add: named_client_def Let_def Some Inr flip: p_def o1_def)
    qed (simp add: named_client_def Let_def Some flip: p_def o1_def)
  qed (simp add: named_client_def Let_def flip: p_def)
qed

lemma models_spent:
  assumes "metered_client b client"
  shows "spent (send_models E cfg client r info e) \<le> spent e + b"
proof -
  obtain m e1 where m: "call (CallOther (ei_provider info)) (cl_list_metadata client (list_options r)) e = (m, e1)"
    by (metis surj_pair)
  obtain n e2 where n: "call (CallOther (ei_provider info)) (cl_list_models client (list_options r)) e = (n, e2)"
    by (metis surj_pair)
  have "spent e1 \<le> spent e + b" "spent e2 \<le> spent e + b"
    using call_spent [OF m metered_calls(7) [OF assms]] call_spent [OF n metered_calls(6) [OF assms]] .
  then show ?thesis by (cases m; cases n) (simp_all add: send_models_def m n)
qed

lemma check_spent:
  "set ps \<subseteq> set (pc_providers cfg) \<Longrightarrow> spent (snd (snd (check_providers E cfg ps e))) \<le> spent e + length ps * b"
proof (induction ps arbitrary: e)
  case (Cons p ps)
  obtain name opts where p: "p = (name, opts)" by (metis surj_pair)
  show ?case
  proof (cases "open_client E name opts")
    case (Inl err)
    with Cons.IH [of e] Cons.prems p show ?thesis by (auto simp: Let_def split: prod.split)
  next
    case (Inr client)
    then have cl: "metered_client b client" using Cons.prems p by (intro metered opens_as_is [of name opts]) auto
    obtain r e1 where c: "call (CallOther name) (cl_ping client) e = (r, e1)" by (metis surj_pair)
    have "spent e1 \<le> spent e + b" using call_spent [OF c metered_calls(8) [OF cl]] .
    with Cons.IH [of e1] Cons.prems p Inr c show ?thesis by (auto simp: Let_def split: prod.split option.split)
  qed
qed simp

lemma health_spent: "spent (handle_health E cfg r w) \<le> snd w + length (pc_providers cfg) * b"
  unfolding handle_health_def
  by (rule admit_spent) (use check_spent in \<open>auto simp: Let_def case_prod_unfold\<close>)

lemma serve_spent: "spent (serve E cfg ep r w) \<le> snd w + (if ep = Health then length (pc_providers cfg) else 1) * b"
proof (cases ep)
  case Chat
  then show ?thesis using admit_spent [OF chat_spent [OF finish_chat_spent]] by (simp add: serve_def handle_chat_def)
next
  case ChatStream
  then show ?thesis using admit_spent [OF chat_spent [OF finish_stream_spent]] by (simp add: serve_def handle_chat_stream_def)
next
  case Models
  have "spent (handle_models E cfg r w) \<le> snd w + b" unfolding handle_models_def
    by (rule admit_spent)
       (auto simp: Let_def intro!: models_spent metered dest: map_of_SomeD intro: opens_as_is split: option.split sum.split)
  with Models show ?thesis by (simp add: serve_def)
next
  case Embed
  have "spent (handle_embed E cfg r w) \<le> snd w + b" unfolding handle_embed_def
    by (rule admit_spent) (auto intro!: named_spent answer_spent metered_calls split: sum.split)
  with Embed show ?thesis by (simp add: serve_def)
next
  case Rerank
  have "spent (handle_rerank E cfg r w) \<le> snd w + b" unfolding handle_rerank_def
    by (rule admit_spent) (auto intro!: named_spent answer_spent metered_calls split: sum.split)
  with Rerank show ?thesis by (simp add: serve_def)
next
  case EmbedMultimodal
  have "spent (handle_embed_multimodal E cfg r w) \<le> snd w + b" unfolding handle_embed_multimodal_def
    by (rule admit_spent) (auto intro!: named_spent answer_spent metered_calls split: sum.split)
  with EmbedMultimodal show ?thesis by (simp add: serve_def)
next
  case Providers
  have "spent (handle_providers E cfg r w) \<le> snd w + 0" unfolding handle_providers_def
    by (rule admit_spent) simp
  with Providers show ?thesis by (simp add: serve_def)
next
  case Health
  then show ?thesis using health_spent [of r w] by (simp add: serve_def)
qed

end

subsection \<open>The proxy over Anthropic\<close>

context metered begin

lemma anthropic_opened_cost:
  "anthropic_opened N h J c a s = (res, s', resp) \<Longrightarrow> snd s' \<le> snd (fst s) + b"
proof -
  assume o: "anthropic_opened N h J c a s = (res, s', resp)"
  have "anthropic_open N h c (aj_marshal J) a (fst s) = (res, fst s', snd s')"
    using o by (cases "anthropic_open N h c (aj_marshal J) a (fst s)") (simp add: anthropic_opened_def Let_def)
  from open_cost [OF this [unfolded anthropic_open_def]] show ?thesis .
qed

lemma opened_pass_cost:
  "open_pass um (anthropic_opened N h J k) req n s = Inr s' \<Longrightarrow>
    snd (fst (cl_world s')) \<le> snd (fst (cl_world s)) + b"
  "open_pass um (anthropic_opened N h J k) req n s = Inl r \<Longrightarrow>
    snd (fst (cl_world (snd r))) \<le> snd (fst (cl_world s)) + b"
  by (auto simp: open_pass_def Let_def dest: anthropic_opened_cost split: prod.splits sum.splits if_splits)

lemma opened_stream_cost:
  assumes "anthropic_chat_stream um (anthropic_opened N h J k) req c s = Some r"
  shows "snd (fst (cl_world (snd r))) \<le> snd (fst s) + 6 * b"
proof (cases "check_request c req")
  case None
  with assms have "open_loop um (anthropic_opened N h J k) req 1 (fresh_call c s) = Some r"
    by (simp add: anthropic_chat_stream_def)
  then have "snd (fst (cl_world (snd r))) \<le> snd (fst (cl_world (fresh_call c s))) + b * Suc (anthropic_max_sends - 1)"
    by (rule sse.budget) (simp_all add: anthropic_max_sends_def opened_pass_cost)
  then show ?thesis by (simp add: anthropic_max_sends_def fresh_call_def)
qed (use assms in \<open>auto simp: anthropic_chat_stream_def fresh_call_def\<close>)

lemma anthropic_streams_cost: "snd (snd (anthropic_streams N h J c req s)) \<le> snd s + 6 * b"
proof (cases "anthropic_chat_stream (aj_error J) (anthropic_opened N h J c) req c (s, None)")
  case (Some r)
  obtain out k s' resp where r: "r = (out, k)" "cl_world k = (s', resp)" by (metis surj_pair)
  from opened_stream_cost [OF Some] r show ?thesis
    by (simp add: anthropic_streams_def Some split: option.split)
qed (simp add: anthropic_streams_def)

lemma anthropic_chats_cost: "snd (snd (anthropic_chats N h J c req s)) \<le> snd s + 6 * b"
proof (cases "anthropic_chat (aj_error J) (anthropic_post N h c (aj_marshal J) (aj_decode J) (aj_zero J)) req c s")
  case (Some r)
  from anthropic_chat_cost [OF Some] show ?thesis by (cases r) (simp add: anthropic_chats_def Some)
qed (simp add: anthropic_chats_def)

lemma anthropic_lists_cost: "snd (snd (anthropic_lists N h J c opts s)) \<le> snd s + b"
  by (auto simp: anthropic_lists_def dest: do_json_cost split: prod.split option.split)

lemma anthropic_metered: "metered_client (6 * b) (anthropic_methods N h J c)"
proof -
  have lists: "snd (snd (anthropic_lists N h J c opts s)) \<le> snd s + 6 * b" for opts s
    using anthropic_lists_cost [of J c opts s] by linarith
  then have names: "snd (snd (case anthropic_lists N h J c opts s of (r, s') \<Rightarrow> (f r, s'))) \<le> snd s + 6 * b" for opts s f
    by (simp add: case_prod_unfold)
  show ?thesis unfolding metered_client_def anthropic_methods_def llm_client.select_convs
    by (intro allI conjI anthropic_chats_cost anthropic_streams_cost lists names) simp_all
qed

end

lemma anthropic_constructed:
  assumes "anthropic_constructor fs parse_err N J opts = Inr client"
  shows "metered_client (6 * attempts_allowed opts) client"
proof -
  obtain c h where n: "anthropic_new fs parse_err None opts = Inr (c, h)" "client = anthropic_methods N h J c"
    using assms by (auto simp: anthropic_constructor_def map_sum_Inr)
  then obtain su where su:
    "provider_new fs parse_err provider_name ''https://api.anthropic.com/v1'' None opts = Inr su" "h = su_http su"
    by (auto simp: anthropic_new_def map_sum_Inr)
  have "\<not> own_redirects None" by (simp add: own_redirects_def)
  note p = provider_client [OF su(1) this, folded su(2)]
  have "metered_client (6 * transport_attempts (hc_transport h))
      (anthropic_methods N (h\<lparr>hc_redirect := Some RefuseRedirect\<rparr>) J c)" by (rule refusing.anthropic_metered)
  then have "metered_client (6 * transport_attempts (hc_transport h)) client" by (simp only: p(1) n(2))
  moreover have "6 * transport_attempts (hc_transport h) \<le> 6 * attempts_allowed opts" using p(2) by simp
  ultimately show ?thesis unfolding metered_client_def by (meson add_le_mono le_refl order_trans)
qed

lemma attempts_select: "attempts_allowed (with_defaults fs (opts\<lparr>opt_model := m\<rparr>)) = attempts_allowed opts"
  by (simp add: attempts_allowed_def with_defaults_select default_retry_def)

text \<open>An environment after the package's \<open>init\<close>, and a configuration with Anthropic alone.\<close>

definition with_anthropic ::
  "(string \<Rightarrow> go_error) \<Rightarrow> 'v net \<Rightarrow> a_json \<Rightarrow> (extension, 'v \<times> nat) proxy_env \<Rightarrow> (extension, 'v \<times> nat) proxy_env" where
  "with_anthropic parse_err N J E =
     E\<lparr>px_registry := (''anthropic'', anthropic_constructor (px_read_file E) parse_err N J) # px_registry E\<rparr>"

interpretation over_anthropic: metered_providers
    "with_anthropic parse_err N J E" "cfg\<lparr>pc_providers := [(''anthropic'', opts)]\<rparr>" "6 * attempts_allowed opts"
  for parse_err N J E cfg opts
proof
  fix client
  assume "opens (with_anthropic parse_err N J E) (cfg\<lparr>pc_providers := [(''anthropic'', opts)]\<rparr>) client"
  then obtain m where "open_client (with_anthropic parse_err N J E) ''anthropic'' (opts\<lparr>opt_model := m\<rparr>) = Inr client"
    by (auto simp: opens_def)
  then have "anthropic_constructor (px_read_file E) parse_err N J
      (with_defaults (px_read_file E) (opts\<lparr>opt_model := m\<rparr>)) = Inr client"
    by (simp add: open_client_def new_client_def with_anthropic_def)
  from anthropic_constructed [OF this] show "metered_client (6 * attempts_allowed opts) client"
    by (simp only: attempts_select)
qed

text \<open>
  C39: a request to the proxy costs a bounded number of requests to the provider. Whatever an HTTP
  client sends to whichever endpoint of a proxy configured with Anthropic, whatever the hooks do
  and whatever the network answers, serving it ends with at most six times the attempts
  Options.Retry allows on the network: one provider call, adjusted and resent at most six times,
  each send retried within the options.
\<close>

theorem proxy_budget:
  "snd (ex_world (serve (with_anthropic parse_err N J E) (cfg\<lparr>pc_providers := [(''anthropic'', opts)]\<rparr>) ep r (w, n)))
     \<le> n + 6 * attempts_allowed opts"
  using over_anthropic.serve_spent [where parse_err = parse_err and N = N and J = J and E = E and cfg = cfg
      and opts = opts and ep = ep and r = r and w = "(w, n)"]
  by (simp split: if_splits)

subsection \<open>A stream through the proxy\<close>

lemma stream_of_events:
  assumes "raw_content (rs_body resp) = concat (map data_frame ds)" and "raw_ending (rs_body resp) = None"
    and "int (length (raw_content (rs_body resp))) \<le> body_limit resp"
    and "list_all fits_line ds" and "map (aj_event J) ds = map Inr evs" and "''[DONE]'' \<notin> set ds"
  shows "stream_of N J resp = (event_chunks no_tokens evs, None)"
proof -
  have "read_body (nt_room N) resp = Some (concat (map data_frame ds), None)"
    using assms(1-3) by (simp add: read_body_def limited_body_exact)
  then show ?thesis
    by (simp add: stream_of_def sse_events_frames [OF assms(4)] stream_loop_events [OF assms(5,6)])
qed

lemma emitted_not_done: "no_done (emitted_chunks em)"
  by (cases em) (simp_all add: no_done_def list_all_iff is_done_def chunk_makers)

lemma emissions_not_done: "no_done (concat (map emitted_chunks es))"
  using emitted_not_done by (induction es) (auto simp: no_done_def)

lemma upto_last_done: "no_done cs \<Longrightarrow> is_done d \<Longrightarrow> upto_done (cs @ [d]) = cs @ [d]"
  by (induction cs) simp_all

lemma write_sse_whole:
  assumes "no_done cs" and "is_done d" and "list_all (encodable marshal) (cs @ [d])"
  shows "write_sse marshal secrets (cs @ [d], final) = (map SseData cs @ [SseDone d], assemble (cs @ [d]), None)"
proof -
  have "takeWhile (encodable marshal) (cs @ [d]) = cs @ [d]" using assms(3) by (simp add: list_all_iff)
  with assms show ?thesis
    by (simp add: write_sse_spec sse_spec_def Let_def upto_last_done map_event_of_no_done event_of_def
        del: takeWhile_append)
qed


definition relay_response :: http_response where
  "relay_response = \<lparr>rs_status = 200, rs_headers = [], rs_body = [(concat (map data_frame demo_lines), None)],
     rs_limit = None, rs_closed = False, rs_cancel_on_close = False\<rparr>"

definition relay_net :: "unit net" where
  "relay_net = down_net\<lparr>nt_caller_do := (\<lambda>_ _ s. (Inr relay_response, s))\<rparr>"

definition relay_http :: http_client where
  "relay_http = \<lparr>hc_transport = BaseTransport CallerTransport, hc_redirect = None, hc_timeout = 0\<rparr>"

definition relay_json :: a_json where
  "relay_json = \<lparr>aj_error = demo_error, aj_marshal = (\<lambda>_. Inr ''{}''), aj_decode = (\<lambda>_. Inl EofErr),
     aj_zero = \<lparr>ap_content = [], ap_stop_reason = [], ap_usage = demo_usage\<rparr>, aj_event = demo_decode,
     aj_models = (\<lambda>_. Inr []), aj_table = []\<rparr>"

definition relay_env :: "(extension, unit \<times> nat) proxy_env" where
  "relay_env = \<lparr>px_read_file = (\<lambda>_. None), px_registry = [], px_random_id = ''1f'', px_marshal = (\<lambda>_. None),
     px_write = (\<lambda>_. None), px_chat_body = (\<lambda>_. Inl EofErr), px_embed_body = (\<lambda>_. Inl EofErr),
     px_multimodal_body = (\<lambda>_. Inl EofErr), px_rerank_body = (\<lambda>_. Inl EofErr), px_base64_error = (\<lambda>_. EofErr)\<rparr>"

definition relay_config :: "extension proxy_config" where
  "relay_config = \<lparr>pc_default = ''anthropic'', pc_providers = [], pc_on_request = False, pc_on_response = False,
     pc_on_error = False, pc_authorize = None, pc_transform = None, pc_id_header = [], pc_prefix = ''/v1'', pc_max_body = 0\<rparr>"

lemma relay_opens:
  "\<exists>k. anthropic_chat_stream (aj_error relay_json) (anthropic_opened relay_net relay_http relay_json demo_client)
      AnthropicProps.demo_request demo_client (((), 0), None) = Some (None, k)
    \<and> cl_world k = (((), 0), Some relay_response)"
proof -
  have "check_request demo_client AnthropicProps.demo_request = None" by code_simp
  moreover have "do_sse_request (client_api relay_net relay_http) ''POST'' url hs (Some (Inr b)) ((), 0) = (Inr relay_response, (), 0)"
    for url hs b
    by (simp add: do_sse_request_def client_api_def client_do_def relay_net_def down_net_def relay_http_def)
  ultimately show ?thesis
    by (simp add: anthropic_chat_stream_def fresh_call_def open_loop.simps open_pass_def anthropic_opened_def
        anthropic_open_def open_sse_request_def relay_json_def relay_response_def Let_def)
qed


end
